theory Spec2Isabelle
  imports
    Complex_Main
    "HOL-Library.Word"
    "HOL-Library.Sublist"
    "HOL-Library.Multiset"
    "HOL-Library.Char_ord"
    "HOL-Library.List_Lexorder"
begin

section \<open>Data model\<close>

text \<open>
  The analysis engine of the chart analyzer: theme classification
  (package \<^verbatim>\<open>analysis\<close>, theme rules), trend scoring (\<^verbatim>\<open>trends.go\<close>), the snapshot
  store (\<^verbatim>\<open>sqlite.go\<close>) and the report and time-series entry points
  (\<^verbatim>\<open>web.go\<close>, \<^verbatim>\<open>timeseries_json.go\<close>).

  Conventions of the embedding.
  \<^item> Go's \<^verbatim>\<open>int\<close> and \<^verbatim>\<open>int64\<close> are 64-bit words; \<open>+\<close> and \<open>-\<close> wrap, \<open>sint\<close> reads
    the signed value.
  \<^item> Go's \<^verbatim>\<open>float64\<close> is the type \<open>float64\<close> of the finite values, the two infinities
    and NaN, with the rules of IEEE 754 for the infinities and NaN. A finite value is a
    real: rounding, the overflow of a finite result and the sign of zero are outside the
    model.
  \<^item> A Go string is a list of bytes. \<^verbatim>\<open>strings.ToLower\<close> and \<^verbatim>\<open>strings.TrimSpace\<close>
    are modelled on ASCII; bytes from 0x80 on are left as they are.
  \<^item> A \<^verbatim>\<open>time.Time\<close> is the number of seconds since the Unix epoch.
  \<^item> A Go map is a partial function; reading a missing key gives the zero value,
    written out with \<open>case\<close>. A nil slice is the empty list.
  \<^item> Several Go structs share field names, so every record field carries a short
    prefix of its struct (\<open>ci_\<close> for ChartItem, \<open>at_\<close> for AppTrend, and so on).
\<close>

type_synonym go_int = "64 word"
type_synonym go_time = int

section \<open>Floating point\<close>

datatype float64 = Finite real | PosInf | NegInf | NaN

definition signedInf :: "bool \<Rightarrow> float64" where
  "signedInf negative = (if negative then NegInf else PosInf)"

fun fadd :: "float64 \<Rightarrow> float64 \<Rightarrow> float64" where
  "fadd (Finite a) (Finite b) = Finite (a + b)"
| "fadd NaN y = NaN"
| "fadd x NaN = NaN"
| "fadd PosInf NegInf = NaN"
| "fadd NegInf PosInf = NaN"
| "fadd PosInf y = PosInf"
| "fadd x PosInf = PosInf"
| "fadd NegInf y = NegInf"
| "fadd x NegInf = NegInf"

fun fneg :: "float64 \<Rightarrow> float64" where
  "fneg (Finite a) = Finite (- a)"
| "fneg PosInf = NegInf"
| "fneg NegInf = PosInf"
| "fneg NaN = NaN"

fun fmul :: "float64 \<Rightarrow> float64 \<Rightarrow> float64" where
  "fmul (Finite a) (Finite b) = Finite (a * b)"
| "fmul NaN y = NaN"
| "fmul x NaN = NaN"
| "fmul (Finite a) PosInf = (if a = 0 then NaN else signedInf (a < 0))"
| "fmul (Finite a) NegInf = (if a = 0 then NaN else signedInf (0 < a))"
| "fmul PosInf (Finite b) = (if b = 0 then NaN else signedInf (b < 0))"
| "fmul NegInf (Finite b) = (if b = 0 then NaN else signedInf (0 < b))"
| "fmul PosInf PosInf = PosInf"
| "fmul PosInf NegInf = NegInf"
| "fmul NegInf PosInf = NegInf"
| "fmul NegInf NegInf = PosInf"

text \<open>
  Division; a zero divisor is taken as positive. The code divides by a length or a count
  that is not zero and by a standard deviation it has compared with zero.
\<close>

fun fdiv :: "float64 \<Rightarrow> float64 \<Rightarrow> float64" where
  "fdiv (Finite a) (Finite b) =
     (if b = 0 then (if a = 0 then NaN else signedInf (a < 0)) else Finite (a / b))"
| "fdiv NaN y = NaN"
| "fdiv x NaN = NaN"
| "fdiv (Finite a) PosInf = Finite 0"
| "fdiv (Finite a) NegInf = Finite 0"
| "fdiv PosInf (Finite b) = signedInf (b < 0)"
| "fdiv NegInf (Finite b) = signedInf (0 \<le> b)"
| "fdiv PosInf PosInf = NaN"
| "fdiv PosInf NegInf = NaN"
| "fdiv NegInf PosInf = NaN"
| "fdiv NegInf NegInf = NaN"

text \<open>\<^verbatim>\<open>math.Sqrt\<close>.\<close>

fun fsqrt :: "float64 \<Rightarrow> float64" where
  "fsqrt (Finite a) = (if a < 0 then NaN else Finite (sqrt a))"
| "fsqrt PosInf = PosInf"
| "fsqrt NegInf = NaN"
| "fsqrt NaN = NaN"

text \<open>Go's \<^verbatim>\<open><\<close>: every comparison with NaN is false.\<close>

fun fless :: "float64 \<Rightarrow> float64 \<Rightarrow> bool" where
  "fless (Finite a) (Finite b) = (a < b)"
| "fless NaN y = False"
| "fless x NaN = False"
| "fless x NegInf = False"
| "fless PosInf y = False"
| "fless NegInf y = True"
| "fless x PosInf = True"

text \<open>
  The operators of Go on \<open>float64\<close>: \<open>+\<close>, \<open>-\<close>, \<open>*\<close>, \<open>/\<close>, \<open><\<close> and \<open>\<le>\<close> are the functions
  above, so \<open>a \<le> b\<close> is false when one of the two is NaN. The equality of HOL with a value
  that is not NaN is Go's \<^verbatim>\<open>==\<close>.
\<close>

instantiation float64 :: "{zero, one, plus, minus, uminus, times, inverse, ord}"
begin

definition zero_float64 :: float64 where "0 = Finite 0"
definition one_float64 :: float64 where "1 = Finite 1"
definition plus_float64 :: "float64 \<Rightarrow> float64 \<Rightarrow> float64" where "a + b = fadd a b"
definition uminus_float64 :: "float64 \<Rightarrow> float64" where "- a = fneg a"
definition minus_float64 :: "float64 \<Rightarrow> float64 \<Rightarrow> float64" where "a - b = fadd a (fneg b)"
definition times_float64 :: "float64 \<Rightarrow> float64 \<Rightarrow> float64" where "a * b = fmul a b"
definition divide_float64 :: "float64 \<Rightarrow> float64 \<Rightarrow> float64" where "divide a b = fdiv a b"
definition inverse_float64 :: "float64 \<Rightarrow> float64" where "inverse a = fdiv (Finite 1) a"
definition less_float64 :: "float64 \<Rightarrow> float64 \<Rightarrow> bool" where "a < b = fless a b"
definition less_eq_float64 :: "float64 \<Rightarrow> float64 \<Rightarrow> bool" where
  "a \<le> b = (fless a b \<or> (a = b \<and> a \<noteq> NaN))"

instance ..

end

text \<open>
  Addition is associative and commutative here, where no result is rounded, and \<open>0\<close> is
  its unit; this gives the sum of a list.
\<close>

instance float64 :: comm_monoid_add
proof
  fix a b c :: float64
  show "a + b + c = a + (b + c)"
    by (cases a; cases b; cases c) (simp_all add: plus_float64_def)
  show "a + b = b + a"
    by (cases a; cases b) (simp_all add: plus_float64_def)
  show "0 + a = a"
    by (cases a) (simp_all add: plus_float64_def zero_float64_def)
qed

text \<open>\<^verbatim>\<open>!math.IsInf(x, 0) && !math.IsNaN(x)\<close>.\<close>

fun isFinite :: "float64 \<Rightarrow> bool" where
  "isFinite (Finite a) = True"
| "isFinite PosInf = False"
| "isFinite NegInf = False"
| "isFinite NaN = False"

text \<open>\<^verbatim>\<open>float64(n)\<close> of a length or a count.\<close>

definition floatOfNat :: "nat \<Rightarrow> float64" where
  "floatOfNat n = Finite (real n)"

section \<open>Records\<close>

record Snapshot =
  snap_ID :: "64 word"
  snap_CollectedAt :: go_time
  snap_Country :: string
  snap_Chart :: string
  snap_Limit :: go_int
  snap_SourceURL :: string

record NullInt =
  ni_Value :: go_int
  ni_Valid :: bool

record NullFloat =
  nf_Value :: float64
  nf_Valid :: bool

record ChartItem =
  ci_SnapshotID :: "64 word"
  ci_Rank :: go_int
  ci_AppID :: string
  ci_AppName :: string
  ci_ArtistName :: string
  ci_AppURL :: string
  ci_ReleaseDate :: string
  ci_Genres :: "string list"
  ci_GenreIDs :: "string list"
  ci_PrimaryGenre :: string
  ci_ItunesGenres :: "string list"
  ci_RatingCount :: NullInt
  ci_AverageRating :: NullFloat

record ThemeRule =
  tr_Theme :: string
  tr_GenreIDs :: "string list"
  tr_Genres :: "string list"
  tr_Keywords :: "string list"

record ThemeConfig =
  tc_Rules :: "ThemeRule list"
  tc_RiskOn :: "string list"
  tc_RiskOff :: "string list"

record ThemeScore =
  ts_Theme :: string
  ts_Score :: float64

record normalizedRule =
  nr_theme :: string
  nr_genreIDs :: "string \<Rightarrow> bool"
  nr_genres :: "string list"
  nr_keywords :: "string list"

record ThemeClassifier =
  cls_rules :: "normalizedRule list"

record ThemeInput =
  ti_Name :: string
  ti_Genres :: "string list"
  ti_GenreIDs :: "string list"
  ti_PrimaryGenre :: string
  ti_ItunesGenres :: "string list"

record TrendConfig =
  cfg_RankWeight :: float64
  cfg_ReviewWeight :: float64
  cfg_NewEntryBonus :: float64

record AppTrend =
  at_AppID :: string
  at_AppName :: string
  at_AppURL :: string
  at_Rank :: go_int
  at_RankDelta :: go_int
  at_RatingCount :: go_int
  at_RatingDelta :: go_int
  at_TrendScore :: float64
  at_Theme :: string
  at_NewEntry :: bool

record TrendResult =
  res_Trends :: "AppTrend list"
  res_ThemeScores :: "string \<rightharpoonup> float64"
  res_RiskOnScore :: float64
  res_RiskOffScore :: float64
  res_RotationIndex :: float64

datatype error =
  ErrNoRows
  | ErrMessage string
  | ErrFile string
  | ErrPanic string

section \<open>Strings\<close>

definition isSpace :: "char \<Rightarrow> bool" where
  "isSpace c = (c \<in> set [CHR 0x09, CHR 0x0A, CHR 0x0B, CHR 0x0C, CHR 0x0D, CHR 0x20])"

definition TrimSpace :: "string \<Rightarrow> string" where
  "TrimSpace s = rev (dropWhile isSpace (rev (dropWhile isSpace s)))"

definition isUpper :: "char \<Rightarrow> bool" where
  "isUpper c = (65 \<le> (of_char c :: nat) \<and> (of_char c :: nat) \<le> 90)"

definition toLowerChar :: "char \<Rightarrow> char" where
  "toLowerChar c = (if isUpper c then char_of ((of_char c :: nat) + 32) else c)"

definition ToLower :: "string \<Rightarrow> string" where
  "ToLower s = map toLowerChar s"

text \<open>\<^verbatim>\<open>strings.Contains(value, candidate)\<close>: the candidate occurs as a contiguous run.\<close>

fun Contains :: "string \<Rightarrow> string \<Rightarrow> bool" where
  "Contains [] sub = (sub = [])"
| "Contains (c # cs) sub = (prefix sub (c # cs) \<or> Contains cs sub)"

section \<open>Theme configuration\<close>

definition mkRule :: "string \<Rightarrow> string list \<Rightarrow> string list \<Rightarrow> ThemeRule" where
  "mkRule t ids gs = \<lparr>tr_Theme = t, tr_GenreIDs = ids, tr_Genres = gs, tr_Keywords = []\<rparr>"

definition defaultThemeConfig :: ThemeConfig where
  "defaultThemeConfig = \<lparr>
     tc_Rules = [
       mkRule ''games'' [''6014''] [''games''],
       mkRule ''entertainment'' [''6016'', ''6011'', ''6008'', ''6005'']
         [''entertainment'', ''music'', ''photo'', ''social networking''],
       mkRule ''commerce'' [''6024'', ''6023''] [''shopping'', ''food'', ''drink'', ''food & drink''],
       mkRule ''travel'' [''6003'', ''6010''] [''travel'', ''navigation''],
       mkRule ''finance'' [''6015''] [''finance''],
       mkRule ''productivity'' [''6007'', ''6002'', ''6000''] [''productivity'', ''utilities'', ''business''],
       mkRule ''education'' [''6017''] [''education''],
       mkRule ''health'' [''6013'', ''6018''] [''health'', ''fitness'', ''medical''],
       mkRule ''news'' [''6009'', ''6006'', ''6001''] [''news'', ''reference'', ''weather''],
       mkRule ''sports'' [''6004''] [''sports'']],
     tc_RiskOn = [''games'', ''entertainment'', ''commerce'', ''travel'', ''sports''],
     tc_RiskOff = [''productivity'', ''education'', ''health'', ''finance'', ''news'']\<rparr>"

text \<open>
  What \<^verbatim>\<open>LoadThemeConfig\<close> meets at the path it is given: \<^verbatim>\<open>os.Stat\<close> reports that
  the file does not exist, or fails otherwise; \<^verbatim>\<open>os.ReadFile\<close> fails;
  \<^verbatim>\<open>json.Unmarshal\<close> rejects the bytes, or fills a \<open>ThemeConfig\<close>.
\<close>

datatype theme_file =
  NotExist
  | StatFails error
  | ReadFails error
  | Malformed error
  | Decoded ThemeConfig

type_synonym filesystem = "string \<Rightarrow> theme_file"

definition LoadThemeConfig :: "filesystem \<Rightarrow> string \<Rightarrow> error + ThemeConfig" where
  "LoadThemeConfig fs path =
     (case fs path of
        NotExist \<Rightarrow> Inr defaultThemeConfig
      | StatFails err \<Rightarrow> Inl err
      | ReadFails err \<Rightarrow> Inl err
      | Malformed err \<Rightarrow> Inl err
      | Decoded cfg \<Rightarrow>
          if length (tc_Rules cfg) = 0 then Inr defaultThemeConfig else Inr cfg)"

section \<open>Theme classifier\<close>

fun normalizeList :: "string list \<Rightarrow> string list" where
  "normalizeList [] = []"
| "normalizeList (item # items) =
     (let v = ToLower (TrimSpace item)
      in if v = [] then normalizeList items else v # normalizeList items)"

fun containsAny :: "string \<Rightarrow> string list \<Rightarrow> bool" where
  "containsAny v [] = False"
| "containsAny v (candidate # candidates) =
     (if candidate \<noteq> [] \<and> Contains v candidate then True else containsAny v candidates)"

text \<open>The set \<^verbatim>\<open>map[string]bool\<close> of trimmed identifiers; a missing key reads false.\<close>

definition idSet :: "string list \<Rightarrow> string \<Rightarrow> bool" where
  "idSet ids = fold (\<lambda>id m. m(TrimSpace id := True)) ids (\<lambda>_. False)"

definition normalizeRule :: "ThemeRule \<Rightarrow> normalizedRule" where
  "normalizeRule rule = \<lparr>
     nr_theme = ToLower (tr_Theme rule),
     nr_genreIDs = idSet (tr_GenreIDs rule),
     nr_genres = normalizeList (tr_Genres rule),
     nr_keywords = normalizeList (tr_Keywords rule)\<rparr>"

definition NewThemeClassifier :: "ThemeConfig \<Rightarrow> ThemeClassifier" where
  "NewThemeClassifier cfg = \<lparr>cls_rules = map normalizeRule (tc_Rules cfg)\<rparr>"

text \<open>
  The loop over the classifier's rules. The item's identifier set is a Go map whose keys
  are the trimmed identifiers; the loop over it returns as soon as one key is in the
  rule's set, so the order in which Go visits the keys does not show in the result.
\<close>

fun classifyRules :: "normalizedRule list \<Rightarrow> string list \<Rightarrow> string list \<Rightarrow> string \<Rightarrow> string" where
  "classifyRules [] genres genreIDs name = ''other''"
| "classifyRules (rule # rules) genres genreIDs name =
     (if list_ex (\<lambda>id. nr_genreIDs rule id) genreIDs then nr_theme rule
      else if list_ex (\<lambda>genre. containsAny genre (nr_genres rule)) genres then nr_theme rule
      else if nr_keywords rule \<noteq> [] \<and> containsAny name (nr_keywords rule) then nr_theme rule
      else classifyRules rules genres genreIDs name)"

definition Classify :: "ThemeClassifier \<Rightarrow> ThemeInput \<Rightarrow> string" where
  "Classify c input =
     (let genres = normalizeList (ti_Genres input @ (ti_ItunesGenres input @ [ti_PrimaryGenre input]));
          genreIDs = map TrimSpace (ti_GenreIDs input);
          name = ToLower (ti_Name input)
      in classifyRules (cls_rules c) genres genreIDs name)"

text \<open>
  When a configured rule matches an item, in the words of the specification. The strings
  of a list are taken trimmed and lower-cased, the empty ones left out. A rule matches
  when one of the item's identifiers is one of the rule's (both trimmed); or a genre
  fragment of the rule occurs in one of the item's genre strings (the genres of the
  primary source, those of the secondary source and its primary genre); or a keyword of
  the rule occurs in the lower-cased name of the item.
\<close>

definition foldedStrings :: "string list \<Rightarrow> string list" where
  "foldedStrings xs = filter (\<lambda>v. v \<noteq> []) (map (\<lambda>x. ToLower (TrimSpace x)) xs)"

definition ruleMatches :: "ThemeRule \<Rightarrow> ThemeInput \<Rightarrow> bool" where
  "ruleMatches rule input =
     ((\<exists>id \<in> set (ti_GenreIDs input). TrimSpace id \<in> TrimSpace ` set (tr_GenreIDs rule))
      \<or> (\<exists>genre \<in> set (foldedStrings
                          (ti_Genres input @ ti_ItunesGenres input @ [ti_PrimaryGenre input])).
            \<exists>fragment \<in> set (foldedStrings (tr_Genres rule)). sublist fragment genre)
      \<or> (\<exists>keyword \<in> set (foldedStrings (tr_Keywords rule)).
            sublist keyword (ToLower (ti_Name input))))"

section \<open>Statistics\<close>

definition meanStd :: "float64 list \<Rightarrow> float64 \<times> float64" where
  "meanStd values =
     (if length values = 0 then (0, 0)
      else
        let sm = fold (\<lambda>v s. s + v) values 0;
            mean = sm / floatOfNat (length values);
            variance = fold (\<lambda>v acc. acc + (v - mean) * (v - mean)) values 0
        in (mean, fsqrt (variance / floatOfNat (length values))))"

definition zscore :: "float64 \<Rightarrow> float64 \<Rightarrow> float64 \<Rightarrow> float64" where
  "zscore v mean std = (if std = 0 then 0 else (v - mean) / std)"

text \<open>\<^verbatim>\<open>float64(n)\<close> of a Go \<^verbatim>\<open>int\<close>.\<close>

definition float64 :: "go_int \<Rightarrow> float64" where
  "float64 n = Finite (real_of_int (sint n))"

section \<open>Trend analysis\<close>

definition zeroChartItem :: ChartItem where
  "zeroChartItem = \<lparr>
     ci_SnapshotID = 0, ci_Rank = 0, ci_AppID = [], ci_AppName = [], ci_ArtistName = [],
     ci_AppURL = [], ci_ReleaseDate = [], ci_Genres = [], ci_GenreIDs = [],
     ci_PrimaryGenre = [], ci_ItunesGenres = [],
     ci_RatingCount = \<lparr>ni_Value = 0, ni_Valid = False\<rparr>,
     ci_AverageRating = \<lparr>nf_Value = 0, nf_Valid = False\<rparr>\<rparr>"

text \<open>The map from identifier to item; a later item with the same identifier replaces an earlier one.\<close>

definition itemMap :: "ChartItem list \<Rightarrow> (string \<rightharpoonup> ChartItem)" where
  "itemMap items = fold (\<lambda>item m. m(ci_AppID item \<mapsto> item)) items Map.empty"

definition computeRatingDelta :: "ChartItem \<Rightarrow> ChartItem \<Rightarrow> bool \<Rightarrow> go_int" where
  "computeRatingDelta current prev prevOk =
     (if \<not> ni_Valid (ci_RatingCount current) then 0
      else if prevOk \<and> ni_Valid (ci_RatingCount prev)
        then ni_Value (ci_RatingCount current) - ni_Value (ci_RatingCount prev)
      else ni_Value (ci_RatingCount current))"

text \<open>The body of the first loop of \<^verbatim>\<open>AnalyzeTrends\<close>: the record appended for one current item.\<close>

definition buildTrend :: "Snapshot \<Rightarrow> (string \<rightharpoonup> ChartItem) \<Rightarrow> ThemeClassifier \<Rightarrow> ChartItem \<Rightarrow> AppTrend" where
  "buildTrend latest prevMap classifier item =
     (let (prev, ok) = (case prevMap (ci_AppID item) of
                          None \<Rightarrow> (zeroChartItem, False)
                        | Some p \<Rightarrow> (p, True));
          prevRank = (if ok then ci_Rank prev else snap_Limit latest + 1);
          rankDelta = prevRank - ci_Rank item;
          ratingDelta = computeRatingDelta item prev ok;
          theme = Classify classifier \<lparr>
            ti_Name = ci_AppName item,
            ti_Genres = ci_Genres item,
            ti_GenreIDs = ci_GenreIDs item,
            ti_PrimaryGenre = ci_PrimaryGenre item,
            ti_ItunesGenres = ci_ItunesGenres item\<rparr>
      in \<lparr>at_AppID = ci_AppID item,
          at_AppName = ci_AppName item,
          at_AppURL = ci_AppURL item,
          at_Rank = ci_Rank item,
          at_RankDelta = rankDelta,
          at_RatingCount = ni_Value (ci_RatingCount item),
          at_RatingDelta = ratingDelta,
          at_TrendScore = 0,
          at_Theme = theme,
          at_NewEntry = (\<not> ok)\<rparr>)"

text \<open>The body of the second loop: the score written into one record.\<close>

definition scoreTrend :: "TrendConfig \<Rightarrow> float64 \<times> float64 \<Rightarrow> float64 \<times> float64 \<Rightarrow> AppTrend \<Rightarrow> AppTrend" where
  "scoreTrend cfg rankStats reviewStats t =
     (let rankZ = zscore (float64 (at_RankDelta t)) (fst rankStats) (snd rankStats);
          reviewZ = zscore (float64 (at_RatingDelta t)) (fst reviewStats) (snd reviewStats);
          score = cfg_RankWeight cfg * rankZ + cfg_ReviewWeight cfg * reviewZ;
          score' = (if at_NewEntry t then score + cfg_NewEntryBonus cfg else score)
      in t\<lparr>at_TrendScore := score'\<rparr>)"

text \<open>
  The exchange sort of \<^verbatim>\<open>sortTrends\<close> and \<^verbatim>\<open>sortThemeScores\<close>, which differ only in the
  field they compare: for every \<open>i\<close>, every later \<open>j\<close> whose score is greater is swapped
  into position \<open>i\<close>.
\<close>

definition swap :: "nat \<Rightarrow> nat \<Rightarrow> 'a list \<Rightarrow> 'a list" where
  "swap i j out = out[i := out ! j, j := out ! i]"

definition exchangeStep :: "('a \<Rightarrow> float64) \<Rightarrow> nat \<Rightarrow> nat \<Rightarrow> 'a list \<Rightarrow> 'a list" where
  "exchangeStep score i j out = (if score (out ! j) > score (out ! i) then swap i j out else out)"

definition exchangeInner :: "('a \<Rightarrow> float64) \<Rightarrow> nat \<Rightarrow> 'a list \<Rightarrow> 'a list" where
  "exchangeInner score i out = fold (exchangeStep score i) [Suc i ..< length out] out"

text \<open>The inner loop stopped when \<open>j\<close> reaches \<open>k\<close>; its invariant is stated on this.\<close>

definition pass :: "('a \<Rightarrow> float64) \<Rightarrow> nat \<Rightarrow> nat \<Rightarrow> 'a list \<Rightarrow> 'a list" where
  "pass score i k out = fold (exchangeStep score i) [Suc i ..< k] out"

definition exchangeSort :: "('a \<Rightarrow> float64) \<Rightarrow> 'a list \<Rightarrow> 'a list" where
  "exchangeSort score items = fold (exchangeInner score) [0 ..< length items] items"

definition sortTrends :: "AppTrend list \<Rightarrow> AppTrend list" where
  "sortTrends items = exchangeSort at_TrendScore items"

definition sortThemeScores :: "ThemeScore list \<Rightarrow> ThemeScore list" where
  "sortThemeScores list = exchangeSort ts_Score list"

text \<open>
  The sums and counts per theme. \<^verbatim>\<open>themeCounts\<close> is only ever read at one key, so it is
  a total function with the zero value for a missing key.
\<close>

definition accumulateThemes :: "AppTrend list \<Rightarrow> (string \<rightharpoonup> float64) \<times> (string \<Rightarrow> nat)" where
  "accumulateThemes trends =
     fold (\<lambda>trend (scores, counts).
             (scores(at_Theme trend \<mapsto>
                (case scores (at_Theme trend) of None \<Rightarrow> 0 | Some v \<Rightarrow> v) + at_TrendScore trend),
              counts(at_Theme trend := counts (at_Theme trend) + 1)))
          trends (Map.empty, \<lambda>_. 0)"

text \<open>
  The loop that turns every total into a mean. Each iteration reads and writes its own
  key only, so the result does not depend on the order in which Go visits the keys.
\<close>

definition meanThemes :: "(string \<rightharpoonup> float64) \<times> (string \<Rightarrow> nat) \<Rightarrow> (string \<rightharpoonup> float64)" where
  "meanThemes acc =
     (\<lambda>theme. case fst acc theme of
                 None \<Rightarrow> None
               | Some tot \<Rightarrow>
                   (if snd acc theme > 0 then Some (tot / floatOfNat (snd acc theme)) else Some tot))"

definition averageThemes :: "(string \<rightharpoonup> float64) \<Rightarrow> string list \<Rightarrow> float64" where
  "averageThemes scores themes =
     (if length themes = 0 then 0
      else
        let (sm, count) =
              fold (\<lambda>theme (sm, count).
                      case scores theme of
                        Some score \<Rightarrow> (sm + score, count + 1)
                      | None \<Rightarrow> (sm, count))
                   themes (0, 0 :: nat)
        in if count = 0 then 0 else sm / floatOfNat count)"

text \<open>The three slices filled by the first loop, one entry per current item.\<close>

definition builtTrends :: "Snapshot \<Rightarrow> ChartItem list \<Rightarrow> ChartItem list \<Rightarrow> ThemeConfig \<Rightarrow> AppTrend list" where
  "builtTrends latest latestItems previousItems themes =
     map (buildTrend latest (itemMap previousItems) (NewThemeClassifier themes)) latestItems"

definition rankDeltas :: "AppTrend list \<Rightarrow> float64 list" where
  "rankDeltas trends = map (\<lambda>t. float64 (at_RankDelta t)) trends"

definition reviewDeltas :: "AppTrend list \<Rightarrow> float64 list" where
  "reviewDeltas trends = map (\<lambda>t. float64 (at_RatingDelta t)) trends"

definition scoredTrends :: "Snapshot \<Rightarrow> ChartItem list \<Rightarrow> ChartItem list \<Rightarrow> TrendConfig \<Rightarrow> ThemeConfig \<Rightarrow> AppTrend list" where
  "scoredTrends latest latestItems previousItems cfg themes =
     (let trends = builtTrends latest latestItems previousItems themes
      in map (scoreTrend cfg (meanStd (rankDeltas trends)) (meanStd (reviewDeltas trends))) trends)"

definition AnalyzeTrends ::
  "Snapshot \<Rightarrow> Snapshot \<Rightarrow> ChartItem list \<Rightarrow> ChartItem list \<Rightarrow> TrendConfig \<Rightarrow> ThemeConfig \<Rightarrow> TrendResult" where
  "AnalyzeTrends latest previous latestItems previousItems cfg themes =
     (let trends = sortTrends (scoredTrends latest latestItems previousItems cfg themes);
          themeScores = meanThemes (accumulateThemes trends);
          riskOnScore = averageThemes themeScores (tc_RiskOn themes);
          riskOffScore = averageThemes themeScores (tc_RiskOff themes)
      in \<lparr>res_Trends = trends,
          res_ThemeScores = themeScores,
          res_RiskOnScore = riskOnScore,
          res_RiskOffScore = riskOffScore,
          res_RotationIndex = riskOnScore - riskOffScore\<rparr>)"

section \<open>Snapshot store\<close>

text \<open>
  The two tables of the SQLite store, in insertion order, and the failures of the
  database: \<open>st_fault\<close> gives, for a query, the error with which the driver fails on it
  (the connection, the scan of a row, the parsing of the stored time), if it does. A query
  that does not fail is modelled by what it selects. The column \<^verbatim>\<open>collected_at\<close> holds
  RFC 3339 text in UTC, whose order is the order of the instants. Where SQLite leaves the
  order of equal keys open, the model takes the row inserted last.
\<close>

datatype query =
  QueryLatest
  | QueryPrevious
  | QueryList
  | QueryItems "64 word"

record Store =
  st_snapshots :: "Snapshot list"
  st_chart_items :: "ChartItem list"
  st_fault :: "query \<Rightarrow> error option"

definition selectSnapshots :: "Store \<Rightarrow> string \<Rightarrow> string \<Rightarrow> Snapshot list" where
  "selectSnapshots st country chart =
     filter (\<lambda>s. snap_Country s = country \<and> snap_Chart s = chart) (st_snapshots st)"

definition scanFirst :: "Snapshot list \<Rightarrow> error + Snapshot" where
  "scanFirst rows = (case rows of [] \<Rightarrow> Inl ErrNoRows | s # _ \<Rightarrow> Inr s)"

definition GetLatestSnapshot :: "Store \<Rightarrow> string \<Rightarrow> string \<Rightarrow> error + Snapshot" where
  "GetLatestSnapshot st country chart =
     (case st_fault st QueryLatest of
        Some err \<Rightarrow> Inl err
      | None \<Rightarrow> scanFirst (rev (sort_key snap_CollectedAt (selectSnapshots st country chart))))"

definition GetPreviousSnapshot :: "Store \<Rightarrow> string \<Rightarrow> string \<Rightarrow> go_time \<Rightarrow> error + Snapshot" where
  "GetPreviousSnapshot st country chart before =
     (case st_fault st QueryPrevious of
        Some err \<Rightarrow> Inl err
      | None \<Rightarrow>
          scanFirst (rev (sort_key snap_CollectedAt
            (filter (\<lambda>s. snap_CollectedAt s < before) (selectSnapshots st country chart)))))"

text \<open>The items of a snapshot in the store, by ascending rank.\<close>

definition itemsOf :: "Store \<Rightarrow> 64 word \<Rightarrow> ChartItem list" where
  "itemsOf st snapshotID =
     sort_key (\<lambda>item. sint (ci_Rank item))
       (filter (\<lambda>item. ci_SnapshotID item = snapshotID) (st_chart_items st))"

definition GetSnapshotItems :: "Store \<Rightarrow> 64 word \<Rightarrow> error + ChartItem list" where
  "GetSnapshotItems st snapshotID =
     (case st_fault st (QueryItems snapshotID) of
        Some err \<Rightarrow> Inl err
      | None \<Rightarrow> Inr (itemsOf st snapshotID))"

text \<open>
  Modelled from the spec: \<^verbatim>\<open>ListSnapshots\<close> is called by \<^verbatim>\<open>computeTimeSeries\<close> but its
  body is not among the sources. The specification gives it as
  \<^verbatim>\<open>listSnapshots(market, chart)\<close>, the ordered sequence of the snapshots of that market
  and chart, ascending by collection time; the call site takes an error from it as from
  the other queries.
\<close>

definition ListSnapshots :: "Store \<Rightarrow> string \<Rightarrow> string \<Rightarrow> error + Snapshot list" where
  "ListSnapshots st country chart =
     (case st_fault st QueryList of
        Some err \<Rightarrow> Inl err
      | None \<Rightarrow> Inr (sort_key snap_CollectedAt (selectSnapshots st country chart)))"

section \<open>Report\<close>

record reportSnapshot =
  rs_ID :: "64 word"
  rs_CollectedAt :: go_time
  rs_Country :: string
  rs_Chart :: string
  rs_Limit :: go_int
  rs_SourceURL :: string

record reportPayload =
  rp_Latest :: reportSnapshot
  rp_Previous :: reportSnapshot
  rp_GeneratedAt :: go_time
  rp_Trends :: "AppTrend list"
  rp_ThemeScores :: "ThemeScore list"
  rp_RiskOnScore :: float64
  rp_RiskOffScore :: float64
  rp_RotationIndex :: float64

text \<open>
  \<^verbatim>\<open>SortThemeScores\<close> ranges over a Go map, whose iteration order is not fixed. The order
  in which the keys are visited is the argument \<open>keys\<close>.
\<close>

definition SortThemeScores :: "string list \<Rightarrow> (string \<rightharpoonup> float64) \<Rightarrow> ThemeScore list" where
  "SortThemeScores keys scores =
     sortThemeScores
       (map (\<lambda>theme. \<lparr>ts_Theme = theme,
                       ts_Score = (case scores theme of None \<Rightarrow> 0 | Some v \<Rightarrow> v)\<rparr>) keys)"

definition toReportSnapshot :: "Snapshot \<Rightarrow> reportSnapshot" where
  "toReportSnapshot s = \<lparr>
     rs_ID = snap_ID s, rs_CollectedAt = snap_CollectedAt s, rs_Country = snap_Country s,
     rs_Chart = snap_Chart s, rs_Limit = snap_Limit s, rs_SourceURL = snap_SourceURL s\<rparr>"

text \<open>
  \<open>fs\<close> is the file system in which the theme file is looked up and \<open>now\<close> the reading
  of the clock. The keys of the result's theme scores are visited in the order of their
  first appearance in the sorted trends.
\<close>

definition computeReport ::
  "filesystem \<Rightarrow> go_time \<Rightarrow> Store \<Rightarrow> string \<Rightarrow> string \<Rightarrow> string \<Rightarrow> TrendConfig \<Rightarrow> error + reportPayload" where
  "computeReport fs now st country chart themePath cfg =
     (case GetLatestSnapshot st country chart of
        Inl err \<Rightarrow> Inl err
      | Inr latest \<Rightarrow>
     (case GetPreviousSnapshot st country chart (snap_CollectedAt latest) of
        Inl err \<Rightarrow>
          (if err = ErrNoRows then Inl (ErrMessage ''need at least two snapshots for report'')
           else Inl err)
      | Inr previous \<Rightarrow>
     (case GetSnapshotItems st (snap_ID latest) of
        Inl err \<Rightarrow> Inl err
      | Inr latestItems \<Rightarrow>
     (case GetSnapshotItems st (snap_ID previous) of
        Inl err \<Rightarrow> Inl err
      | Inr prevItems \<Rightarrow>
     (case LoadThemeConfig fs themePath of
        Inl err \<Rightarrow> Inl err
      | Inr themeConfig \<Rightarrow>
          (let result = AnalyzeTrends latest previous latestItems prevItems cfg themeConfig
           in Inr \<lparr>rp_Latest = toReportSnapshot latest,
                   rp_Previous = toReportSnapshot previous,
                   rp_GeneratedAt = now,
                   rp_Trends = res_Trends result,
                   rp_ThemeScores =
                     SortThemeScores (remdups (map at_Theme (res_Trends result)))
                       (res_ThemeScores result),
                   rp_RiskOnScore = res_RiskOnScore result,
                   rp_RiskOffScore = res_RiskOffScore result,
                   rp_RotationIndex = res_RotationIndex result\<rparr>))))))"

section \<open>Time series\<close>

record timeSeriesMeta =
  tm_Country :: string
  tm_Chart :: string
  tm_Limit :: go_int

record timeSeriesTopApp =
  ta_AppID :: string
  ta_AppName :: string
  ta_AppURL :: string
  ta_Ranks :: "go_int option list"
  ta_RatingCounts :: "go_int option list"

text \<open>
  \<open>tp_Dates\<close> holds the instants whose RFC 3339 rendering in UTC the payload carries.
\<close>

record timeSeriesPayload =
  tp_Meta :: timeSeriesMeta
  tp_Dates :: "go_time list"
  tp_RotationIndex :: "float64 list"
  tp_RiskOnScore :: "float64 list"
  tp_RiskOffScore :: "float64 list"
  tp_ThemeScores :: "string \<rightharpoonup> float64 list"
  tp_TopApps :: "timeSeriesTopApp list"

text \<open>
  A \<^verbatim>\<open>time.Location\<close> gives the offset from UTC, in seconds, at an instant;
  \<^verbatim>\<open>time.LoadLocation\<close> looks a name up in the time zone database \<open>tzdb\<close> and fails
  where the database has no entry. The calendar day that
  \<^verbatim>\<open>Format("2006-01-02")\<close> prints is the number of the day since the epoch.
\<close>

type_synonym location = "go_time \<Rightarrow> int"
type_synonym tzdatabase = "string \<Rightarrow> location option"

definition UTC :: location where
  "UTC = (\<lambda>_. 0)"

definition dateKey :: "location \<Rightarrow> Snapshot \<Rightarrow> int" where
  "dateKey loc snapshot = (snap_CollectedAt snapshot + loc (snap_CollectedAt snapshot)) div 86400"

definition buildDateIndex :: "(Snapshot \<Rightarrow> int) \<Rightarrow> Snapshot list \<Rightarrow> (int \<rightharpoonup> nat)" where
  "buildDateIndex key snapshots =
     fold (\<lambda>(i, snapshot) m. m(key snapshot \<mapsto> i)) (enumerate 0 snapshots) Map.empty"

text \<open>
  The second loop of \<^verbatim>\<open>groupSnapshotsByDate\<close>; \<open>None\<close> is the panic of \<^verbatim>\<open>items[i]\<close>
  out of range.
\<close>

fun groupLoop ::
  "(Snapshot \<Rightarrow> int) \<Rightarrow> (int \<rightharpoonup> nat) \<Rightarrow> 'a list \<Rightarrow> (nat \<times> Snapshot) list \<Rightarrow> (int \<Rightarrow> bool) \<Rightarrow>
   Snapshot list \<Rightarrow> 'a list \<Rightarrow> (Snapshot list \<times> 'a list) option" where
  "groupLoop key dateIndex items [] seen groupedSnapshots groupedItems =
     Some (groupedSnapshots, groupedItems)"
| "groupLoop key dateIndex items ((i, snapshot) # rest) seen groupedSnapshots groupedItems =
     (let k = key snapshot
      in if (case dateIndex k of None \<Rightarrow> 0 | Some n \<Rightarrow> n) \<noteq> i \<or> seen k
           then groupLoop key dateIndex items rest seen groupedSnapshots groupedItems
         else if i < length items
           then groupLoop key dateIndex items rest (seen(k := True))
                  (groupedSnapshots @ [snapshot]) (groupedItems @ [items ! i])
         else None)"

definition groupBy :: "(Snapshot \<Rightarrow> int) \<Rightarrow> Snapshot list \<Rightarrow> 'a list \<Rightarrow> (Snapshot list \<times> 'a list) option" where
  "groupBy key snapshots items =
     (if length snapshots = 0 then Some (snapshots, items)
      else groupLoop key (buildDateIndex key snapshots) items (enumerate 0 snapshots)
             (\<lambda>_. False) [] [])"

definition groupSnapshotsByDate ::
  "tzdatabase \<Rightarrow> Snapshot list \<Rightarrow> 'a list \<Rightarrow> (Snapshot list \<times> 'a list) option" where
  "groupSnapshotsByDate tzdb snapshots items =
     (let loc = (case tzdb ''Asia/Seoul'' of None \<Rightarrow> UTC | Some l \<Rightarrow> l)
      in groupBy (dateKey loc) snapshots items)"

text \<open>The body of the loop of \<^verbatim>\<open>uniqueThemes\<close> over the rules.\<close>

definition uniqueStep :: "ThemeRule \<Rightarrow> (string \<Rightarrow> bool) \<times> string list \<Rightarrow> (string \<Rightarrow> bool) \<times> string list" where
  "uniqueStep rule acc =
     (case acc of (seen, themes) \<Rightarrow>
        let theme = tr_Theme rule
        in if theme = [] then (seen, themes)
           else if \<not> seen theme then (seen(theme := True), themes @ [theme])
           else (seen, themes))"

definition uniqueThemes :: "ThemeConfig \<Rightarrow> string list" where
  "uniqueThemes cfg =
     (case fold uniqueStep (tc_Rules cfg) ((\<lambda>_. False)(''other'' := True), [''other'']) of
        (seen, themes) \<Rightarrow> sort themes)"

definition topAppHistory ::
  "(string \<rightharpoonup> ChartItem) list \<Rightarrow> nat \<Rightarrow> ChartItem \<Rightarrow> timeSeriesTopApp" where
  "topAppHistory itemMaps n item =
     (let found = map (\<lambda>snapIdx. if snapIdx < length itemMaps
                                   then (itemMaps ! snapIdx) (ci_AppID item) else None) [0 ..< n]
      in \<lparr>ta_AppID = ci_AppID item,
          ta_AppName = ci_AppName item,
          ta_AppURL = ci_AppURL item,
          ta_Ranks = map (map_option ci_Rank) found,
          ta_RatingCounts =
            map (\<lambda>f. case f of
                        None \<Rightarrow> None
                      | Some it \<Rightarrow> (if ni_Valid (ci_RatingCount it)
                                     then Some (ni_Value (ci_RatingCount it)) else None)) found\<rparr>)"

text \<open>
  \<^verbatim>\<open>buildTopApps\<close>. A negative \<open>topN\<close> makes \<^verbatim>\<open>make\<close> panic; with more item lists than
  snapshots the write to \<^verbatim>\<open>Ranks[snapIdx]\<close> panics as soon as one app is selected.
\<close>

definition buildTopApps ::
  "ChartItem list list \<Rightarrow> Snapshot list \<Rightarrow> go_int \<Rightarrow> error + timeSeriesTopApp list" where
  "buildTopApps snapshotItems snapshots topN =
     (if length snapshotItems = 0 then Inr []
      else
        let latestItems = last snapshotItems;
            n = (if sint topN > int (length latestItems) then int (length latestItems) else sint topN)
        in if n < 0 then Inl (ErrPanic ''makeslice: cap out of range'')
           else if 0 < n \<and> length snapshots < length snapshotItems
             then Inl (ErrPanic ''index out of range'')
           else Inr (map (topAppHistory (map itemMap snapshotItems) (length snapshots))
                       (take (nat n) latestItems)))"

text \<open>
  The transition analysed for the retained day \<open>idx\<close>: against the day before, the first
  day against itself. The loop runs over the indices of the grouped snapshots, and the
  grouping returns as many item lists as snapshots, so both reads are in range there.
\<close>

definition transition ::
  "Snapshot list \<Rightarrow> ChartItem list list \<Rightarrow> TrendConfig \<Rightarrow> ThemeConfig \<Rightarrow> nat \<Rightarrow> TrendResult" where
  "transition snapshots snapshotItems cfg themeConfig idx =
     (let snapshot = snapshots ! idx;
          currentItems = snapshotItems ! idx;
          (prevSnapshot, prevItems) =
            (if idx > 0 then (snapshots ! (idx - 1), snapshotItems ! (idx - 1))
             else (snapshot, currentItems))
      in AnalyzeTrends snapshot prevSnapshot currentItems prevItems cfg themeConfig)"

type_synonym series = "go_time list \<times> float64 list \<times> float64 list \<times> float64 list \<times> (string \<rightharpoonup> float64 list)"

text \<open>The bodies of the two loops over the theme names: the empty series, and one more value.\<close>

definition initTheme :: "string \<Rightarrow> (string \<rightharpoonup> float64 list) \<Rightarrow> (string \<rightharpoonup> float64 list)" where
  "initTheme theme themeScores = themeScores(theme \<mapsto> [])"

definition appendTheme :: "TrendResult \<Rightarrow> string \<Rightarrow> (string \<rightharpoonup> float64 list) \<Rightarrow> (string \<rightharpoonup> float64 list)" where
  "appendTheme result theme themeScores =
     themeScores(theme \<mapsto> (case themeScores theme of None \<Rightarrow> [] | Some l \<Rightarrow> l)
                            @ [case res_ThemeScores result theme of None \<Rightarrow> 0 | Some v \<Rightarrow> v])"

definition appendThemes :: "TrendResult \<Rightarrow> string list \<Rightarrow> (string \<rightharpoonup> float64 list) \<Rightarrow> (string \<rightharpoonup> float64 list)" where
  "appendThemes result themeNames themeScores = fold (appendTheme result) themeNames themeScores"

definition dayStep ::
  "Snapshot list \<Rightarrow> ChartItem list list \<Rightarrow> TrendConfig \<Rightarrow> ThemeConfig \<Rightarrow> string list \<Rightarrow> nat \<Rightarrow> series \<Rightarrow> series" where
  "dayStep snapshots snapshotItems cfg themeConfig themeNames idx acc =
     (case acc of (dates, rotation, riskOn, riskOff, themeScores) \<Rightarrow>
        let result = transition snapshots snapshotItems cfg themeConfig idx
        in (dates @ [snap_CollectedAt (snapshots ! idx)],
            rotation @ [res_RotationIndex result],
            riskOn @ [res_RiskOnScore result],
            riskOff @ [res_RiskOffScore result],
            appendThemes result themeNames themeScores))"

definition buildSeries ::
  "Snapshot list \<Rightarrow> ChartItem list list \<Rightarrow> TrendConfig \<Rightarrow> ThemeConfig \<Rightarrow> string list \<Rightarrow> series" where
  "buildSeries snapshots snapshotItems cfg themeConfig themeNames =
     fold (dayStep snapshots snapshotItems cfg themeConfig themeNames) [0 ..< length snapshots]
       ([], [], [], [], fold initTheme themeNames Map.empty)"

fun loadItems :: "Store \<Rightarrow> Snapshot list \<Rightarrow> error + ChartItem list list" where
  "loadItems st [] = Inr []"
| "loadItems st (snapshot # snapshots) =
     (case GetSnapshotItems st (snap_ID snapshot) of
        Inl err \<Rightarrow> Inl err
      | Inr items \<Rightarrow>
          (case loadItems st snapshots of
             Inl err \<Rightarrow> Inl err
           | Inr rest \<Rightarrow> Inr (items # rest)))"

definition computeTimeSeries ::
  "filesystem \<Rightarrow> tzdatabase \<Rightarrow> Store \<Rightarrow> string \<Rightarrow> string \<Rightarrow> string \<Rightarrow> TrendConfig \<Rightarrow> go_int \<Rightarrow>
   error + timeSeriesPayload" where
  "computeTimeSeries fs tzdb st country chart themePath cfg topN =
     (case ListSnapshots st country chart of
        Inl err \<Rightarrow> Inl err
      | Inr snapshots \<Rightarrow>
     if length snapshots = 0 then Inl (ErrMessage ''no snapshots found'')
     else
     (case LoadThemeConfig fs themePath of
        Inl err \<Rightarrow> Inl err
      | Inr themeConfig \<Rightarrow>
     (case loadItems st snapshots of
        Inl err \<Rightarrow> Inl err
      | Inr snapshotItems \<Rightarrow>
     (case groupSnapshotsByDate tzdb snapshots snapshotItems of
        None \<Rightarrow> Inl (ErrPanic ''index out of range'')
      | Some (grouped, groupedItems) \<Rightarrow>
     (case buildSeries grouped groupedItems cfg themeConfig (uniqueThemes themeConfig) of
        (dates, rotation, riskOn, riskOff, themeScores) \<Rightarrow>
     (case buildTopApps groupedItems grouped topN of
        Inl err \<Rightarrow> Inl err
      | Inr topApps \<Rightarrow>
     if length grouped = 0 then Inl (ErrPanic ''index out of range'')
     else Inr \<lparr>tp_Meta = \<lparr>tm_Country = country, tm_Chart = chart,
                            tm_Limit = snap_Limit (last grouped)\<rparr>,
               tp_Dates = dates,
               tp_RotationIndex = rotation,
               tp_RiskOnScore = riskOn,
               tp_RiskOffScore = riskOff,
               tp_ThemeScores = themeScores,
               tp_TopApps = topApps\<rparr>))))))"

section \<open>Notions of the specification\<close>

text \<open>
  The score of a risk group in the words of the specification: the arithmetic mean of the
  theme scores of the group's themes that have an entry, and 0 when none has.
\<close>

definition groupMean :: "(string \<rightharpoonup> float64) \<Rightarrow> string list \<Rightarrow> float64" where
  "groupMean scores themes =
     (let present = filter (\<lambda>theme. scores theme \<noteq> None) themes
      in if present = [] then 0
         else sum_list (map (\<lambda>theme. the (scores theme)) present) / floatOfNat (length present))"

text \<open>The mean trend score of the records labelled with one theme, where there is one.\<close>

definition themeMean :: "AppTrend list \<Rightarrow> string \<rightharpoonup> float64" where
  "themeMean trends theme =
     (let members = filter (\<lambda>t. at_Theme t = theme) trends
      in if members = [] then None
         else Some (sum_list (map at_TrendScore members) / floatOfNat (length members)))"

text \<open>
  Snapshot \<open>i\<close> is the last of its calendar day: no later snapshot has its day key.
  The retained indices are those, in ascending order.
\<close>

definition lastOfDay :: "(Snapshot \<Rightarrow> int) \<Rightarrow> Snapshot list \<Rightarrow> nat \<Rightarrow> bool" where
  "lastOfDay key snapshots i =
     list_all (\<lambda>j. key (snapshots ! j) \<noteq> key (snapshots ! i)) [Suc i ..< length snapshots]"

definition retained :: "(Snapshot \<Rightarrow> int) \<Rightarrow> Snapshot list \<Rightarrow> nat list" where
  "retained key snapshots = filter (lastOfDay key snapshots) [0 ..< length snapshots]"

definition seoulOrUTC :: "tzdatabase \<Rightarrow> location" where
  "seoulOrUTC tzdb = (case tzdb ''Asia/Seoul'' of None \<Rightarrow> UTC | Some l \<Rightarrow> l)"

section \<open>Example data\<close>

text \<open>
  The scenario of the specification: a chart of limit 2 with the items A and B on the
  first day, B and C on the second; and a third snapshot taken later on the second day.
\<close>

definition exSnapshot :: "64 word \<Rightarrow> go_time \<Rightarrow> Snapshot" where
  "exSnapshot n t = \<lparr>snap_ID = n, snap_CollectedAt = t, snap_Country = ''kr'',
     snap_Chart = ''top-free'', snap_Limit = 2, snap_SourceURL = ''https://rss.example/kr''\<rparr>"

definition exItem :: "64 word \<Rightarrow> go_int \<Rightarrow> string \<Rightarrow> string list \<Rightarrow> go_int \<Rightarrow> ChartItem" where
  "exItem sid rank app ids rating = \<lparr>
     ci_SnapshotID = sid, ci_Rank = rank, ci_AppID = app, ci_AppName = app,
     ci_ArtistName = ''artist'', ci_AppURL = ''https://apps.example/'' @ app,
     ci_ReleaseDate = ''2024-01-01'', ci_Genres = [], ci_GenreIDs = ids,
     ci_PrimaryGenre = [], ci_ItunesGenres = [],
     ci_RatingCount = \<lparr>ni_Value = rating, ni_Valid = True\<rparr>,
     ci_AverageRating = \<lparr>nf_Value = 0, nf_Valid = False\<rparr>\<rparr>"

definition exDay1 :: Snapshot where "exDay1 = exSnapshot 1 1700000000"
definition exDay2 :: Snapshot where "exDay2 = exSnapshot 2 1700090000"
definition exDay2b :: Snapshot where "exDay2b = exSnapshot 3 1700100000"

definition exItems1 :: "ChartItem list" where
  "exItems1 = [exItem 1 1 ''A'' [''6014''] 100, exItem 1 2 ''B'' [''6015''] 50]"

definition exItems2 :: "ChartItem list" where
  "exItems2 = [exItem 2 1 ''B'' [''6015''] 80, exItem 2 2 ''C'' [''6014'', ''6016''] 10]"

definition exItems2b :: "ChartItem list" where
  "exItems2b = [exItem 3 1 ''C'' [''6014'', ''6016''] 20, exItem 3 2 ''B'' [''6015''] 90]"

definition exStoreOne :: Store where
  "exStoreOne = \<lparr>st_snapshots = [exDay1], st_chart_items = exItems1,
     st_fault = (\<lambda>_. None)\<rparr>"

definition exStoreThree :: Store where
  "exStoreThree = \<lparr>st_snapshots = [exDay1, exDay2, exDay2b],
     st_chart_items = exItems1 @ exItems2 @ exItems2b, st_fault = (\<lambda>_. None)\<rparr>"

definition exStoreNone :: Store where
  "exStoreNone = \<lparr>st_snapshots = [], st_chart_items = [], st_fault = (\<lambda>_. None)\<rparr>"

definition exCfg :: TrendConfig where
  "exCfg = \<lparr>cfg_RankWeight = Finite 1, cfg_ReviewWeight = Finite 1,
     cfg_NewEntryBonus = Finite (1 / 2)\<rparr>"

text \<open>The weights of \<^verbatim>\<open>--rank-weight=+Inf\<close>, which the flag parser accepts.\<close>

definition exCfgInf :: TrendConfig where
  "exCfgInf = \<lparr>cfg_RankWeight = PosInf, cfg_ReviewWeight = Finite 1,
     cfg_NewEntryBonus = Finite (1 / 2)\<rparr>"

definition exInput :: ThemeInput where
  "exInput = \<lparr>ti_Name = ''Puzzle Tunes'', ti_Genres = [''Games'', ''Music''],
     ti_GenreIDs = ['' 6016'', ''6014''], ti_PrimaryGenre = ''Games'', ti_ItunesGenres = []\<rparr>"

text \<open>An item matched by a genre name only, and one matched by a keyword only.\<close>

definition exGenreInput :: ThemeInput where
  "exGenreInput = \<lparr>ti_Name = ''Radio'', ti_Genres = [''  MUSIC  ''],
     ti_GenreIDs = [], ti_PrimaryGenre = [], ti_ItunesGenres = []\<rparr>"

definition exKeywordInput :: ThemeInput where
  "exKeywordInput = \<lparr>ti_Name = ''My BANK App'', ti_Genres = [],
     ti_GenreIDs = [], ti_PrimaryGenre = [], ti_ItunesGenres = []\<rparr>"

definition exKeywordThemes :: ThemeConfig where
  "exKeywordThemes = \<lparr>
     tc_Rules = [\<lparr>tr_Theme = ''Money'', tr_GenreIDs = [], tr_Genres = [],
                   tr_Keywords = ['' '', '' Bank '']\<rparr>],
     tc_RiskOn = [], tc_RiskOff = [''Money'']\<rparr>"

text \<open>A configuration whose first rule has an empty theme and whose second is capitalised.\<close>

definition exThemes :: ThemeConfig where
  "exThemes = \<lparr>
     tc_Rules = [\<lparr>tr_Theme = [], tr_GenreIDs = [''6015''], tr_Genres = [], tr_Keywords = []\<rparr>,
                 \<lparr>tr_Theme = ''Games'', tr_GenreIDs = [''6014''], tr_Genres = [], tr_Keywords = []\<rparr>],
     tc_RiskOn = [''Games''], tc_RiskOff = []\<rparr>"

definition exFs :: filesystem where
  "exFs = (\<lambda>path. if path = ''config/themes.json'' then Decoded exThemes else NotExist)"

definition exTzdb :: tzdatabase where
  "exTzdb = (\<lambda>name. if name = ''Asia/Seoul'' then Some (\<lambda>_. 32400) else None)"

section \<open>Properties of the classifier\<close>


lemma Contains_sublist: "Contains s sub = sublist sub s"
  by (induction s) (auto simp: sublist_Cons_right)

lemma containsAny_iff: "containsAny v cs = (\<exists>c\<in>set cs. c \<noteq> [] \<and> Contains v c)"
  by (induction cs) auto

lemma normalizeList_set: "set (normalizeList xs) = ((\<lambda>x. ToLower (TrimSpace x)) ` set xs) - {[]}"
  by (induction xs) (auto simp: Let_def)

lemma normalizeList_nonempty: "[] \<notin> set (normalizeList xs)"
  by (simp add: normalizeList_set)

lemma normalizeList_folded: "normalizeList xs = foldedStrings xs"
  by (induction xs) (simp_all add: foldedStrings_def Let_def)

lemma containsAny_normalized:
  "containsAny v (normalizeList xs) = (\<exists>c\<in>set (normalizeList xs). sublist c v)"
proof -
  have "\<And>c. c \<in> set (normalizeList xs) \<Longrightarrow> c \<noteq> []"
    using normalizeList_nonempty[of xs] by blast
  then show ?thesis
    unfolding containsAny_iff Contains_sublist by blast
qed

lemma idSet_fold: "fold (\<lambda>id m. m(TrimSpace id := True)) ids m x = (m x \<or> x \<in> TrimSpace ` set ids)"
  by (induction ids arbitrary: m) auto

lemma idSet_iff: "idSet ids x = (x \<in> TrimSpace ` set ids)"
  by (simp add: idSet_def idSet_fold)

lemma classifyRules_find:
  "classifyRules (map normalizeRule rules)
     (normalizeList (ti_Genres input @ (ti_ItunesGenres input @ [ti_PrimaryGenre input])))
     (map TrimSpace (ti_GenreIDs input)) (ToLower (ti_Name input)) =
   (case find (\<lambda>r. ruleMatches r input) rules of
      None \<Rightarrow> ''other''
    | Some r \<Rightarrow> ToLower (tr_Theme r))"
proof (induction rules)
  case Nil
  show ?case by simp
next
  case (Cons r rules)
  have ids: "list_ex (\<lambda>id. nr_genreIDs (normalizeRule r) id) (map TrimSpace (ti_GenreIDs input))
      = (\<exists>id \<in> set (ti_GenreIDs input). TrimSpace id \<in> TrimSpace ` set (tr_GenreIDs r))"
    by (simp add: list_ex_iff normalizeRule_def idSet_iff)
  have gs: "list_ex (\<lambda>genre. containsAny genre (nr_genres (normalizeRule r))) gl
      = (\<exists>genre \<in> set gl. \<exists>fragment \<in> set (normalizeList (tr_Genres r)). sublist fragment genre)" for gl
    by (simp add: list_ex_iff normalizeRule_def containsAny_normalized)
  have ks: "(nr_keywords (normalizeRule r) \<noteq> [] \<and> containsAny nm (nr_keywords (normalizeRule r)))
      = (\<exists>keyword \<in> set (normalizeList (tr_Keywords r)). sublist keyword nm)" for nm
    by (auto simp: normalizeRule_def containsAny_normalized)
  have th: "nr_theme (normalizeRule r) = ToLower (tr_Theme r)"
    by (simp add: normalizeRule_def)
  show ?case
  proof (cases "ruleMatches r input")
    case True
    then show ?thesis
      unfolding ruleMatches_def normalizeList_folded[symmetric] by (auto simp: ids gs ks th)
  next
    case False
    then have "classifyRules (map normalizeRule (r # rules))
       (normalizeList (ti_Genres input @ ti_ItunesGenres input @ [ti_PrimaryGenre input]))
       (map TrimSpace (ti_GenreIDs input)) (ToLower (ti_Name input))
      = classifyRules (map normalizeRule rules)
       (normalizeList (ti_Genres input @ ti_ItunesGenres input @ [ti_PrimaryGenre input]))
       (map TrimSpace (ti_GenreIDs input)) (ToLower (ti_Name input))"
      unfolding ruleMatches_def normalizeList_folded[symmetric] by (auto simp: ids gs ks)
    with False Cons.IH show ?thesis by simp
  qed
qed

text \<open>
  Claim C2. Classification is a function of the rule list and the item, and the first
  matching rule wins: \<open>Classify\<close> returns the theme of the earliest configured rule that
  matches the item by identifier, by genre fragment or by keyword, and \<open>''other''\<close> when no
  rule matches. The theme returned is the configured theme in lower case, as the
  classifier holds it. Within one rule the three checks lead to the same result, so their
  order does not show in it.
\<close>

theorem Classify_first_match:
  "Classify (NewThemeClassifier cfg) input =
     (case find (\<lambda>rule. ruleMatches rule input) (tc_Rules cfg) of
        None \<Rightarrow> ''other''
      | Some rule \<Rightarrow> ToLower (tr_Theme rule))"
  using classifyRules_find[of "tc_Rules cfg" input]
  by (simp add: Classify_def NewThemeClassifier_def)

text \<open>
  The first example item has the identifiers of the rules \<open>games\<close> and \<open>entertainment\<close> of
  the built-in configuration, and the earlier rule wins; the second is matched by the
  genre name \<open>music\<close> alone, the third by the keyword \<open>bank\<close> alone; an item that no rule
  matches is \<open>other\<close>.
\<close>

theorem Classify_first_match_witness:
  "ruleMatches (tc_Rules defaultThemeConfig ! 0) exInput \<and>
   ruleMatches (tc_Rules defaultThemeConfig ! 1) exInput \<and>
   Classify (NewThemeClassifier defaultThemeConfig) exInput = ''games'' \<and>
   Classify (NewThemeClassifier defaultThemeConfig) exGenreInput = ''entertainment'' \<and>
   Classify (NewThemeClassifier exKeywordThemes) exKeywordInput = ''money'' \<and>
   Classify (NewThemeClassifier exKeywordThemes) exGenreInput = ''other''"
proof -
  have m0: "ruleMatches (tc_Rules defaultThemeConfig ! 0) exInput" by code_simp
  have m1: "ruleMatches (tc_Rules defaultThemeConfig ! 1) exInput" by code_simp
  have f1: "(case find (\<lambda>rule. ruleMatches rule exInput) (tc_Rules defaultThemeConfig) of
        None \<Rightarrow> ''other'' | Some rule \<Rightarrow> ToLower (tr_Theme rule)) = ''games''"
    by code_simp
  have f2: "(case find (\<lambda>rule. ruleMatches rule exGenreInput) (tc_Rules defaultThemeConfig) of
        None \<Rightarrow> ''other'' | Some rule \<Rightarrow> ToLower (tr_Theme rule)) = ''entertainment''"
    by code_simp
  have f3: "(case find (\<lambda>rule. ruleMatches rule exKeywordInput) (tc_Rules exKeywordThemes) of
        None \<Rightarrow> ''other'' | Some rule \<Rightarrow> ToLower (tr_Theme rule)) = ''money''"
    by code_simp
  have f4: "(case find (\<lambda>rule. ruleMatches rule exGenreInput) (tc_Rules exKeywordThemes) of
        None \<Rightarrow> ''other'' | Some rule \<Rightarrow> ToLower (tr_Theme rule)) = ''other''"
    by code_simp
  have c1: "Classify (NewThemeClassifier defaultThemeConfig) exInput = ''games''"
    using Classify_first_match[of defaultThemeConfig exInput] unfolding f1 .
  have c2: "Classify (NewThemeClassifier defaultThemeConfig) exGenreInput = ''entertainment''"
    using Classify_first_match[of defaultThemeConfig exGenreInput] unfolding f2 .
  have c3: "Classify (NewThemeClassifier exKeywordThemes) exKeywordInput = ''money''"
    using Classify_first_match[of exKeywordThemes exKeywordInput] unfolding f3 .
  have c4: "Classify (NewThemeClassifier exKeywordThemes) exGenreInput = ''other''"
    using Classify_first_match[of exKeywordThemes exGenreInput] unfolding f4 .
  show ?thesis using m0 m1 c1 c2 c3 c4 by (intro conjI)
qed

section \<open>Loading the theme configuration\<close>

lemma defaultThemeConfig_rules: "length (tc_Rules defaultThemeConfig) = 10"
  by (simp add: defaultThemeConfig_def)

text \<open>
  Claim C8. \<open>LoadThemeConfig\<close> gives the built-in configuration, which has ten rules,
  when the file does not exist and when the file decodes to a configuration with no rule;
  a configuration it returns never has an empty rule list. A failure of the stat other
  than non-existence, a failure of the read and malformed JSON are returned as the error.
\<close>

theorem LoadThemeConfig_cases:
  "(fs path = NotExist \<longrightarrow> LoadThemeConfig fs path = Inr defaultThemeConfig) \<and>
   (\<forall>cfg. fs path = Decoded cfg \<and> tc_Rules cfg = [] \<longrightarrow>
      LoadThemeConfig fs path = Inr defaultThemeConfig) \<and>
   (\<forall>cfg. fs path = Decoded cfg \<and> tc_Rules cfg \<noteq> [] \<longrightarrow> LoadThemeConfig fs path = Inr cfg) \<and>
   (\<forall>err. fs path = StatFails err \<or> fs path = ReadFails err \<or> fs path = Malformed err \<longrightarrow>
      LoadThemeConfig fs path = Inl err) \<and>
   (\<forall>cfg. LoadThemeConfig fs path = Inr cfg \<longrightarrow>
      tc_Rules cfg \<noteq> [] \<and> cls_rules (NewThemeClassifier cfg) \<noteq> []) \<and>
   length (tc_Rules defaultThemeConfig) = 10"
proof -
  have nonempty: "tc_Rules defaultThemeConfig \<noteq> []"
    by (simp add: defaultThemeConfig_def)
  have a: "fs path = NotExist \<longrightarrow> LoadThemeConfig fs path = Inr defaultThemeConfig"
    by (simp add: LoadThemeConfig_def)
  have b: "\<forall>cfg. fs path = Decoded cfg \<and> tc_Rules cfg = [] \<longrightarrow>
      LoadThemeConfig fs path = Inr defaultThemeConfig"
    by (simp add: LoadThemeConfig_def)
  have c: "\<forall>cfg. fs path = Decoded cfg \<and> tc_Rules cfg \<noteq> [] \<longrightarrow> LoadThemeConfig fs path = Inr cfg"
    by (simp add: LoadThemeConfig_def)
  have d: "\<forall>err. fs path = StatFails err \<or> fs path = ReadFails err \<or> fs path = Malformed err \<longrightarrow>
      LoadThemeConfig fs path = Inl err"
    by (auto simp: LoadThemeConfig_def)
  have e: "tc_Rules cfg \<noteq> [] \<and> cls_rules (NewThemeClassifier cfg) \<noteq> []"
    if "LoadThemeConfig fs path = Inr cfg" for cfg
  proof -
    have "tc_Rules cfg \<noteq> []"
    proof (cases "fs path")
      case (Decoded c)
      with that nonempty show ?thesis
        by (cases "tc_Rules c = []") (auto simp: LoadThemeConfig_def)
    qed (use that nonempty in \<open>auto simp: LoadThemeConfig_def\<close>)
    then show ?thesis by (simp add: NewThemeClassifier_def)
  qed
  from e have e': "\<forall>cfg. LoadThemeConfig fs path = Inr cfg \<longrightarrow>
      tc_Rules cfg \<noteq> [] \<and> cls_rules (NewThemeClassifier cfg) \<noteq> []"
    by blast
  show ?thesis
    by (intro conjI) (rule a b c d e' defaultThemeConfig_rules)+
qed


text \<open>
  A file that exists and holds an empty rule array, and a file that cannot be read.
\<close>

theorem LoadThemeConfig_cases_witness:
  "LoadThemeConfig (\<lambda>_. Decoded \<lparr>tc_Rules = [], tc_RiskOn = [''games''], tc_RiskOff = []\<rparr>)
     ''config/themes.json'' = Inr defaultThemeConfig \<and>
   LoadThemeConfig (\<lambda>_. ReadFails (ErrFile ''permission denied'')) ''config/themes.json''
     = Inl (ErrFile ''permission denied'') \<and>
   length (tc_Rules defaultThemeConfig) = 10"
proof -
  let ?empty = "\<lparr>tc_Rules = [], tc_RiskOn = [''games''], tc_RiskOff = []\<rparr>"
  let ?fs1 = "(\<lambda>_. Decoded ?empty) :: filesystem"
  let ?fs2 = "(\<lambda>_. ReadFails (ErrFile ''permission denied'')) :: filesystem"
  have h1: "?fs1 ''config/themes.json'' = Decoded ?empty \<and> tc_Rules ?empty = []"
    by simp
  have h2: "?fs2 ''config/themes.json'' = ReadFails (ErrFile ''permission denied'')"
    by simp
  have 1: "LoadThemeConfig ?fs1 ''config/themes.json'' = Inr defaultThemeConfig"
    using LoadThemeConfig_cases[of ?fs1 "''config/themes.json''"] h1 by blast
  have 2: "LoadThemeConfig ?fs2 ''config/themes.json'' = Inl (ErrFile ''permission denied'')"
    using LoadThemeConfig_cases[of ?fs2 "''config/themes.json''"] h2 by blast
  have 3: "length (tc_Rules defaultThemeConfig) = 10"
    using LoadThemeConfig_cases[of ?fs1 "''config/themes.json''"] by blast
  show ?thesis using 1 2 3 by (intro conjI)
qed

section \<open>The order of floating-point values\<close>

lemma float_le_trans: "(a :: float64) \<le> b \<Longrightarrow> b \<le> c \<Longrightarrow> a \<le> c"
  by (cases a; cases b; cases c) (auto simp: less_eq_float64_def)

lemma float_le_refl: "a \<noteq> NaN \<Longrightarrow> (a :: float64) \<le> a"
  by (simp add: less_eq_float64_def)

lemma float_less_le: "(a :: float64) < b \<Longrightarrow> a \<le> b"
  by (simp add: less_eq_float64_def less_float64_def)

lemma float_not_less: "a \<noteq> NaN \<Longrightarrow> b \<noteq> NaN \<Longrightarrow> \<not> a < b \<Longrightarrow> (b :: float64) \<le> a"
  by (cases a; cases b) (auto simp: less_eq_float64_def less_float64_def)

lemma float_NaN_le: "\<not> (NaN \<le> (a :: float64))" "\<not> ((a :: float64) \<le> NaN)"
  by (cases a; simp add: less_eq_float64_def)+

section \<open>The exchange sort\<close>


lemma swap_length: "length (swap i j xs) = length xs"
  by (simp add: swap_def)

lemma swap_mset: "i < length xs \<Longrightarrow> j < length xs \<Longrightarrow> mset (swap i j xs) = mset xs"
  by (simp add: swap_def mset_swap)

lemma swap_nth:
  "i < length xs \<Longrightarrow> j < length xs \<Longrightarrow>
   swap i j xs ! m = (if m = j then xs ! i else if m = i then xs ! j else xs ! m)"
  by (simp add: swap_def nth_list_update)

lemma exchangeStep_length: "length (exchangeStep f i j xs) = length xs"
  by (simp add: exchangeStep_def swap_length)

lemma exchangeStep_mset:
  "i < length xs \<Longrightarrow> j < length xs \<Longrightarrow> mset (exchangeStep f i j xs) = mset xs"
  by (simp add: exchangeStep_def swap_mset)

lemma exchangeStep_other:
  "i < length xs \<Longrightarrow> j < length xs \<Longrightarrow> m \<noteq> i \<Longrightarrow> m \<noteq> j \<Longrightarrow> exchangeStep f i j xs ! m = xs ! m"
  by (simp add: exchangeStep_def swap_nth)

lemma exchangeStep_head:
  assumes "i < length xs" and "j < length xs" and "i \<noteq> j"
    and "f (xs ! i) \<noteq> NaN" and "f (xs ! j) \<noteq> NaN"
  shows "f (xs ! i) \<le> f (exchangeStep f i j xs ! i) \<and>
         f (exchangeStep f i j xs ! j) \<le> f (exchangeStep f i j xs ! i)"
proof (cases "f (xs ! i) < f (xs ! j)")
  case True
  then have "exchangeStep f i j xs = swap i j xs" by (simp add: exchangeStep_def)
  then show ?thesis
    using assms(1-3) float_less_le[OF True] by (simp add: swap_nth)
next
  case False
  then have "exchangeStep f i j xs = xs" by (simp add: exchangeStep_def)
  then show ?thesis
    using float_not_less[OF assms(4) assms(5) False] float_le_refl[OF assms(4)] by simp
qed

lemma pass_perm:
  "i < length out \<Longrightarrow> k \<le> length out \<Longrightarrow>
   length (pass f i k out) = length out \<and>
   mset (pass f i k out) = mset out \<and>
   (\<forall>m. m \<noteq> i \<and> (m < i \<or> k \<le> m) \<longrightarrow> pass f i k out ! m = out ! m)"
proof (induction k)
  case 0
  then show ?case by (simp add: pass_def)
next
  case (Suc k)
  show ?case
  proof (cases "i < k")
    case False
    then have "pass f i (Suc k) out = out" by (simp add: pass_def)
    then show ?thesis by simp
  next
    case True
    define r where "r = pass f i k out"
    have step: "pass f i (Suc k) out = exchangeStep f i k r"
      using True by (simp add: pass_def r_def)
    from Suc have IH:
      "length r = length out" "mset r = mset out"
      "\<And>m. m \<noteq> i \<Longrightarrow> m < i \<or> k \<le> m \<Longrightarrow> r ! m = out ! m"
      by (simp_all add: r_def)
    have ir: "i < length r" and kr: "k < length r"
      using Suc.prems IH(1) by simp_all
    have a: "length (exchangeStep f i k r) = length out"
      by (simp add: exchangeStep_length IH(1))
    have b: "mset (exchangeStep f i k r) = mset out"
      using exchangeStep_mset[OF ir kr] IH(2) by simp
    have c: "exchangeStep f i k r ! m = out ! m" if "m \<noteq> i" "m < i \<or> Suc k \<le> m" for m
    proof -
      have "m \<noteq> k" using that True by auto
      then have "exchangeStep f i k r ! m = r ! m"
        using exchangeStep_other[OF ir kr] that(1) by simp
      also have "r ! m = out ! m" using IH(3)[of m] that by auto
      finally show ?thesis .
    qed
    show ?thesis unfolding step using a b c by blast
  qed
qed

lemma pass_max:
  assumes "i < length out" and "k \<le> length out" and "\<forall>x \<in> set out. f x \<noteq> NaN"
  shows "\<forall>m. i < m \<and> m < k \<longrightarrow> f (pass f i k out ! m) \<le> f (pass f i k out ! i)"
  using assms(2)
proof (induction k)
  case 0
  then show ?case by simp
next
  case (Suc k)
  show ?case
  proof (cases "i < k")
    case False
    then show ?thesis by auto
  next
    case True
    define r where "r = pass f i k out"
    have step: "pass f i (Suc k) out = exchangeStep f i k r"
      using True by (simp add: pass_def r_def)
    have kl: "k \<le> length out" using Suc.prems by simp
    have perm: "length r = length out" "mset r = mset out"
      using pass_perm[OF assms(1) kl, of f] by (simp_all add: r_def)
    have IH: "\<And>m. i < m \<Longrightarrow> m < k \<Longrightarrow> f (r ! m) \<le> f (r ! i)"
      using Suc.IH[OF kl] by (simp add: r_def)
    have ir: "i < length r" and kr: "k < length r"
      using Suc.prems assms(1) perm(1) by simp_all
    have ne: "i \<noteq> k" using True by simp
    have "set r = set out" using perm(2) by (metis set_mset_mset)
    then have nn: "f (r ! i) \<noteq> NaN" "f (r ! k) \<noteq> NaN"
      using assms(3) ir kr by (metis nth_mem)+
    note head = exchangeStep_head[OF ir kr ne nn]
    have "f (exchangeStep f i k r ! m) \<le> f (exchangeStep f i k r ! i)" if "i < m" "m < Suc k" for m
    proof (cases "m = k")
      case True
      then show ?thesis using head by simp
    next
      case False
      then have mk: "m < k" using that by simp
      have "exchangeStep f i k r ! m = r ! m"
        using exchangeStep_other[OF ir kr] that(1) False by simp
      moreover have "f (r ! m) \<le> f (exchangeStep f i k r ! i)"
        using float_le_trans[OF IH[OF that(1) mk]] head by blast
      ultimately show ?thesis by simp
    qed
    then show ?thesis unfolding step by blast
  qed
qed

lemma exchangeInner_pass: "exchangeInner f i out = pass f i (length out) out"
  by (simp add: exchangeInner_def pass_def)

lemma exchangeInner_length: "length (exchangeInner f i out) = length out"
proof (cases "i < length out")
  case True
  then show ?thesis using pass_perm[of i out "length out" f] by (simp add: exchangeInner_pass)
next
  case False
  then show ?thesis by (simp add: exchangeInner_def)
qed

lemma exchangeInner_mset: "mset (exchangeInner f i out) = mset out"
proof (cases "i < length out")
  case True
  then show ?thesis using pass_perm[of i out "length out" f] by (simp add: exchangeInner_pass)
next
  case False
  then show ?thesis by (simp add: exchangeInner_def)
qed

lemma exchangeInner_take: "take i (exchangeInner f i out) = take i out"
proof (cases "i < length out")
  case True
  have "\<And>m. m < i \<Longrightarrow> exchangeInner f i out ! m = out ! m"
    using pass_perm[OF True, of "length out" f] by (simp add: exchangeInner_pass)
  then show ?thesis
    by (intro nth_take_lemma) (use True in \<open>simp_all add: exchangeInner_length\<close>)
next
  case False
  then show ?thesis by (simp add: exchangeInner_def)
qed

lemma exchangeInner_max:
  assumes "i < m" and "m < length out" and "\<forall>x \<in> set out. f x \<noteq> NaN"
  shows "f (exchangeInner f i out ! m) \<le> f (exchangeInner f i out ! i)"
proof -
  have "i < length out" using assms(1) assms(2) by simp
  from pass_max[OF this le_refl assms(3)] show ?thesis
    using assms(1) assms(2) by (simp add: exchangeInner_pass)
qed

lemma exchangeInner_drop: "mset (drop i (exchangeInner f i out)) = mset (drop i out)"
proof -
  have "mset (take i (exchangeInner f i out)) + mset (drop i (exchangeInner f i out))
        = mset (take i out) + mset (drop i out)"
    by (simp add: exchangeInner_mset flip: mset_append)
  then show ?thesis by (simp add: exchangeInner_take)
qed


lemma in_set_drop_nth: "y \<in> set (drop n xs) \<Longrightarrow> \<exists>m. n \<le> m \<and> m < length xs \<and> y = xs ! m"
proof -
  assume "y \<in> set (drop n xs)"
  then obtain i where i: "i < length (drop n xs)" "drop n xs ! i = y"
    by (auto simp: in_set_conv_nth)
  then have "n + i < length xs" "y = xs ! (n + i)" by auto
  then show ?thesis by (intro exI[of _ "n + i"]) simp
qed

lemma exchangeSort_perm:
  "length (fold (exchangeInner f) ks xs) = length xs \<and> mset (fold (exchangeInner f) ks xs) = mset xs"
  by (induction ks arbitrary: xs) (simp_all add: exchangeInner_length exchangeInner_mset)

lemma exchangeSort_inv:
  assumes "\<forall>x \<in> set xs. f x \<noteq> NaN"
  shows "k \<le> length xs \<Longrightarrow>
   sorted_wrt (\<lambda>a b. f b \<le> f a) (take k (fold (exchangeInner f) [0 ..< k] xs)) \<and>
   (\<forall>x \<in> set (take k (fold (exchangeInner f) [0 ..< k] xs)).
      \<forall>y \<in> set (drop k (fold (exchangeInner f) [0 ..< k] xs)). f y \<le> f x)"
proof (induction k)
  case 0
  then show ?case by simp
next
  case (Suc k)
  define r where "r = fold (exchangeInner f) [0 ..< k] xs"
  define r' where "r' = exchangeInner f k r"
  have step: "fold (exchangeInner f) [0 ..< Suc k] xs = r'"
    by (simp add: r_def r'_def)
  have perm: "length r = length xs" "mset r = mset xs"
    using exchangeSort_perm[of f "[0 ..< k]" xs] by (simp_all add: r_def)
  from Suc have IH:
    "sorted_wrt (\<lambda>a b. f b \<le> f a) (take k r)"
    "\<And>x y. x \<in> set (take k r) \<Longrightarrow> y \<in> set (drop k r) \<Longrightarrow> f y \<le> f x"
    by (simp_all add: r_def)
  have "set r = set xs" using perm(2) by (metis set_mset_mset)
  then have nn: "\<forall>x \<in> set r. f x \<noteq> NaN" using assms by simp
  have len: "length r' = length xs" by (simp add: r'_def exchangeInner_length perm(1))
  have kr: "k < length r'" using Suc.prems len by simp
  have tk: "take k r' = take k r" by (simp add: r'_def exchangeInner_take)
  have dr: "set (drop k r') = set (drop k r)"
    using exchangeInner_drop[of k f r] by (metis r'_def set_mset_mset)
  have tS: "take (Suc k) r' = take k r @ [r' ! k]"
    using kr by (simp add: take_Suc_conv_app_nth tk)
  have hd_in: "r' ! k \<in> set (drop k r)"
    using kr dr by (metis Cons_nth_drop_Suc list.set_intros(1))
  have srt: "sorted_wrt (\<lambda>a b. f b \<le> f a) (take (Suc k) r')"
    unfolding tS using IH(1) IH(2)[OF _ hd_in] by (simp add: sorted_wrt_append)
  have bound: "f y \<le> f x" if x: "x \<in> set (take (Suc k) r')" and y: "y \<in> set (drop (Suc k) r')" for x y
  proof -
    from in_set_drop_nth[OF y] obtain m where m: "Suc k \<le> m" "m < length r'" "y = r' ! m"
      by blast
    have yk: "y \<in> set (drop k r)"
      using y dr set_drop_subset_set_drop[of k "Suc k" r'] by auto
    from x have "x \<in> set (take k r) \<or> x = r' ! k" unfolding tS by auto
    then show ?thesis
    proof
      assume "x \<in> set (take k r)"
      then show ?thesis using IH(2) yk by blast
    next
      assume xk: "x = r' ! k"
      have km: "k < m" using m(1) by simp
      have "m < length r" using m(2) len perm(1) by simp
      from exchangeInner_max[OF km this nn]
      show ?thesis using xk m(3) by (simp add: r'_def)
    qed
  qed
  show ?case unfolding step using srt bound by blast
qed

lemma exchangeSort_mset: "mset (exchangeSort f xs) = mset xs"
  using exchangeSort_perm[of f "[0 ..< length xs]" xs] by (simp add: exchangeSort_def)

lemma exchangeSort_sorted:
  assumes "\<forall>x \<in> set xs. f x \<noteq> NaN"
  shows "sorted_wrt (\<lambda>a b. f b \<le> f a) (exchangeSort f xs)"
proof -
  let ?r = "fold (exchangeInner f) [0 ..< length xs] xs"
  have l: "length ?r = length xs"
    using exchangeSort_perm[of f "[0 ..< length xs]" xs] by blast
  have s: "sorted_wrt (\<lambda>a b. f b \<le> f a) (take (length xs) ?r)"
    using exchangeSort_inv[OF assms, of "length xs", OF le_refl] by blast
  have "take (length ?r) ?r = ?r" by simp
  with s show ?thesis unfolding exchangeSort_def l by simp
qed

section \<open>Properties of the trend analysis\<close>

lemma AnalyzeTrends_trends:
  "res_Trends (AnalyzeTrends latest previous latestItems previousItems cfg themes) =
   sortTrends (scoredTrends latest latestItems previousItems cfg themes)"
  by (simp add: AnalyzeTrends_def Let_def)

lemma scoreTrend_fields:
  "at_AppID (scoreTrend cfg rs vs t) = at_AppID t"
  "at_Rank (scoreTrend cfg rs vs t) = at_Rank t"
  "at_RankDelta (scoreTrend cfg rs vs t) = at_RankDelta t"
  "at_RatingDelta (scoreTrend cfg rs vs t) = at_RatingDelta t"
  "at_NewEntry (scoreTrend cfg rs vs t) = at_NewEntry t"
  "at_Theme (scoreTrend cfg rs vs t) = at_Theme t"
  by (simp_all add: scoreTrend_def Let_def)

lemma buildTrend_fields:
  "at_AppID (buildTrend latest prevMap cls item) = ci_AppID item"
  "at_Rank (buildTrend latest prevMap cls item) = ci_Rank item"
  by (simp_all add: buildTrend_def Let_def split: prod.splits)

lemma scoredTrends_ids:
  "map at_AppID (scoredTrends latest latestItems previousItems cfg themes) = map ci_AppID latestItems"
  by (simp add: scoredTrends_def builtTrends_def Let_def scoreTrend_fields buildTrend_fields comp_def)

lemma scoredTrends_length:
  "length (scoredTrends latest latestItems previousItems cfg themes) = length latestItems"
  by (simp add: scoredTrends_def builtTrends_def Let_def)

lemma sortTrends_mset: "mset (sortTrends trends) = mset trends"
  by (simp add: sortTrends_def exchangeSort_mset)

lemma sortTrends_set: "set (sortTrends trends) = set trends"
  using sortTrends_mset[of trends] by (metis set_mset_mset)

lemma sortTrends_length: "length (sortTrends trends) = length trends"
  using sortTrends_mset[of trends] by (metis size_mset)

text \<open>The exchange sort is not stable: two equal scores can come out in reversed order.\<close>

lemma exchangeSort_reverses_ties:
  "map fst (exchangeSort snd [(1 :: nat, Finite 1), (2, Finite 1), (3, Finite 2)]) = [3, 2, 1]"
  by code_simp

lemma itemMap_fold_other:
  "k \<notin> ci_AppID ` set items \<Longrightarrow> fold (\<lambda>item m. m(ci_AppID item \<mapsto> item)) items m k = m k"
  by (induction items arbitrary: m) auto

lemma itemMap_absent:
  "k \<notin> ci_AppID ` set items \<Longrightarrow> itemMap items k = None"
  by (simp add: itemMap_def itemMap_fold_other)

lemma itemMap_fold_distinct:
  "distinct (map ci_AppID items) \<Longrightarrow> item \<in> set items \<Longrightarrow>
   fold (\<lambda>item m. m(ci_AppID item \<mapsto> item)) items m (ci_AppID item) = Some item"
proof (induction items arbitrary: m)
  case Nil
  then show ?case by simp
next
  case (Cons a items)
  show ?case
  proof (cases "item = a")
    case True
    have "ci_AppID a \<notin> ci_AppID ` set items" using Cons.prems(1) by simp
    from itemMap_fold_other[OF this, of "m(ci_AppID a \<mapsto> a)"]
    have h: "fold (\<lambda>item m. m(ci_AppID item \<mapsto> item)) items (m(ci_AppID a \<mapsto> a)) (ci_AppID a) = Some a"
      by (simp only: fun_upd_same)
    show ?thesis unfolding True by (simp only: fold_simps) (rule h)
  next
    case False
    then have "item \<in> set items" using Cons.prems(2) by simp
    moreover have "distinct (map ci_AppID items)" using Cons.prems(1) by simp
    ultimately show ?thesis using Cons.IH by simp
  qed
qed

lemma itemMap_distinct:
  "distinct (map ci_AppID items) \<Longrightarrow> item \<in> set items \<Longrightarrow> itemMap items (ci_AppID item) = Some item"
  by (simp add: itemMap_def itemMap_fold_distinct)

lemma float_zero_simps:
  "(0 :: float64) - 0 = 0" "(0 :: float64) * 0 = 0" "fsqrt 0 = 0"
  by (simp_all add: zero_float64_def minus_float64_def times_float64_def)

lemma float_zero_div: "n \<noteq> 0 \<Longrightarrow> 0 / floatOfNat n = 0"
  by (simp add: zero_float64_def divide_float64_def floatOfNat_def)

lemma float_finite_times_zero: "isFinite w \<Longrightarrow> w * 0 = 0"
  by (cases w) (simp_all add: zero_float64_def times_float64_def)

lemma fold_add_zeros:
  "\<forall>v \<in> set vs. v = (0 :: float64) \<Longrightarrow> fold (\<lambda>v s. s + v) vs s0 = s0"
  by (induction vs arbitrary: s0) auto

lemma fold_squares_zero:
  "\<forall>v \<in> set vs. v = (0 :: float64) \<Longrightarrow> fold (\<lambda>v acc. acc + (v - 0) * (v - 0)) vs s0 = s0"
  by (induction vs arbitrary: s0) (auto simp: float_zero_simps)

lemma meanStd_zeros:
  assumes "\<forall>v \<in> set vs. v = 0"
  shows "meanStd vs = (0, 0)"
proof (cases "length vs = 0")
  case True
  then show ?thesis by (simp add: meanStd_def)
next
  case False
  have s: "fold (\<lambda>v s. s + v) vs 0 = 0"
    using assms by (rule fold_add_zeros)
  have q: "fold (\<lambda>v acc. acc + (v - 0) * (v - 0)) vs 0 = 0"
    using assms by (rule fold_squares_zero)
  have d: "0 / floatOfNat (length vs) = 0"
    using False by (rule float_zero_div)
  show ?thesis
    unfolding meanStd_def Let_def s d q using False by (simp add: float_zero_simps)
qed

lemma buildTrend_same:
  assumes "prevMap (ci_AppID item) = Some item"
  shows "at_RankDelta (buildTrend latest prevMap cls item) = 0"
    and "at_RatingDelta (buildTrend latest prevMap cls item) = 0"
    and "\<not> at_NewEntry (buildTrend latest prevMap cls item)"
  using assms by (simp_all add: buildTrend_def computeRatingDelta_def Let_def)

lemma buildTrend_new:
  assumes "prevMap (ci_AppID item) = None"
  shows "at_RankDelta (buildTrend latest prevMap cls item) = snap_Limit latest + 1 - ci_Rank item"
    and "at_NewEntry (buildTrend latest prevMap cls item)"
  using assms by (simp_all add: buildTrend_def Let_def)

lemma scoreTrend_score:
  "at_TrendScore (scoreTrend cfg rs vs t) =
     cfg_RankWeight cfg * zscore (float64 (at_RankDelta t)) (fst rs) (snd rs) +
     cfg_ReviewWeight cfg * zscore (float64 (at_RatingDelta t)) (fst vs) (snd vs) +
     (if at_NewEntry t then cfg_NewEntryBonus cfg else 0)"
  by (simp add: scoreTrend_def Let_def)

lemma float64_zero: "float64 0 = 0"
  by (simp add: float64_def zero_float64_def)

section \<open>Finite and undefined scores\<close>

lemma isFinite_iff: "isFinite x \<longleftrightarrow> (\<exists>a. x = Finite a)"
  by (cases x) simp_all

lemma isFinite_not_NaN: "isFinite x \<Longrightarrow> x \<noteq> NaN"
  by (cases x) simp_all

lemma isFinite_zero: "isFinite 0"
  by (simp add: zero_float64_def)

lemma isFinite_plus: "isFinite a \<Longrightarrow> isFinite b \<Longrightarrow> isFinite (a + b)"
  by (cases a; cases b) (simp_all add: plus_float64_def)

lemma isFinite_minus: "isFinite a \<Longrightarrow> isFinite b \<Longrightarrow> isFinite (a - b)"
  by (cases a; cases b) (simp_all add: minus_float64_def)

lemma isFinite_times: "isFinite a \<Longrightarrow> isFinite b \<Longrightarrow> isFinite (a * b)"
  by (cases a; cases b) (simp_all add: times_float64_def)

lemma isFinite_divide: "isFinite a \<Longrightarrow> isFinite b \<Longrightarrow> b \<noteq> 0 \<Longrightarrow> isFinite (a / b)"
  by (cases a; cases b) (simp_all add: divide_float64_def zero_float64_def)

lemma isFinite_floatOfNat: "isFinite (floatOfNat n)"
  by (simp add: floatOfNat_def)

lemma floatOfNat_nonzero: "n \<noteq> 0 \<Longrightarrow> floatOfNat n \<noteq> 0"
  by (simp add: floatOfNat_def zero_float64_def)

lemma isFinite_float64: "isFinite (float64 n)"
  by (simp add: float64_def)

lemma fold_add_finite:
  "\<forall>v \<in> set vs. isFinite v \<Longrightarrow> isFinite s0 \<Longrightarrow> isFinite (fold (\<lambda>v s. s + v) vs s0)"
  by (induction vs arbitrary: s0) (simp_all add: isFinite_plus)

text \<open>A sum of squares of finite values is finite and not negative.\<close>

lemma square_nonneg:
  assumes "isFinite v" and "isFinite m" and "s0 = Finite a" and "0 \<le> a"
  shows "\<exists>b. s0 + (v - m) * (v - m) = Finite b \<and> 0 \<le> b"
proof -
  from assms(1) obtain x where x: "v = Finite x" by (auto simp: isFinite_iff)
  from assms(2) obtain y where y: "m = Finite y" by (auto simp: isFinite_iff)
  have "s0 + (v - m) * (v - m) = Finite (a + (x - y) * (x - y))"
    by (simp add: x y assms(3) plus_float64_def minus_float64_def times_float64_def)
  moreover have "0 \<le> a + (x - y) * (x - y)" using assms(4) by simp
  ultimately show ?thesis by blast
qed

lemma fold_squares_nonneg:
  "\<forall>v \<in> set vs. isFinite v \<Longrightarrow> isFinite m \<Longrightarrow> s0 = Finite a \<Longrightarrow> 0 \<le> a \<Longrightarrow>
   \<exists>b. fold (\<lambda>v acc. acc + (v - m) * (v - m)) vs s0 = Finite b \<and> 0 \<le> b"
proof (induction vs arbitrary: s0 a)
  case Nil
  then show ?case by simp
next
  case (Cons v vs)
  have fv: "isFinite v" and fvs: "\<forall>v \<in> set vs. isFinite v"
    using Cons.prems(1) by simp_all
  from square_nonneg[OF fv Cons.prems(2) Cons.prems(3) Cons.prems(4)]
  obtain b where b: "s0 + (v - m) * (v - m) = Finite b" "0 \<le> b" by blast
  from Cons.IH[OF fvs Cons.prems(2) b(1) b(2)] show ?case by simp
qed

lemma fsqrt_mean_finite:
  assumes "x = Finite b" and "0 \<le> b" and "n \<noteq> 0"
  shows "isFinite (fsqrt (x / floatOfNat n))"
proof -
  have "x / floatOfNat n = Finite (b / real n)"
    using assms(3) by (simp add: assms(1) divide_float64_def floatOfNat_def)
  moreover have "0 \<le> b / real n" using assms(2) by simp
  ultimately show ?thesis by simp
qed

lemma meanStd_finite:
  assumes "\<forall>v \<in> set vs. isFinite v"
  shows "isFinite (fst (meanStd vs)) \<and> isFinite (snd (meanStd vs))"
proof (cases "length vs = 0")
  case True
  then show ?thesis by (simp add: meanStd_def isFinite_zero)
next
  case False
  define mean where "mean = fold (\<lambda>v s. s + v) vs 0 / floatOfNat (length vs)"
  have m: "isFinite mean"
    unfolding mean_def
    using False fold_add_finite[OF assms isFinite_zero]
    by (intro isFinite_divide isFinite_floatOfNat floatOfNat_nonzero)
  from fold_squares_nonneg[OF assms m, of 0 0]
  obtain b where b: "fold (\<lambda>v acc. acc + (v - mean) * (v - mean)) vs 0 = Finite b" "0 \<le> b"
    by (auto simp: zero_float64_def)
  have s: "isFinite (fsqrt (fold (\<lambda>v acc. acc + (v - mean) * (v - mean)) vs 0 / floatOfNat (length vs)))"
    using b(1) b(2) False by (rule fsqrt_mean_finite)
  have "meanStd vs = (mean, fsqrt (fold (\<lambda>v acc. acc + (v - mean) * (v - mean)) vs 0 / floatOfNat (length vs)))"
    using False by (simp add: meanStd_def Let_def mean_def)
  then show ?thesis using m s by simp
qed

lemma zscore_finite:
  "isFinite v \<Longrightarrow> isFinite m \<Longrightarrow> isFinite s \<Longrightarrow> isFinite (zscore v m s)"
  by (simp add: zscore_def isFinite_zero isFinite_divide isFinite_minus)

lemma scoreTrend_finite:
  assumes "isFinite (cfg_RankWeight cfg)" and "isFinite (cfg_ReviewWeight cfg)"
    and "isFinite (cfg_NewEntryBonus cfg)"
    and "isFinite (fst rs)" and "isFinite (snd rs)" and "isFinite (fst vs)" and "isFinite (snd vs)"
  shows "isFinite (at_TrendScore (scoreTrend cfg rs vs t))"
proof -
  have z1: "isFinite (zscore (float64 (at_RankDelta t)) (fst rs) (snd rs))"
    using assms(4) assms(5) by (intro zscore_finite isFinite_float64)
  have z2: "isFinite (zscore (float64 (at_RatingDelta t)) (fst vs) (snd vs))"
    using assms(6) assms(7) by (intro zscore_finite isFinite_float64)
  have "isFinite (cfg_RankWeight cfg * zscore (float64 (at_RankDelta t)) (fst rs) (snd rs) +
      cfg_ReviewWeight cfg * zscore (float64 (at_RatingDelta t)) (fst vs) (snd vs))"
    using assms(1) assms(2) z1 z2 by (intro isFinite_plus isFinite_times)
  then show ?thesis
    using assms(3) by (simp add: scoreTrend_score isFinite_plus isFinite_zero)
qed

text \<open>
  With finite weights and a finite bonus every score is finite, in this arithmetic
  without overflow; in particular none is NaN.
\<close>

lemma scoredTrends_finite:
  assumes "isFinite (cfg_RankWeight cfg)" and "isFinite (cfg_ReviewWeight cfg)"
    and "isFinite (cfg_NewEntryBonus cfg)"
  shows "\<forall>t \<in> set (scoredTrends latest latestItems previousItems cfg themes).
           isFinite (at_TrendScore t)"
proof -
  let ?built = "builtTrends latest latestItems previousItems themes"
  have r: "isFinite (fst (meanStd (rankDeltas ?built))) \<and> isFinite (snd (meanStd (rankDeltas ?built)))"
    by (rule meanStd_finite) (simp add: rankDeltas_def isFinite_float64)
  have v: "isFinite (fst (meanStd (reviewDeltas ?built))) \<and> isFinite (snd (meanStd (reviewDeltas ?built)))"
    by (rule meanStd_finite) (simp add: reviewDeltas_def isFinite_float64)
  have "isFinite (at_TrendScore (scoreTrend cfg (meanStd (rankDeltas ?built))
      (meanStd (reviewDeltas ?built)) b))" for b
    using assms r v by (intro scoreTrend_finite) simp_all
  then show ?thesis by (simp add: scoredTrends_def Let_def)
qed

text \<open>
  An infinite rank weight multiplied by the z-score 0 of a constant series of rank deltas
  is NaN, and so is every sum it enters.
\<close>

lemma float_NaN_plus: "NaN + x = NaN" "x + NaN = NaN"
  by (cases x; simp add: plus_float64_def)+

lemma scoreTrend_undefined:
  assumes "cfg_RankWeight cfg = PosInf" and "snd rs = 0"
  shows "at_TrendScore (scoreTrend cfg rs vs t) = NaN"
proof -
  have "cfg_RankWeight cfg * zscore (float64 (at_RankDelta t)) (fst rs) (snd rs) = NaN"
    by (simp add: assms zscore_def times_float64_def zero_float64_def)
  then show ?thesis by (simp add: scoreTrend_score float_NaN_plus)
qed

lemma constant_scores:
  "length xs = 2 \<Longrightarrow> \<forall>x \<in> set xs. f x = c \<Longrightarrow> map f xs = [c, c]"
  by (cases xs; cases "tl xs") auto

lemma meanStd_constant_pair: "meanStd [Finite a, Finite a] = (Finite a, 0)"
  by (simp add: meanStd_def Let_def plus_float64_def minus_float64_def times_float64_def
      divide_float64_def zero_float64_def floatOfNat_def)

lemma buildTrend_known:
  assumes "prevMap (ci_AppID item) = Some p"
  shows "at_RankDelta (buildTrend latest prevMap cls item) = ci_Rank p - ci_Rank item"
    and "\<not> at_NewEntry (buildTrend latest prevMap cls item)"
  using assms by (simp_all add: buildTrend_def Let_def)

lemma buildTrend_known_rating:
  assumes "prevMap (ci_AppID item) = Some p"
  shows "at_RatingDelta (buildTrend latest prevMap cls item) = computeRatingDelta item p True"
  using assms by (simp add: buildTrend_def Let_def)

lemma buildTrend_new_rating:
  assumes "prevMap (ci_AppID item) = None"
  shows "at_RatingDelta (buildTrend latest prevMap cls item) = computeRatingDelta item zeroChartItem False"
  using assms by (simp add: buildTrend_def Let_def)

section \<open>Order of the trend list\<close>

lemma exDay2_rankDeltas:
  "rankDeltas (builtTrends exDay2 exItems2 exItems1 themes) = [Finite 1, Finite 1]"
proof -
  let ?b1 = "exItem 1 2 ''B'' [''6015''] 50"
  let ?b = "exItem 2 1 ''B'' [''6015''] 80"
  let ?c = "exItem 2 2 ''C'' [''6014'', ''6016''] 10"
  have "itemMap exItems1 (ci_AppID ?b1) = Some ?b1"
    by (rule itemMap_distinct) (simp_all add: exItems1_def exItem_def)
  then have pb: "itemMap exItems1 (ci_AppID ?b) = Some ?b1"
    by (simp add: exItem_def)
  have pc: "itemMap exItems1 (ci_AppID ?c) = None"
    by (rule itemMap_absent) (simp add: exItems1_def exItem_def)
  have rb: "at_RankDelta (buildTrend exDay2 (itemMap exItems1) cls ?b) = 1" for cls
    using buildTrend_known(1)[where prevMap = "itemMap exItems1" and item = ?b
        and latest = exDay2 and cls = cls, OF pb]
    by (simp add: exItem_def)
  have rc: "at_RankDelta (buildTrend exDay2 (itemMap exItems1) cls ?c) = 1" for cls
    using buildTrend_new(1)[where prevMap = "itemMap exItems1" and item = ?c
        and latest = exDay2 and cls = cls, OF pc]
    by (simp add: exItem_def exDay2_def exSnapshot_def)
  show ?thesis
    by (simp add: rankDeltas_def builtTrends_def exItems2_def rb rc float64_def)
qed

lemma exCfgInf_scores:
  "map at_TrendScore (res_Trends (AnalyzeTrends exDay2 exDay1 exItems2 exItems1 exCfgInf themes)) =
   [NaN, NaN]"
proof -
  let ?scored = "scoredTrends exDay2 exItems2 exItems1 exCfgInf themes"
  have w: "cfg_RankWeight exCfgInf = PosInf" by (simp add: exCfgInf_def)
  have s: "snd (meanStd (rankDeltas (builtTrends exDay2 exItems2 exItems1 themes))) = 0"
    by (simp add: exDay2_rankDeltas meanStd_constant_pair)
  have "\<forall>t \<in> set ?scored. at_TrendScore t = NaN"
    using scoreTrend_undefined[OF w s] by (simp add: scoredTrends_def Let_def)
  then have a: "\<forall>t \<in> set (sortTrends ?scored). at_TrendScore t = NaN"
    by (simp add: sortTrends_set)
  have l: "length (sortTrends ?scored) = 2"
    by (simp add: sortTrends_length scoredTrends_length exItems2_def)
  show ?thesis
    unfolding AnalyzeTrends_trends using l a by (rule constant_scores)
qed

lemma exchangeSort_pair:
  "exchangeSort f [x, y] = (if f x < f y then [y, x] else [x, y])"
  by (simp add: exchangeSort_def exchangeInner_def exchangeStep_def swap_def)

lemma meanStd_example: "meanStd [Finite 30, Finite 10] = (Finite 20, Finite 10)"
proof -
  have "sqrt 100 = (10 :: real)" by (rule real_sqrt_unique) simp_all
  then show ?thesis
    by (simp add: meanStd_def Let_def plus_float64_def minus_float64_def times_float64_def
      divide_float64_def zero_float64_def floatOfNat_def)
qed

lemma exCfg_scores:
  "map at_TrendScore (res_Trends (AnalyzeTrends exDay2 exDay1 exItems2 exItems1 exCfg themes)) =
   [Finite 1, Finite (- (1 / 2))]"
proof -
  let ?b1 = "exItem 1 2 ''B'' [''6015''] 50"
  let ?b = "exItem 2 1 ''B'' [''6015''] 80"
  let ?c = "exItem 2 2 ''C'' [''6014'', ''6016''] 10"
  let ?cls = "NewThemeClassifier themes"
  let ?tb = "buildTrend exDay2 (itemMap exItems1) ?cls ?b"
  let ?tc = "buildTrend exDay2 (itemMap exItems1) ?cls ?c"
  let ?built = "builtTrends exDay2 exItems2 exItems1 themes"
  have "itemMap exItems1 (ci_AppID ?b1) = Some ?b1"
    by (rule itemMap_distinct) (simp_all add: exItems1_def exItem_def)
  then have pb: "itemMap exItems1 (ci_AppID ?b) = Some ?b1"
    by (simp add: exItem_def)
  have pc: "itemMap exItems1 (ci_AppID ?c) = None"
    by (rule itemMap_absent) (simp add: exItems1_def exItem_def)
  have vb: "at_RatingDelta ?tb = 30" "\<not> at_NewEntry ?tb"
    using buildTrend_known_rating[where prevMap = "itemMap exItems1" and item = ?b
        and latest = exDay2 and cls = ?cls, OF pb]
      buildTrend_known(2)[where prevMap = "itemMap exItems1" and item = ?b
        and latest = exDay2 and cls = ?cls, OF pb]
    by (simp_all add: exItem_def computeRatingDelta_def)
  have vc: "at_RatingDelta ?tc = 10" "at_NewEntry ?tc"
    using buildTrend_new_rating[where prevMap = "itemMap exItems1" and item = ?c
        and latest = exDay2 and cls = ?cls, OF pc]
      buildTrend_new(2)[where prevMap = "itemMap exItems1" and item = ?c
        and latest = exDay2 and cls = ?cls, OF pc]
    by (simp_all add: exItem_def computeRatingDelta_def)
  have built: "?built = [?tb, ?tc]"
    by (simp add: builtTrends_def exItems2_def)
  have rs: "meanStd (rankDeltas ?built) = (Finite 1, 0)"
    by (simp add: exDay2_rankDeltas meanStd_constant_pair)
  have "reviewDeltas ?built = [Finite 30, Finite 10]"
    unfolding built by (simp add: reviewDeltas_def vb vc float64_def)
  then have vs: "meanStd (reviewDeltas ?built) = (Finite 20, Finite 10)"
    by (simp add: meanStd_example)
  have sb: "at_TrendScore (scoreTrend exCfg (Finite 1, 0) (Finite 20, Finite 10) ?tb) = Finite 1"
    by (simp add: scoreTrend_score vb zscore_def float64_def exCfg_def plus_float64_def
        minus_float64_def times_float64_def divide_float64_def zero_float64_def)
  have sc: "at_TrendScore (scoreTrend exCfg (Finite 1, 0) (Finite 20, Finite 10) ?tc) = Finite (- (1 / 2))"
    by (simp add: scoreTrend_score vc zscore_def float64_def exCfg_def plus_float64_def
        minus_float64_def times_float64_def divide_float64_def zero_float64_def)
  have scored: "scoredTrends exDay2 exItems2 exItems1 exCfg themes =
      [scoreTrend exCfg (Finite 1, 0) (Finite 20, Finite 10) ?tb,
       scoreTrend exCfg (Finite 1, 0) (Finite 20, Finite 10) ?tc]"
    unfolding scoredTrends_def Let_def rs vs by (simp only: built list.map)
  show ?thesis
    unfolding AnalyzeTrends_trends scored sortTrends_def exchangeSort_pair
    by (simp add: sb sc less_float64_def)
qed

text \<open>
  Claim C9. The trend list of a result holds one record per current item: it is a
  permutation of the records built and scored from the current item list, so it has the
  items' identifiers with their multiplicities. When no trend score is NaN the list is in
  non-increasing order of trend score, every score being \<open>\<le>\<close> its predecessors in Go's
  comparison. Nothing is said about the order of equal scores.
\<close>

theorem AnalyzeTrends_sorted_permutation:
  "mset (res_Trends (AnalyzeTrends latest previous latestItems previousItems cfg themes)) =
     mset (scoredTrends latest latestItems previousItems cfg themes) \<and>
   length (res_Trends (AnalyzeTrends latest previous latestItems previousItems cfg themes)) =
     length latestItems \<and>
   mset (map at_AppID (res_Trends (AnalyzeTrends latest previous latestItems previousItems cfg themes))) =
     mset (map ci_AppID latestItems) \<and>
   ((\<forall>t \<in> set (res_Trends (AnalyzeTrends latest previous latestItems previousItems cfg themes)).
       at_TrendScore t \<noteq> NaN) \<longrightarrow>
    sorted_wrt (\<lambda>a b. at_TrendScore b \<le> at_TrendScore a)
      (res_Trends (AnalyzeTrends latest previous latestItems previousItems cfg themes)))"
proof -
  let ?scored = "scoredTrends latest latestItems previousItems cfg themes"
  have a: "mset (sortTrends ?scored) = mset ?scored"
    by (rule sortTrends_mset)
  have b: "length (sortTrends ?scored) = length latestItems"
    by (simp add: sortTrends_length scoredTrends_length)
  have "mset (map at_AppID (sortTrends ?scored)) = mset (map at_AppID ?scored)"
    by (simp add: sortTrends_mset)
  then have c: "mset (map at_AppID (sortTrends ?scored)) = mset (map ci_AppID latestItems)"
    by (simp only: scoredTrends_ids)
  have d: "sorted_wrt (\<lambda>a b. at_TrendScore b \<le> at_TrendScore a) (sortTrends ?scored)"
    if "\<forall>t \<in> set (sortTrends ?scored). at_TrendScore t \<noteq> NaN"
  proof -
    from that have "\<forall>t \<in> set ?scored. at_TrendScore t \<noteq> NaN"
      by (simp only: sortTrends_set)
    then show ?thesis unfolding sortTrends_def by (rule exchangeSort_sorted)
  qed
  show ?thesis
    unfolding AnalyzeTrends_trends using a b c d by (intro conjI impI)
qed

text \<open>
  With the rank weight \<open>+Inf\<close> and the two rank deltas of the second day equal, both
  scores are NaN, and the list of the two is not in non-increasing order.
\<close>

theorem AnalyzeTrends_sorted_permutation_counterexample:
  "map at_TrendScore
     (res_Trends (AnalyzeTrends exDay2 exDay1 exItems2 exItems1 exCfgInf defaultThemeConfig)) =
     [NaN, NaN] \<and>
   \<not> sorted_wrt (\<lambda>a b. at_TrendScore b \<le> at_TrendScore a)
     (res_Trends (AnalyzeTrends exDay2 exDay1 exItems2 exItems1 exCfgInf defaultThemeConfig))"
proof -
  let ?res = "res_Trends (AnalyzeTrends exDay2 exDay1 exItems2 exItems1 exCfgInf defaultThemeConfig)"
  have m: "map at_TrendScore ?res = [NaN, NaN]"
    by (rule exCfgInf_scores)
  have "sorted_wrt (\<lambda>a b. at_TrendScore b \<le> at_TrendScore a) ?res =
      sorted_wrt (\<lambda>x y. y \<le> x) (map at_TrendScore ?res)"
    by (simp add: sorted_wrt_map)
  then have "\<not> sorted_wrt (\<lambda>a b. at_TrendScore b \<le> at_TrendScore a) ?res"
    by (simp add: m float_NaN_le)
  with m show ?thesis by (intro conjI)
qed

text \<open>
  The second day of the example with the finite weights 1, 1 and the bonus 1/2: the scores
  are 1 for B and -1/2 for the new entry C.
\<close>

theorem AnalyzeTrends_sorted_permutation_witness:
  "length (res_Trends (AnalyzeTrends exDay2 exDay1 exItems2 exItems1 exCfg defaultThemeConfig)) = 2 \<and>
   mset (map at_AppID (res_Trends (AnalyzeTrends exDay2 exDay1 exItems2 exItems1 exCfg defaultThemeConfig)))
     = {#''B'', ''C''#} \<and>
   map at_TrendScore
     (res_Trends (AnalyzeTrends exDay2 exDay1 exItems2 exItems1 exCfg defaultThemeConfig)) =
     [Finite 1, Finite (- (1 / 2))] \<and>
   list_all (\<lambda>t. at_TrendScore t \<noteq> NaN)
     (res_Trends (AnalyzeTrends exDay2 exDay1 exItems2 exItems1 exCfg defaultThemeConfig)) \<and>
   sorted_wrt (\<lambda>a b. at_TrendScore b \<le> at_TrendScore a)
     (res_Trends (AnalyzeTrends exDay2 exDay1 exItems2 exItems1 exCfg defaultThemeConfig))"
proof -
  let ?res = "res_Trends (AnalyzeTrends exDay2 exDay1 exItems2 exItems1 exCfg defaultThemeConfig)"
  note t = AnalyzeTrends_sorted_permutation[of exDay2 exDay1 exItems2 exItems1 exCfg defaultThemeConfig]
  have ids: "map ci_AppID exItems2 = [''B'', ''C'']"
    by (simp add: exItems2_def exItem_def)
  have a: "length ?res = 2"
    using t by (simp add: exItems2_def)
  have b: "mset (map at_AppID ?res) = {#''B'', ''C''#}"
  proof -
    have "mset (map at_AppID ?res) = mset (map ci_AppID exItems2)"
      using t by blast
    then show ?thesis by (simp only: ids) simp
  qed
  have m: "map at_TrendScore ?res = [Finite 1, Finite (- (1 / 2))]"
    by (rule exCfg_scores)
  have "\<forall>x \<in> set (map at_TrendScore ?res). x \<noteq> NaN"
    unfolding m by simp
  then have n: "\<forall>t \<in> set ?res. at_TrendScore t \<noteq> NaN"
    by simp
  have c: "list_all (\<lambda>t. at_TrendScore t \<noteq> NaN) ?res"
    using n by (simp only: list_all_iff)
  have d: "sorted_wrt (\<lambda>a b. at_TrendScore b \<le> at_TrendScore a) ?res"
    using t n by blast
  show ?thesis using a b m c d by (intro conjI)
qed

section \<open>The first day of a series\<close>

text \<open>A day analysed against itself: every delta is zero and both series are constant.\<close>

lemma self_transition:
  assumes "distinct (map ci_AppID items)"
  shows "\<forall>b \<in> set (builtTrends latest items items themes).
           at_RankDelta b = 0 \<and> at_RatingDelta b = 0 \<and> \<not> at_NewEntry b"
    and "meanStd (rankDeltas (builtTrends latest items items themes)) = (0, 0)"
    and "meanStd (reviewDeltas (builtTrends latest items items themes)) = (0, 0)"
proof -
  let ?built = "builtTrends latest items items themes"
  have built: "at_RankDelta b = 0 \<and> at_RatingDelta b = 0 \<and> \<not> at_NewEntry b" if "b \<in> set ?built" for b
  proof -
    from that obtain item where item: "item \<in> set items"
      and b: "b = buildTrend latest (itemMap items) (NewThemeClassifier themes) item"
      by (auto simp: builtTrends_def)
    have "itemMap items (ci_AppID item) = Some item"
      using assms item by (rule itemMap_distinct)
    then show ?thesis unfolding b by (simp add: buildTrend_same)
  qed
  then show "\<forall>b \<in> set ?built. at_RankDelta b = 0 \<and> at_RatingDelta b = 0 \<and> \<not> at_NewEntry b"
    by blast
  show "meanStd (rankDeltas ?built) = (0, 0)"
    by (rule meanStd_zeros) (auto simp: rankDeltas_def built float64_zero)
  show "meanStd (reviewDeltas ?built) = (0, 0)"
    by (rule meanStd_zeros) (auto simp: reviewDeltas_def built float64_zero)
qed

lemma self_transition_scored:
  assumes "distinct (map ci_AppID items)"
    and "t \<in> set (res_Trends (AnalyzeTrends latest previous items items cfg themes))"
  shows "at_RankDelta t = 0 \<and> at_RatingDelta t = 0 \<and> \<not> at_NewEntry t \<and>
         at_TrendScore t = cfg_RankWeight cfg * 0 + cfg_ReviewWeight cfg * 0"
proof -
  let ?built = "builtTrends latest items items themes"
  note s = self_transition[OF assms(1), of latest themes]
  from assms(2) have "t \<in> set (scoredTrends latest items items cfg themes)"
    by (simp add: AnalyzeTrends_trends sortTrends_set)
  then obtain b where b: "b \<in> set ?built" and t: "t = scoreTrend cfg (0, 0) (0, 0) b"
    by (auto simp: scoredTrends_def Let_def s(2) s(3))
  show ?thesis
    unfolding t using s(1) b
    by (simp add: scoreTrend_fields scoreTrend_score zscore_def)
qed

text \<open>
  Claim C4. The first retained day is analysed against itself. When the identifiers of
  its items are pairwise distinct, every record of the result has rank delta 0, rating
  delta 0 and no new-entry flag, both z-scores are 0, so the trend score is the rank
  weight times 0 plus the review weight times 0. That is 0 when both weights are finite.
\<close>

theorem first_day_degenerate:
  assumes "distinct (map ci_AppID (snapshotItems ! 0))"
  shows "transition snapshots snapshotItems cfg themeConfig 0 =
           AnalyzeTrends (snapshots ! 0) (snapshots ! 0) (snapshotItems ! 0) (snapshotItems ! 0)
             cfg themeConfig \<and>
         (\<forall>t \<in> set (res_Trends (transition snapshots snapshotItems cfg themeConfig 0)).
            at_RankDelta t = 0 \<and> at_RatingDelta t = 0 \<and> \<not> at_NewEntry t \<and>
            at_TrendScore t = cfg_RankWeight cfg * 0 + cfg_ReviewWeight cfg * 0) \<and>
         (isFinite (cfg_RankWeight cfg) \<and> isFinite (cfg_ReviewWeight cfg) \<longrightarrow>
            (\<forall>t \<in> set (res_Trends (transition snapshots snapshotItems cfg themeConfig 0)).
               at_TrendScore t = 0))"
proof -
  let ?items = "snapshotItems ! 0"
  let ?latest = "snapshots ! 0"
  let ?self = "AnalyzeTrends ?latest ?latest ?items ?items cfg themeConfig"
  have tr: "transition snapshots snapshotItems cfg themeConfig 0 = ?self"
    by (simp add: transition_def Let_def)
  have a: "\<forall>t \<in> set (res_Trends ?self).
      at_RankDelta t = 0 \<and> at_RatingDelta t = 0 \<and> \<not> at_NewEntry t \<and>
      at_TrendScore t = cfg_RankWeight cfg * 0 + cfg_ReviewWeight cfg * 0"
    using self_transition_scored[OF assms] by blast
  have b: "\<forall>t \<in> set (res_Trends ?self). at_TrendScore t = 0"
    if "isFinite (cfg_RankWeight cfg) \<and> isFinite (cfg_ReviewWeight cfg)"
  proof -
    have "cfg_RankWeight cfg * 0 + cfg_ReviewWeight cfg * 0 = 0"
      using that by (simp add: float_finite_times_zero)
    then show ?thesis using a by simp
  qed
  show ?thesis unfolding tr using a b by (intro conjI refl impI)
qed

text \<open>
  The first day of the example with the rank weight \<open>+Inf\<close>: the identifiers are distinct
  and both scores are NaN, which is not 0.
\<close>

theorem first_day_degenerate_counterexample:
  "distinct (map ci_AppID ([exItems1, exItems2] ! 0)) \<and>
   map at_TrendScore
     (res_Trends (transition [exDay1, exDay2] [exItems1, exItems2] exCfgInf defaultThemeConfig 0)) =
     [NaN, NaN] \<and>
   NaN \<noteq> (0 :: float64)"
proof -
  let ?res = "res_Trends (AnalyzeTrends exDay1 exDay1 exItems1 exItems1 exCfgInf defaultThemeConfig)"
  have d: "distinct (map ci_AppID exItems1)"
    by (simp add: exItems1_def exItem_def)
  have tr: "transition [exDay1, exDay2] [exItems1, exItems2] exCfgInf defaultThemeConfig 0 =
      AnalyzeTrends exDay1 exDay1 exItems1 exItems1 exCfgInf defaultThemeConfig"
    by (simp add: transition_def Let_def)
  have w: "cfg_RankWeight exCfgInf * 0 + cfg_ReviewWeight exCfgInf * 0 = NaN"
    by (simp add: exCfgInf_def times_float64_def plus_float64_def zero_float64_def)
  have a: "\<forall>t \<in> set ?res. at_TrendScore t = NaN"
    using self_transition_scored[OF d] w by simp
  have l: "length ?res = 2"
    by (simp add: AnalyzeTrends_trends sortTrends_length scoredTrends_length exItems1_def)
  have m: "map at_TrendScore ?res = [NaN, NaN]"
    using l a by (rule constant_scores)
  have z: "NaN \<noteq> (0 :: float64)" by (simp add: zero_float64_def)
  show ?thesis using d m z unfolding tr by simp
qed

theorem first_day_degenerate_witness:
  "list_all (\<lambda>t. at_RankDelta t = 0 \<and> at_RatingDelta t = 0 \<and> \<not> at_NewEntry t \<and> at_TrendScore t = 0)
     (res_Trends (transition [exDay1, exDay2] [exItems1, exItems2] exCfg defaultThemeConfig 0)) \<and>
   length (res_Trends (transition [exDay1, exDay2] [exItems1, exItems2] exCfg defaultThemeConfig 0)) = 2"
proof -
  let ?res = "res_Trends (transition [exDay1, exDay2] [exItems1, exItems2] exCfg defaultThemeConfig 0)"
  have d: "distinct (map ci_AppID ([exItems1, exItems2] ! 0))"
    by (simp add: exItems1_def exItem_def)
  have f: "isFinite (cfg_RankWeight exCfg) \<and> isFinite (cfg_ReviewWeight exCfg)"
    by (simp add: exCfg_def)
  note t = first_day_degenerate[OF d, of "[exDay1, exDay2]" exCfg defaultThemeConfig]
  have a: "\<forall>t \<in> set ?res. at_RankDelta t = 0 \<and> at_RatingDelta t = 0 \<and> \<not> at_NewEntry t"
    using t by blast
  have b: "\<forall>t \<in> set ?res. at_TrendScore t = 0"
    using t f by blast
  have c: "list_all (\<lambda>t. at_RankDelta t = 0 \<and> at_RatingDelta t = 0 \<and> \<not> at_NewEntry t \<and> at_TrendScore t = 0) ?res"
    unfolding list_all_iff using a b by blast
  have "?res = res_Trends (AnalyzeTrends exDay1 exDay1 exItems1 exItems1 exCfg defaultThemeConfig)"
    using t by simp
  then have l: "length ?res = 2"
    by (simp add: AnalyzeTrends_trends sortTrends_length scoredTrends_length exItems1_def)
  show ?thesis using c l by (intro conjI)
qed

text \<open>
  Claim C5. A current item whose identifier is absent from the previous item list has a
  record in the result with the new-entry flag set, with the rank delta
  \<open>(limit + 1) - rank\<close> for the limit of the current snapshot, and with the new-entry
  bonus added to the weighted sum of its two z-scores. The same holds of every record of
  the result whose identifier is absent from the previous list.
\<close>

theorem new_entry_trend:
  assumes "item \<in> set latestItems"
    and "ci_AppID item \<notin> ci_AppID ` set previousItems"
  shows "(\<exists>t \<in> set (res_Trends (AnalyzeTrends latest previous latestItems previousItems cfg themes)).
            at_AppID t = ci_AppID item \<and> at_Rank t = ci_Rank item \<and> at_NewEntry t \<and>
            at_RankDelta t = snap_Limit latest + 1 - ci_Rank item \<and>
            at_TrendScore t =
              cfg_RankWeight cfg * zscore (float64 (at_RankDelta t))
                (fst (meanStd (rankDeltas (builtTrends latest latestItems previousItems themes))))
                (snd (meanStd (rankDeltas (builtTrends latest latestItems previousItems themes)))) +
              cfg_ReviewWeight cfg * zscore (float64 (at_RatingDelta t))
                (fst (meanStd (reviewDeltas (builtTrends latest latestItems previousItems themes))))
                (snd (meanStd (reviewDeltas (builtTrends latest latestItems previousItems themes)))) +
              cfg_NewEntryBonus cfg) \<and>
         (\<forall>t \<in> set (res_Trends (AnalyzeTrends latest previous latestItems previousItems cfg themes)).
            at_AppID t \<notin> ci_AppID ` set previousItems \<longrightarrow>
            at_NewEntry t \<and> at_RankDelta t = snap_Limit latest + 1 - at_Rank t)"
proof -
  let ?built = "builtTrends latest latestItems previousItems themes"
  let ?rs = "meanStd (rankDeltas ?built)"
  let ?vs = "meanStd (reviewDeltas ?built)"
  let ?cls = "NewThemeClassifier themes"
  let ?res = "res_Trends (AnalyzeTrends latest previous latestItems previousItems cfg themes)"
  have res: "set ?res = scoreTrend cfg ?rs ?vs ` set ?built"
    unfolding AnalyzeTrends_trends sortTrends_set by (simp add: scoredTrends_def Let_def)
  define b where "b = buildTrend latest (itemMap previousItems) ?cls item"
  define t where "t = scoreTrend cfg ?rs ?vs b"
  have absent: "itemMap previousItems (ci_AppID item) = None"
    using assms(2) by (rule itemMap_absent)
  have bin: "b \<in> set ?built"
    using assms(1) by (simp add: builtTrends_def b_def)
  then have tin: "t \<in> set ?res"
    unfolding res t_def by (rule imageI)
  have f1: "at_AppID t = ci_AppID item" "at_Rank t = ci_Rank item"
    by (simp_all add: t_def b_def scoreTrend_fields buildTrend_fields)
  have f2: "at_NewEntry t" "at_RankDelta t = snap_Limit latest + 1 - ci_Rank item"
    using buildTrend_new[where prevMap = "itemMap previousItems" and item = item
        and latest = latest and cls = ?cls, OF absent]
    by (simp_all add: t_def b_def scoreTrend_fields)
  have f3: "at_TrendScore t =
      cfg_RankWeight cfg * zscore (float64 (at_RankDelta t)) (fst ?rs) (snd ?rs) +
      cfg_ReviewWeight cfg * zscore (float64 (at_RatingDelta t)) (fst ?vs) (snd ?vs) +
      cfg_NewEntryBonus cfg"
    using f2(1) by (simp add: t_def scoreTrend_score scoreTrend_fields)
  have part1: "\<exists>t \<in> set ?res.
      at_AppID t = ci_AppID item \<and> at_Rank t = ci_Rank item \<and> at_NewEntry t \<and>
      at_RankDelta t = snap_Limit latest + 1 - ci_Rank item \<and>
      at_TrendScore t =
        cfg_RankWeight cfg * zscore (float64 (at_RankDelta t)) (fst ?rs) (snd ?rs) +
        cfg_ReviewWeight cfg * zscore (float64 (at_RatingDelta t)) (fst ?vs) (snd ?vs) +
        cfg_NewEntryBonus cfg"
    using tin f1 f2 f3 by blast
  have part2: "at_NewEntry u \<and> at_RankDelta u = snap_Limit latest + 1 - at_Rank u"
    if u: "u \<in> set ?res" and new: "at_AppID u \<notin> ci_AppID ` set previousItems" for u
  proof -
    from u obtain it where it: "it \<in> set latestItems"
      and ub: "u = scoreTrend cfg ?rs ?vs (buildTrend latest (itemMap previousItems) ?cls it)"
      unfolding res by (auto simp: builtTrends_def)
    have "at_AppID u = ci_AppID it"
      by (simp add: ub scoreTrend_fields buildTrend_fields)
    then have "itemMap previousItems (ci_AppID it) = None"
      using new by (simp add: itemMap_absent)
    from buildTrend_new[where prevMap = "itemMap previousItems" and item = it
        and latest = latest and cls = ?cls, OF this]
    show ?thesis
      by (simp add: ub scoreTrend_fields buildTrend_fields)
  qed
  show ?thesis using part1 part2 by blast
qed

text \<open>The item C of the second day, absent from the first: rank 2 under limit 2.\<close>

theorem new_entry_trend_witness:
  "\<exists>t \<in> set (res_Trends (AnalyzeTrends exDay2 exDay1 exItems2 exItems1 exCfg defaultThemeConfig)).
     at_AppID t = ''C'' \<and> at_Rank t = 2 \<and> at_NewEntry t \<and> at_RankDelta t = 1"
proof -
  let ?c = "exItem 2 2 ''C'' [''6014'', ''6016''] 10"
  have h1: "?c \<in> set exItems2"
    by (simp add: exItems2_def)
  have h2: "ci_AppID ?c \<notin> ci_AppID ` set exItems1"
    by (simp add: exItems1_def exItem_def)
  have v: "ci_AppID ?c = ''C''" "ci_Rank ?c = 2" "snap_Limit exDay2 + 1 - (2 :: go_int) = 1"
    by (simp_all add: exItem_def exDay2_def exSnapshot_def)
  from new_entry_trend[OF h1 h2, of exDay2 exDay1 exCfg defaultThemeConfig]
  have "\<exists>t \<in> set (res_Trends (AnalyzeTrends exDay2 exDay1 exItems2 exItems1 exCfg defaultThemeConfig)).
     at_AppID t = ci_AppID ?c \<and> at_Rank t = ci_Rank ?c \<and> at_NewEntry t \<and>
     at_RankDelta t = snap_Limit exDay2 + 1 - ci_Rank ?c"
    by blast
  then show ?thesis by (simp only: v)
qed

section \<open>Theme scores and risk groups\<close>

lemma averageThemes_fold:
  "fold (\<lambda>theme (sm, count).
           case scores theme of
             Some score \<Rightarrow> (sm + score, count + 1)
           | None \<Rightarrow> (sm, count))
        themes (s0, c0 :: nat) =
   (s0 + sum_list (map (\<lambda>theme. the (scores theme)) (filter (\<lambda>theme. scores theme \<noteq> None) themes)),
    c0 + length (filter (\<lambda>theme. scores theme \<noteq> None) themes))"
proof (induction themes arbitrary: s0 c0)
  case Nil
  show ?case by simp
next
  case (Cons theme themes)
  show ?case
  proof (cases "scores theme")
    case None
    then show ?thesis using Cons.IH[of s0 c0] by simp
  next
    case (Some score)
    then show ?thesis using Cons.IH[of "s0 + score" "c0 + 1"] by (simp add: add.assoc)
  qed
qed

lemma averageThemes_groupMean: "averageThemes scores themes = groupMean scores themes"
proof (cases "themes = []")
  case True
  then show ?thesis by (simp add: averageThemes_def groupMean_def)
next
  case False
  then show ?thesis
    by (simp add: averageThemes_def groupMean_def Let_def averageThemes_fold[of scores themes 0 0])
qed

lemma groupMean_none: "\<forall>theme \<in> set themes. scores theme = None \<Longrightarrow> groupMean scores themes = 0"
proof -
  assume "\<forall>theme \<in> set themes. scores theme = None"
  then have "filter (\<lambda>theme. scores theme \<noteq> None) themes = []"
    by (simp add: filter_empty_conv)
  then show ?thesis by (simp add: groupMean_def)
qed

text \<open>
  Claim C6. In every result the rotation index is the risk-on score minus the risk-off
  score. Each of the two is the mean of the theme scores of those themes of the
  configured group that are keys of the result's theme scores, and 0 when no theme of the
  group is a key, in particular for an empty group.
\<close>

theorem rotation_index:
  "res_RotationIndex (AnalyzeTrends latest previous latestItems previousItems cfg themes) =
     res_RiskOnScore (AnalyzeTrends latest previous latestItems previousItems cfg themes) -
     res_RiskOffScore (AnalyzeTrends latest previous latestItems previousItems cfg themes) \<and>
   res_RiskOnScore (AnalyzeTrends latest previous latestItems previousItems cfg themes) =
     groupMean (res_ThemeScores (AnalyzeTrends latest previous latestItems previousItems cfg themes))
       (tc_RiskOn themes) \<and>
   res_RiskOffScore (AnalyzeTrends latest previous latestItems previousItems cfg themes) =
     groupMean (res_ThemeScores (AnalyzeTrends latest previous latestItems previousItems cfg themes))
       (tc_RiskOff themes) \<and>
   groupMean scores [] = 0 \<and>
   ((\<forall>theme \<in> set grp. scores theme = None) \<longrightarrow> groupMean scores grp = 0)"
proof -
  have a: "groupMean scores [] = 0" by (simp add: groupMean_def)
  have b: "(\<forall>theme \<in> set grp. scores theme = None) \<longrightarrow> groupMean scores grp = 0"
    using groupMean_none[of grp scores] by blast
  show ?thesis
    using a b by (simp add: AnalyzeTrends_def Let_def averageThemes_groupMean)
qed

text \<open>
  The second day of the example; a group of three themes of which two have a score; and a
  group none of whose themes has one.
\<close>

theorem rotation_index_witness:
  "res_RotationIndex (AnalyzeTrends exDay2 exDay1 exItems2 exItems1 exCfg defaultThemeConfig) =
     res_RiskOnScore (AnalyzeTrends exDay2 exDay1 exItems2 exItems1 exCfg defaultThemeConfig) -
     res_RiskOffScore (AnalyzeTrends exDay2 exDay1 exItems2 exItems1 exCfg defaultThemeConfig) \<and>
   groupMean [''games'' \<mapsto> Finite 3, ''finance'' \<mapsto> Finite 1]
     [''games'', ''travel'', ''finance''] = Finite 2 \<and>
   groupMean [''games'' \<mapsto> Finite 3] [''travel''] = 0"
proof -
  note t = rotation_index[of exDay2 exDay1 exItems2 exItems1 exCfg defaultThemeConfig
      "[''games'' \<mapsto> Finite 3]" "[''travel'']"]
  have h: "\<forall>theme \<in> set [''travel'']. [''games'' \<mapsto> Finite 3] theme = None"
    by simp
  have a: "groupMean [''games'' \<mapsto> Finite 3] [''travel''] = 0"
    using t h by blast
  have b: "groupMean [''games'' \<mapsto> Finite 3, ''finance'' \<mapsto> Finite 1]
      [''games'', ''travel'', ''finance''] = Finite 2"
    by (simp add: groupMean_def plus_float64_def divide_float64_def zero_float64_def floatOfNat_def)
  show ?thesis using t a b by blast
qed

lemma accumulateThemes_fold:
  "fold (\<lambda>trend (scores, counts).
           (scores(at_Theme trend \<mapsto>
              (case scores (at_Theme trend) of None \<Rightarrow> 0 | Some v \<Rightarrow> v) + at_TrendScore trend),
            counts(at_Theme trend := counts (at_Theme trend) + 1)))
        trends (s, c) =
   (\<lambda>theme. if filter (\<lambda>t. at_Theme t = theme) trends = [] then s theme
            else Some ((case s theme of None \<Rightarrow> 0 | Some v \<Rightarrow> v) +
                       sum_list (map at_TrendScore (filter (\<lambda>t. at_Theme t = theme) trends))),
    \<lambda>theme. c theme + length (filter (\<lambda>t. at_Theme t = theme) trends))"
proof (induction trends arbitrary: s c)
  case Nil
  show ?case by simp
next
  case (Cons t trends)
  let ?s = "s(at_Theme t \<mapsto> (case s (at_Theme t) of None \<Rightarrow> 0 | Some v \<Rightarrow> v) + at_TrendScore t)"
  let ?c = "c(at_Theme t := c (at_Theme t) + 1)"
  show ?case
    unfolding fold_simps prod.case Cons.IH[of ?s ?c]
    by (rule prod_eqI; rule ext) (simp_all add: add.assoc)
qed

lemma meanThemes_themeMean: "meanThemes (accumulateThemes trends) = themeMean trends"
proof (rule ext)
  fix theme
  show "meanThemes (accumulateThemes trends) theme = themeMean trends theme"
    unfolding accumulateThemes_def accumulateThemes_fold
    by (simp add: meanThemes_def themeMean_def Let_def)
qed

lemma AnalyzeTrends_themeScores:
  "res_ThemeScores (AnalyzeTrends latest previous latestItems previousItems cfg themes) =
   themeMean (res_Trends (AnalyzeTrends latest previous latestItems previousItems cfg themes))"
  by (simp add: AnalyzeTrends_def Let_def meanThemes_themeMean)

lemma themeMean_dom: "dom (themeMean trends) = at_Theme ` set trends"
proof -
  have "(filter (\<lambda>t. at_Theme t = theme) trends = []) = (theme \<notin> at_Theme ` set trends)" for theme
    by (auto simp: filter_empty_conv)
  then show ?thesis
    by (auto simp: dom_def themeMean_def Let_def)
qed

section \<open>Theme labels\<close>

lemma classifyRules_label:
  "classifyRules rules genres ids name = ''other'' \<or>
   classifyRules rules genres ids name \<in> nr_theme ` set rules"
  by (induction rules) auto

lemma Classify_label:
  "Classify (NewThemeClassifier cfg) input = ''other'' \<or>
   (\<exists>rule \<in> set (tc_Rules cfg). Classify (NewThemeClassifier cfg) input = ToLower (tr_Theme rule))"
proof -
  let ?c = "Classify (NewThemeClassifier cfg) input"
  define rs where "rs = map normalizeRule (tc_Rules cfg)"
  obtain genres ids name where c: "?c = classifyRules rs genres ids name"
    by (simp add: Classify_def NewThemeClassifier_def Let_def rs_def)
  have "?c = ''other'' \<or> ?c \<in> nr_theme ` set rs"
    unfolding c by (rule classifyRules_label)
  moreover have "nr_theme ` set rs = (\<lambda>r. ToLower (tr_Theme r)) ` set (tc_Rules cfg)"
    by (auto simp: rs_def normalizeRule_def image_iff)
  ultimately show ?thesis by auto
qed

lemma toLowerChar_not_upper: "\<not> isUpper (toLowerChar c)"
  by (auto simp: toLowerChar_def isUpper_def)

lemma ToLower_not_upper: "\<not> list_ex isUpper (ToLower s)"
  by (simp add: ToLower_def list_ex_iff toLowerChar_not_upper)

lemma other_not_upper: "\<not> list_ex isUpper ''other''"
  by (simp add: isUpper_def)

lemma Classify_not_upper: "\<not> list_ex isUpper (Classify (NewThemeClassifier cfg) input)"
  using Classify_label[of cfg input] ToLower_not_upper other_not_upper by metis

lemma buildTrend_theme:
  "at_Theme (buildTrend latest prevMap cls item) =
   Classify cls \<lparr>ti_Name = ci_AppName item, ti_Genres = ci_Genres item,
     ti_GenreIDs = ci_GenreIDs item, ti_PrimaryGenre = ci_PrimaryGenre item,
     ti_ItunesGenres = ci_ItunesGenres item\<rparr>"
  by (simp add: buildTrend_def Let_def split: prod.splits)

lemma AnalyzeTrends_theme_label:
  assumes "t \<in> set (res_Trends (AnalyzeTrends latest previous latestItems previousItems cfg themes))"
  shows "at_Theme t = ''other'' \<or> (\<exists>rule \<in> set (tc_Rules themes). at_Theme t = ToLower (tr_Theme rule))"
proof -
  from assms have "t \<in> set (scoredTrends latest latestItems previousItems cfg themes)"
    unfolding AnalyzeTrends_trends sortTrends_set .
  then have "at_Theme t \<in> at_Theme ` set (builtTrends latest latestItems previousItems themes)"
    by (auto simp: scoredTrends_def Let_def scoreTrend_fields)
  then obtain item where
    "at_Theme t = at_Theme (buildTrend latest (itemMap previousItems) (NewThemeClassifier themes) item)"
    by (auto simp: builtTrends_def)
  then have "at_Theme t = Classify (NewThemeClassifier themes)
       \<lparr>ti_Name = ci_AppName item, ti_Genres = ci_Genres item,
        ti_GenreIDs = ci_GenreIDs item, ti_PrimaryGenre = ci_PrimaryGenre item,
        ti_ItunesGenres = ci_ItunesGenres item\<rparr>"
    by (simp only: buildTrend_theme)
  then show ?thesis using Classify_label[of themes] by simp
qed

section \<open>Theme names of the time series\<close>

lemma uniqueThemes_fold:
  assumes "\<forall>x. seen x = (x \<in> set themes)" and "distinct themes"
  shows "distinct (snd (fold uniqueStep rules (seen, themes))) \<and>
         set (snd (fold uniqueStep rules (seen, themes))) =
           set themes \<union> {tr_Theme rule |rule. rule \<in> set rules \<and> tr_Theme rule \<noteq> []}"
  using assms
proof (induction rules arbitrary: seen themes)
  case Nil
  then show ?case by simp
next
  case (Cons rule rules)
  show ?case
  proof (cases "tr_Theme rule = [] \<or> seen (tr_Theme rule)")
    case True
    then have step: "uniqueStep rule (seen, themes) = (seen, themes)"
      by (auto simp: uniqueStep_def Let_def)
    have "tr_Theme rule = [] \<or> tr_Theme rule \<in> set themes"
      using True Cons.prems(1) by simp
    then have "set themes \<union> {tr_Theme r |r. r \<in> set (rule # rules) \<and> tr_Theme r \<noteq> []}
        = set themes \<union> {tr_Theme r |r. r \<in> set rules \<and> tr_Theme r \<noteq> []}"
      by auto
    then show ?thesis
      using Cons.IH[OF Cons.prems] by (simp only: fold_simps step)
  next
    case False
    let ?seen = "seen(tr_Theme rule := True)"
    let ?themes = "themes @ [tr_Theme rule]"
    have step: "uniqueStep rule (seen, themes) = (?seen, ?themes)"
      using False by (simp add: uniqueStep_def Let_def)
    have p1: "\<forall>x. ?seen x = (x \<in> set ?themes)" using Cons.prems(1) by auto
    have p2: "distinct ?themes" using Cons.prems False by auto
    have "set ?themes \<union> {tr_Theme r |r. r \<in> set rules \<and> tr_Theme r \<noteq> []}
        = set themes \<union> {tr_Theme r |r. r \<in> set (rule # rules) \<and> tr_Theme r \<noteq> []}"
      using False by auto
    then show ?thesis
      using Cons.IH[OF p1 p2] by (simp only: fold_simps step)
  qed
qed

lemma uniqueThemes_sort:
  "uniqueThemes cfg = sort (snd (fold uniqueStep (tc_Rules cfg) ((\<lambda>_. False)(''other'' := True), [''other''])))"
  by (simp add: uniqueThemes_def split: prod.splits)

lemma uniqueThemes_set:
  "set (uniqueThemes cfg) =
   insert ''other'' {tr_Theme rule |rule. rule \<in> set (tc_Rules cfg) \<and> tr_Theme rule \<noteq> []}"
  using uniqueThemes_fold[of "(\<lambda>_. False)(''other'' := True)" "[''other'']" "tc_Rules cfg"]
  by (simp add: uniqueThemes_sort)

lemma uniqueThemes_distinct: "distinct (uniqueThemes cfg)"
  using uniqueThemes_fold[of "(\<lambda>_. False)(''other'' := True)" "[''other'']" "tc_Rules cfg"]
  by (simp add: uniqueThemes_sort)

lemma uniqueThemes_sorted: "sorted (uniqueThemes cfg)"
  by (simp add: uniqueThemes_sort)

text \<open>
  Claim C10. Every label the classifier returns is \<open>''other''\<close> or the lower-cased
  theme of a configured rule, and so is the theme of every record of a result and every
  key of its theme scores. A configured theme with an upper-case letter is therefore never
  returned as it is written and is never a key of the theme scores; it is nevertheless a
  key of the time series, whose names are the configured ones, and the risk groups are
  looked up by the names the configuration lists.
\<close>

theorem theme_labels_lower_case:
  "(Classify (NewThemeClassifier themes) input = ''other'' \<or>
      (\<exists>rule \<in> set (tc_Rules themes).
         Classify (NewThemeClassifier themes) input = ToLower (tr_Theme rule))) \<and>
   (\<forall>t \<in> set (res_Trends (AnalyzeTrends latest previous latestItems previousItems cfg themes)).
      at_Theme t = ''other'' \<or>
      (\<exists>rule \<in> set (tc_Rules themes). at_Theme t = ToLower (tr_Theme rule))) \<and>
   (\<forall>theme \<in> dom (res_ThemeScores (AnalyzeTrends latest previous latestItems previousItems cfg themes)).
      theme = ''other'' \<or> (\<exists>rule \<in> set (tc_Rules themes). theme = ToLower (tr_Theme rule))) \<and>
   (\<forall>rule \<in> set (tc_Rules themes). list_ex isUpper (tr_Theme rule) \<longrightarrow>
      Classify (NewThemeClassifier themes) input \<noteq> tr_Theme rule \<and>
      tr_Theme rule \<notin> dom (res_ThemeScores (AnalyzeTrends latest previous latestItems previousItems cfg themes)) \<and>
      tr_Theme rule \<in> set (uniqueThemes themes)) \<and>
   res_RiskOnScore (AnalyzeTrends latest previous latestItems previousItems cfg themes) =
     groupMean (res_ThemeScores (AnalyzeTrends latest previous latestItems previousItems cfg themes))
       (tc_RiskOn themes) \<and>
   res_RiskOffScore (AnalyzeTrends latest previous latestItems previousItems cfg themes) =
     groupMean (res_ThemeScores (AnalyzeTrends latest previous latestItems previousItems cfg themes))
       (tc_RiskOff themes)"
proof -
  let ?R = "AnalyzeTrends latest previous latestItems previousItems cfg themes"
  have a: "Classify (NewThemeClassifier themes) input = ''other'' \<or>
      (\<exists>rule \<in> set (tc_Rules themes).
         Classify (NewThemeClassifier themes) input = ToLower (tr_Theme rule))"
    by (rule Classify_label)
  have b: "\<forall>t \<in> set (res_Trends ?R). at_Theme t = ''other'' \<or>
      (\<exists>rule \<in> set (tc_Rules themes). at_Theme t = ToLower (tr_Theme rule))"
    using AnalyzeTrends_theme_label by blast
  have dom: "dom (res_ThemeScores ?R) = at_Theme ` set (res_Trends ?R)"
    by (simp only: AnalyzeTrends_themeScores themeMean_dom)
  have c: "\<forall>theme \<in> dom (res_ThemeScores ?R).
      theme = ''other'' \<or> (\<exists>rule \<in> set (tc_Rules themes). theme = ToLower (tr_Theme rule))"
    unfolding dom using b by blast
  have lower: "\<not> list_ex isUpper theme" if "theme \<in> dom (res_ThemeScores ?R)" for theme
    using c that ToLower_not_upper other_not_upper by metis
  have d: "Classify (NewThemeClassifier themes) input \<noteq> tr_Theme rule \<and>
      tr_Theme rule \<notin> dom (res_ThemeScores ?R) \<and> tr_Theme rule \<in> set (uniqueThemes themes)"
    if r: "rule \<in> set (tc_Rules themes)" and u: "list_ex isUpper (tr_Theme rule)" for rule
  proof -
    have "Classify (NewThemeClassifier themes) input \<noteq> tr_Theme rule"
      using Classify_not_upper[of themes input] u by metis
    moreover have "tr_Theme rule \<notin> dom (res_ThemeScores ?R)"
      using lower u by blast
    moreover have "tr_Theme rule \<noteq> []" using u by auto
    then have "tr_Theme rule \<in> set (uniqueThemes themes)"
      using r unfolding uniqueThemes_set by blast
    ultimately show ?thesis by blast
  qed
  have e: "res_RiskOnScore ?R = groupMean (res_ThemeScores ?R) (tc_RiskOn themes)"
    "res_RiskOffScore ?R = groupMean (res_ThemeScores ?R) (tc_RiskOff themes)"
    by (simp_all add: AnalyzeTrends_def Let_def averageThemes_groupMean)
  from d have d': "\<forall>rule \<in> set (tc_Rules themes). list_ex isUpper (tr_Theme rule) \<longrightarrow>
      Classify (NewThemeClassifier themes) input \<noteq> tr_Theme rule \<and>
      tr_Theme rule \<notin> dom (res_ThemeScores ?R) \<and> tr_Theme rule \<in> set (uniqueThemes themes)"
    by blast
  show ?thesis
    by (intro conjI) (rule a b c d' e)+
qed

text \<open>
  The example configuration names its second theme \<open>Games\<close>: the classifier answers
  \<open>games\<close>, so \<open>Games\<close> is a name of the time series and never a key of the theme scores.
\<close>

theorem theme_labels_lower_case_witness:
  "Classify (NewThemeClassifier exThemes) exInput = ''games'' \<and>
   Classify (NewThemeClassifier exThemes) exInput \<noteq> ''Games'' \<and>
   ''Games'' \<notin> dom (res_ThemeScores (AnalyzeTrends exDay2 exDay1 exItems2 exItems1 exCfg exThemes)) \<and>
   ''Games'' \<in> set (uniqueThemes exThemes)"
proof -
  let ?rule = "\<lparr>tr_Theme = ''Games'', tr_GenreIDs = [''6014''], tr_Genres = [], tr_Keywords = []\<rparr>"
  have r: "?rule \<in> set (tc_Rules exThemes)"
    by (simp add: exThemes_def)
  have u: "list_ex isUpper (tr_Theme ?rule)"
    by (simp add: isUpper_def)
  have g: "Classify (NewThemeClassifier exThemes) exInput = ''games''"
    by code_simp
  from theme_labels_lower_case[of exThemes exInput exDay2 exDay1 exItems2 exItems1 exCfg] r u
  have "Classify (NewThemeClassifier exThemes) exInput \<noteq> tr_Theme ?rule \<and>
      tr_Theme ?rule \<notin> dom (res_ThemeScores (AnalyzeTrends exDay2 exDay1 exItems2 exItems1 exCfg exThemes)) \<and>
      tr_Theme ?rule \<in> set (uniqueThemes exThemes)"
    by blast
  then show ?thesis using g by simp
qed

section \<open>Day bucketing\<close>

lemma buildDateIndex_snoc:
  "buildDateIndex key (xs @ [x]) = (buildDateIndex key xs)(key x \<mapsto> length xs)"
  by (simp add: buildDateIndex_def enumerate_append_eq)

lemma buildDateIndex_Some:
  "(buildDateIndex key xs k = Some i) =
   (i < length xs \<and> key (xs ! i) = k \<and> (\<forall>j. i < j \<and> j < length xs \<longrightarrow> key (xs ! j) \<noteq> k))"
proof (induction xs arbitrary: i rule: rev_induct)
  case Nil
  show ?case by (simp add: buildDateIndex_def)
next
  case (snoc x xs)
  show ?case
  proof (cases "k = key x")
    case True
    have "(i < length (xs @ [x]) \<and> key ((xs @ [x]) ! i) = k \<and>
           (\<forall>j. i < j \<and> j < length (xs @ [x]) \<longrightarrow> key ((xs @ [x]) ! j) \<noteq> k)) = (i = length xs)"
    proof
      assume r: "i < length (xs @ [x]) \<and> key ((xs @ [x]) ! i) = k \<and>
           (\<forall>j. i < j \<and> j < length (xs @ [x]) \<longrightarrow> key ((xs @ [x]) ! j) \<noteq> k)"
      show "i = length xs"
      proof (rule ccontr)
        assume "i \<noteq> length xs"
        then have il: "i < length xs" using r by simp
        from r have "i < length xs \<and> length xs < length (xs @ [x]) \<longrightarrow>
            key ((xs @ [x]) ! length xs) \<noteq> k"
          by blast
        then have "key ((xs @ [x]) ! length xs) \<noteq> k" using il by simp
        then show False using True by simp
      qed
    next
      assume "i = length xs"
      then show "i < length (xs @ [x]) \<and> key ((xs @ [x]) ! i) = k \<and>
           (\<forall>j. i < j \<and> j < length (xs @ [x]) \<longrightarrow> key ((xs @ [x]) ! j) \<noteq> k)"
        using True by simp
    qed
    then show ?thesis
      using True by (auto simp: buildDateIndex_snoc)
  next
    case False
    have "(i < length (xs @ [x]) \<and> key ((xs @ [x]) ! i) = k \<and>
           (\<forall>j. i < j \<and> j < length (xs @ [x]) \<longrightarrow> key ((xs @ [x]) ! j) \<noteq> k)) =
          (i < length xs \<and> key (xs ! i) = k \<and> (\<forall>j. i < j \<and> j < length xs \<longrightarrow> key (xs ! j) \<noteq> k))"
      using False by (auto simp: nth_append less_Suc_eq)
    then show ?thesis
      using False snoc.IH[of i] by (simp add: buildDateIndex_snoc)
  qed
qed

lemma buildDateIndex_dom: "dom (buildDateIndex key xs) = key ` set xs"
proof (induction xs rule: rev_induct)
  case Nil
  show ?case by (simp add: buildDateIndex_def)
next
  case (snoc x xs)
  have "dom (buildDateIndex key (xs @ [x])) = insert (key x) (dom (buildDateIndex key xs))"
    by (simp only: buildDateIndex_snoc dom_fun_upd option.distinct if_False)
  then show ?case unfolding snoc.IH by simp
qed

lemma lastOfDay_iff:
  "lastOfDay key xs i = (\<forall>j. i < j \<and> j < length xs \<longrightarrow> key (xs ! j) \<noteq> key (xs ! i))"
  by (auto simp: lastOfDay_def list_all_iff)

lemma dateIndex_lastOfDay:
  assumes "i < length xs"
  shows "((case buildDateIndex key xs (key (xs ! i)) of None \<Rightarrow> 0 | Some n \<Rightarrow> n) = i) = lastOfDay key xs i"
proof -
  have "key (xs ! i) \<in> dom (buildDateIndex key xs)"
    using assms by (simp add: buildDateIndex_dom)
  then obtain m where m: "buildDateIndex key xs (key (xs ! i)) = Some m" by blast
  then have mp: "m < length xs" "key (xs ! m) = key (xs ! i)"
    "\<And>j. m < j \<Longrightarrow> j < length xs \<Longrightarrow> key (xs ! j) \<noteq> key (xs ! i)"
    unfolding buildDateIndex_Some by blast+
  have "(m = i) = lastOfDay key xs i"
  proof
    assume "m = i"
    then show "lastOfDay key xs i" using mp(3) by (simp add: lastOfDay_iff)
  next
    assume l: "lastOfDay key xs i"
    show "m = i"
    proof (rule ccontr)
      assume "m \<noteq> i"
      then consider "m < i" | "i < m" by linarith
      then show False
      proof cases
        case 1
        then show ?thesis using mp(3)[of i] assms by simp
      next
        case 2
        then show ?thesis using l mp(1,2) by (auto simp: lastOfDay_iff)
      qed
    qed
  qed
  then show ?thesis by (simp add: m)
qed

lemma groupLoop_filter:
  assumes "\<forall>p \<in> set ps. fst p < length items"
    and "distinct (map fst ps)"
    and "\<forall>k. seen k \<longrightarrow> (case dateIndex k of None \<Rightarrow> 0 | Some n \<Rightarrow> n) \<notin> fst ` set ps"
  shows "groupLoop key dateIndex items ps seen gs gi =
         Some (gs @ map snd (filter (\<lambda>p. (case dateIndex (key (snd p)) of None \<Rightarrow> 0 | Some n \<Rightarrow> n) = fst p) ps),
               gi @ map (\<lambda>p. items ! fst p)
                      (filter (\<lambda>p. (case dateIndex (key (snd p)) of None \<Rightarrow> 0 | Some n \<Rightarrow> n) = fst p) ps))"
  using assms
proof (induction ps arbitrary: seen gs gi)
  case Nil
  show ?case by simp
next
  case (Cons p ps)
  obtain i s where p: "p = (i, s)" by (cases p)
  let ?idx = "\<lambda>k. case dateIndex k of None \<Rightarrow> 0 | Some n \<Rightarrow> n"
  have items: "\<forall>q \<in> set ps. fst q < length items" using Cons.prems(1) by simp
  have dist: "distinct (map fst ps)" using Cons.prems(2) by simp
  show ?case
  proof (cases "?idx (key s) = i")
    case False
    have seen: "\<forall>k. seen k \<longrightarrow> ?idx k \<notin> fst ` set ps"
      using Cons.prems(3) by auto
    show ?thesis
      using False Cons.IH[of seen gs gi, OF items dist seen] by (simp add: p Let_def)
  next
    case True
    have notseen: "\<not> seen (key s)"
      using Cons.prems(3) True by (auto simp: p)
    have inrange: "i < length items" using Cons.prems(1) by (simp add: p)
    have fresh: "i \<notin> fst ` set ps" using Cons.prems(2) by (simp add: p)
    have seen: "\<forall>k. (seen(key s := True)) k \<longrightarrow> ?idx k \<notin> fst ` set ps"
    proof (intro allI impI)
      fix k assume sk: "(seen(key s := True)) k"
      show "?idx k \<notin> fst ` set ps"
      proof (cases "k = key s")
        case True
        then show ?thesis using \<open>?idx (key s) = i\<close> fresh by simp
      next
        case False
        then have "seen k" using sk by simp
        then show ?thesis using Cons.prems(3) by auto
      qed
    qed
    have step: "groupLoop key dateIndex items ((i, s) # ps) seen gs gi =
        groupLoop key dateIndex items ps (seen(key s := True)) (gs @ [s]) (gi @ [items ! i])"
      using True notseen inrange by (simp add: Let_def)
    show ?thesis
      unfolding p step
        Cons.IH[of "seen(key s := True)" "gs @ [s]" "gi @ [items ! i]", OF items dist seen]
      using True by simp
  qed
qed

lemma enumerate_nth: "enumerate 0 xs = map (\<lambda>i. (i, xs ! i)) [0 ..< length xs]"
  by (rule nth_equalityI) (simp_all add: nth_enumerate_eq)

lemma groupBy_retained:
  assumes "length snapshots \<le> length items" and "snapshots \<noteq> []"
  shows "groupBy key snapshots items =
         Some (map (\<lambda>i. snapshots ! i) (retained key snapshots),
               map (\<lambda>i. items ! i) (retained key snapshots))"
proof -
  let ?di = "buildDateIndex key snapshots"
  let ?sel = "\<lambda>p. (case ?di (key (snd p)) of None \<Rightarrow> 0 | Some n \<Rightarrow> n) = fst p"
  let ?ps = "enumerate 0 snapshots"
  have a: "\<forall>p \<in> set ?ps. fst p < length items"
    using assms(1) by (auto simp: in_set_enumerate_eq)
  have b: "distinct (map fst ?ps)" by simp
  have c: "\<forall>k. (\<lambda>_. False) k \<longrightarrow> (case ?di k of None \<Rightarrow> 0 | Some n \<Rightarrow> n) \<notin> fst ` set ?ps"
    by simp
  have f: "filter ?sel ?ps = map (\<lambda>i. (i, snapshots ! i)) (retained key snapshots)"
    unfolding enumerate_nth retained_def filter_map
    by (rule arg_cong[where f = "map (\<lambda>i. (i, snapshots ! i))"], rule filter_cong)
       (simp_all add: dateIndex_lastOfDay)
  have "groupBy key snapshots items = groupLoop key ?di items ?ps (\<lambda>_. False) [] []"
    using assms(2) by (simp add: groupBy_def)
  also have "\<dots> = Some ([] @ map snd (filter ?sel ?ps), [] @ map (\<lambda>p. items ! fst p) (filter ?sel ?ps))"
    by (rule groupLoop_filter[OF a b c])
  also have "\<dots> = Some (map (\<lambda>i. snapshots ! i) (retained key snapshots),
               map (\<lambda>i. items ! i) (retained key snapshots))"
    unfolding f by (simp add: comp_def)
  finally show ?thesis .
qed

lemma retained_sorted: "sorted (retained key snapshots) \<and> distinct (retained key snapshots)"
  by (simp add: retained_def sorted_wrt_filter)

lemma retained_member:
  "(i \<in> set (retained key snapshots)) =
   (i < length snapshots \<and>
    (\<forall>j < length snapshots. key (snapshots ! j) = key (snapshots ! i) \<longrightarrow> j \<le> i))"
  by (auto simp: retained_def lastOfDay_iff not_le[symmetric])

lemma retained_last:
  "snapshots \<noteq> [] \<Longrightarrow> length snapshots - 1 \<in> set (retained key snapshots)"
  unfolding retained_member by (cases snapshots) auto

lemma retained_all:
  assumes "distinct (map key snapshots)"
  shows "retained key snapshots = [0 ..< length snapshots]"
proof -
  have "lastOfDay key snapshots i" if "i < length snapshots" for i
    unfolding lastOfDay_iff
  proof (intro allI impI)
    fix j assume j: "i < j \<and> j < length snapshots"
    then have "(map key snapshots ! j = map key snapshots ! i) = (j = i)"
      using that by (intro nth_eq_iff_index_eq[OF assms]) simp_all
    then show "key (snapshots ! j) \<noteq> key (snapshots ! i)" using j that by simp
  qed
  then show ?thesis by (simp add: retained_def)
qed

lemma retained_keys_distinct:
  "distinct (map key (map (\<lambda>i. snapshots ! i) (retained key snapshots)))"
proof -
  have "inj_on (\<lambda>i. key (snapshots ! i)) (set (retained key snapshots))"
  proof (rule inj_onI)
    fix a b
    assume a: "a \<in> set (retained key snapshots)" and b: "b \<in> set (retained key snapshots)"
      and e: "key (snapshots ! a) = key (snapshots ! b)"
    from a b e have "b \<le> a" "a \<le> b"
      unfolding retained_member by metis+
    then show "a = b" by simp
  qed
  then show ?thesis
    using retained_sorted[of key snapshots] by (simp add: distinct_map comp_def)
qed

lemma groupBy_closed:
  assumes "length items = length snapshots"
  shows "groupBy key snapshots items =
         Some (map (\<lambda>i. snapshots ! i) (retained key snapshots),
               map (\<lambda>i. items ! i) (retained key snapshots))"
proof (cases "snapshots = []")
  case True
  then show ?thesis using assms by (simp add: groupBy_def retained_def)
next
  case False
  then show ?thesis using assms by (intro groupBy_retained) simp_all
qed

lemma groupBy_one_per_day:
  assumes "length items = length snapshots" and "distinct (map key snapshots)"
  shows "groupBy key snapshots items = Some (snapshots, items)"
proof -
  have "map (\<lambda>i. items ! i) [0 ..< length snapshots] = items"
    using map_nth[of items] assms(1) by simp
  then show ?thesis
    unfolding groupBy_closed[OF assms(1)] retained_all[OF assms(2)]
    using map_nth[of snapshots] by simp
qed

lemma groupBy_idempotent:
  assumes "length items = length snapshots" and "groupBy key snapshots items = Some (g, gi)"
  shows "groupBy key g gi = Some (g, gi)"
proof -
  have g: "g = map (\<lambda>i. snapshots ! i) (retained key snapshots)"
    and gi: "gi = map (\<lambda>i. items ! i) (retained key snapshots)"
    using assms(2) unfolding groupBy_closed[OF assms(1)] by simp_all
  have len: "length gi = length g" by (simp add: g gi)
  have "distinct (map key g)" unfolding g by (rule retained_keys_distinct)
  with len show ?thesis by (rule groupBy_one_per_day)
qed

lemma groupSnapshotsByDate_groupBy:
  "groupSnapshotsByDate tzdb snapshots items = groupBy (dateKey (seoulOrUTC tzdb)) snapshots items"
  by (simp add: groupSnapshotsByDate_def seoulOrUTC_def Let_def)

text \<open>
  Claim C7. The day key is computed in the zone \<^verbatim>\<open>Asia/Seoul\<close>, or in UTC where that zone
  cannot be loaded. Of the snapshots of one day the grouping keeps the one with the
  greatest index, with its item list; the kept snapshots stand in their original order;
  a sequence with one snapshot per day comes back unchanged, and so does the result of a
  grouping that is grouped again.
\<close>

theorem groupSnapshotsByDate_last_of_day:
  assumes "length items = length snapshots"
  shows "groupSnapshotsByDate tzdb snapshots items =
           Some (map (\<lambda>i. snapshots ! i) (retained (dateKey (seoulOrUTC tzdb)) snapshots),
                 map (\<lambda>i. items ! i) (retained (dateKey (seoulOrUTC tzdb)) snapshots)) \<and>
         sorted (retained (dateKey (seoulOrUTC tzdb)) snapshots) \<and>
         distinct (retained (dateKey (seoulOrUTC tzdb)) snapshots) \<and>
         (\<forall>i. (i \<in> set (retained (dateKey (seoulOrUTC tzdb)) snapshots)) =
              (i < length snapshots \<and>
               (\<forall>j < length snapshots.
                  dateKey (seoulOrUTC tzdb) (snapshots ! j) = dateKey (seoulOrUTC tzdb) (snapshots ! i)
                  \<longrightarrow> j \<le> i))) \<and>
         (distinct (map (dateKey (seoulOrUTC tzdb)) snapshots) \<longrightarrow>
            groupSnapshotsByDate tzdb snapshots items = Some (snapshots, items)) \<and>
         (\<forall>g gi. groupSnapshotsByDate tzdb snapshots items = Some (g, gi) \<longrightarrow>
            groupSnapshotsByDate tzdb g gi = Some (g, gi))"
proof -
  let ?key = "dateKey (seoulOrUTC tzdb)"
  have a: "groupSnapshotsByDate tzdb snapshots items =
           Some (map (\<lambda>i. snapshots ! i) (retained ?key snapshots),
                 map (\<lambda>i. items ! i) (retained ?key snapshots))"
    unfolding groupSnapshotsByDate_groupBy by (rule groupBy_closed[OF assms])
  have b: "sorted (retained ?key snapshots)" and c: "distinct (retained ?key snapshots)"
    using retained_sorted[of ?key snapshots] by blast+
  have d: "\<forall>i. (i \<in> set (retained ?key snapshots)) =
              (i < length snapshots \<and>
               (\<forall>j < length snapshots. ?key (snapshots ! j) = ?key (snapshots ! i) \<longrightarrow> j \<le> i))"
    using retained_member[of _ ?key snapshots] by blast
  have e: "distinct (map ?key snapshots) \<longrightarrow>
            groupSnapshotsByDate tzdb snapshots items = Some (snapshots, items)"
    unfolding groupSnapshotsByDate_groupBy using groupBy_one_per_day[OF assms] by blast
  have f: "\<forall>g gi. groupSnapshotsByDate tzdb snapshots items = Some (g, gi) \<longrightarrow>
            groupSnapshotsByDate tzdb g gi = Some (g, gi)"
    unfolding groupSnapshotsByDate_groupBy using groupBy_idempotent[OF assms] by blast
  show ?thesis
    by (intro conjI) (rule a b c d e f)+
qed

text \<open>
  Three snapshots, the last two on the same day in Seoul: the first and the third are
  kept, and grouping the result again changes nothing.
\<close>

theorem groupSnapshotsByDate_last_of_day_witness:
  "groupSnapshotsByDate exTzdb [exDay1, exDay2, exDay2b] [exItems1, exItems2, exItems2b]
     = Some ([exDay1, exDay2b], [exItems1, exItems2b]) \<and>
   groupSnapshotsByDate exTzdb [exDay1, exDay2b] [exItems1, exItems2b]
     = Some ([exDay1, exDay2b], [exItems1, exItems2b])"
proof -
  have len: "length [exItems1, exItems2, exItems2b] = length [exDay1, exDay2, exDay2b]"
    by simp
  have r: "retained (dateKey (seoulOrUTC exTzdb)) [exDay1, exDay2, exDay2b] = [0, 2]"
    by code_simp
  note t = groupSnapshotsByDate_last_of_day[OF len, of exTzdb]
  have a: "groupSnapshotsByDate exTzdb [exDay1, exDay2, exDay2b] [exItems1, exItems2, exItems2b]
     = Some ([exDay1, exDay2b], [exItems1, exItems2b])"
    using t unfolding r by simp
  have b: "groupSnapshotsByDate exTzdb [exDay1, exDay2b] [exItems1, exItems2b]
     = Some ([exDay1, exDay2b], [exItems1, exItems2b])"
    using t a by blast
  show ?thesis using a b by (intro conjI)
qed

section \<open>The series of the time-series payload\<close>

lemma initTheme_fold:
  "fold initTheme names m0 theme = (if theme \<in> set names then Some [] else m0 theme)"
proof (induction names arbitrary: m0)
  case Nil
  show ?case by simp
next
  case (Cons n names)
  have step: "initTheme n m0 t = (if t = n then Some [] else m0 t)" for t
    by (simp add: initTheme_def)
  show ?case
    unfolding fold_simps Cons.IH[of "initTheme n m0"] step by simp
qed

lemma appendThemes_apply:
  assumes "distinct names"
  shows "appendThemes result names ts0 theme =
         (if theme \<in> set names
          then Some ((case ts0 theme of None \<Rightarrow> [] | Some l \<Rightarrow> l) @
                     [case res_ThemeScores result theme of None \<Rightarrow> 0 | Some v \<Rightarrow> v])
          else ts0 theme)"
  unfolding appendThemes_def using assms
proof (induction names arbitrary: ts0)
  case Nil
  show ?case by simp
next
  case (Cons n names)
  have d: "distinct names" and nin: "n \<notin> set names" using Cons.prems by simp_all
  have step: "appendTheme result n ts0 t =
      (if t = n
       then Some ((case ts0 n of None \<Rightarrow> [] | Some l \<Rightarrow> l) @
                  [case res_ThemeScores result n of None \<Rightarrow> 0 | Some v \<Rightarrow> v])
       else ts0 t)" for t
    by (simp add: appendTheme_def)
  show ?case
    unfolding fold_simps Cons.IH[of "appendTheme result n ts0", OF d] step
    using nin by auto
qed

lemma buildSeries_prefix:
  assumes "distinct names"
  shows "fold (dayStep snapshots snapshotItems cfg themeConfig names) [0 ..< k]
           ([], [], [], [], fold initTheme names Map.empty) =
         (map (\<lambda>idx. snap_CollectedAt (snapshots ! idx)) [0 ..< k],
          map (\<lambda>idx. res_RotationIndex (transition snapshots snapshotItems cfg themeConfig idx)) [0 ..< k],
          map (\<lambda>idx. res_RiskOnScore (transition snapshots snapshotItems cfg themeConfig idx)) [0 ..< k],
          map (\<lambda>idx. res_RiskOffScore (transition snapshots snapshotItems cfg themeConfig idx)) [0 ..< k],
          (\<lambda>theme. if theme \<in> set names
             then Some (map (\<lambda>idx. case res_ThemeScores
                                         (transition snapshots snapshotItems cfg themeConfig idx) theme of
                                    None \<Rightarrow> 0 | Some v \<Rightarrow> v) [0 ..< k])
             else None))"
proof (induction k)
  case 0
  have "fold initTheme names Map.empty =
        (\<lambda>theme. if theme \<in> set names then Some [] else None)"
    by (rule ext) (simp add: initTheme_fold)
  then show ?case by (simp cong: if_cong)
next
  case (Suc k)
  let ?ts = "\<lambda>theme. if theme \<in> set names
             then Some (map (\<lambda>idx. case res_ThemeScores
                                         (transition snapshots snapshotItems cfg themeConfig idx) theme of
                                    None \<Rightarrow> 0 | Some v \<Rightarrow> v) [0 ..< k])
             else None"
  have ap: "appendThemes (transition snapshots snapshotItems cfg themeConfig k) names ?ts =
      (\<lambda>theme. if theme \<in> set names
             then Some (map (\<lambda>idx. case res_ThemeScores
                                         (transition snapshots snapshotItems cfg themeConfig idx) theme of
                                    None \<Rightarrow> 0 | Some v \<Rightarrow> v) [0 ..< Suc k])
             else None)"
    by (rule ext) (simp add: appendThemes_apply[OF assms])
  have up: "[0 ..< Suc k] = [0 ..< k] @ [k]" by simp
  show ?case
    unfolding up fold_append comp_def Suc.IH
    by (simp add: dayStep_def Let_def ap[unfolded up])
qed

lemma buildSeries_closed:
  "buildSeries snapshots snapshotItems cfg themeConfig (uniqueThemes themeConfig) =
     (map (\<lambda>idx. snap_CollectedAt (snapshots ! idx)) [0 ..< length snapshots],
      map (\<lambda>idx. res_RotationIndex (transition snapshots snapshotItems cfg themeConfig idx))
        [0 ..< length snapshots],
      map (\<lambda>idx. res_RiskOnScore (transition snapshots snapshotItems cfg themeConfig idx))
        [0 ..< length snapshots],
      map (\<lambda>idx. res_RiskOffScore (transition snapshots snapshotItems cfg themeConfig idx))
        [0 ..< length snapshots],
      (\<lambda>theme. if theme \<in> set (uniqueThemes themeConfig)
         then Some (map (\<lambda>idx. case res_ThemeScores
                                     (transition snapshots snapshotItems cfg themeConfig idx) theme of
                                None \<Rightarrow> 0 | Some v \<Rightarrow> v) [0 ..< length snapshots])
         else None))"
  unfolding buildSeries_def by (rule buildSeries_prefix[OF uniqueThemes_distinct])

lemma loadItems_length:
  "loadItems st snapshots = Inr items \<Longrightarrow> length items = length snapshots"
  by (induction snapshots arbitrary: items) (auto split: sum.splits)

text \<open>Without a failure of the item queries every snapshot's items are loaded.\<close>

lemma loadItems_total:
  "\<forall>s \<in> set snapshots. st_fault st (QueryItems (snap_ID s)) = None \<Longrightarrow>
   loadItems st snapshots = Inr (map (\<lambda>s. itemsOf st (snap_ID s)) snapshots)"
  by (induction snapshots) (simp_all add: GetSnapshotItems_def)

text \<open>A failure of one item query is returned.\<close>

lemma loadItems_fault:
  "s \<in> set snapshots \<Longrightarrow> st_fault st (QueryItems (snap_ID s)) \<noteq> None \<Longrightarrow>
   isl (loadItems st snapshots)"
  by (induction snapshots) (auto simp: GetSnapshotItems_def split: sum.splits option.splits)

lemma buildTopApps_total:
  assumes "length snapshotItems = length snapshots" and "0 \<le> sint topN"
  shows "\<exists>apps. buildTopApps snapshotItems snapshots topN = Inr apps"
  using assms by (simp add: buildTopApps_def Let_def)

lemma groupSnapshotsByDate_total:
  assumes "length items = length snapshots" and "snapshots \<noteq> []"
  shows "\<exists>g gi. groupSnapshotsByDate tzdb snapshots items = Some (g, gi) \<and>
                g \<noteq> [] \<and> length gi = length g"
proof -
  let ?R = "retained (dateKey (seoulOrUTC tzdb)) snapshots"
  have "?R \<noteq> []" using retained_last[OF assms(2), of "dateKey (seoulOrUTC tzdb)"] by auto
  then show ?thesis
    unfolding groupSnapshotsByDate_groupBy groupBy_closed[OF assms(1)] by simp
qed

section \<open>The entry points\<close>

lemma ListSnapshots_select:
  "st_fault st QueryList = None \<Longrightarrow>
   ListSnapshots st country chart = Inr (sort_key snap_CollectedAt (selectSnapshots st country chart))"
  by (simp add: ListSnapshots_def)

lemma computeTimeSeries_payload:
  assumes "ListSnapshots st country chart = Inr snapshots" and "snapshots \<noteq> []"
    and "LoadThemeConfig fs themePath = Inr themeConfig"
    and "loadItems st snapshots = Inr snapshotItems"
    and "groupSnapshotsByDate tzdb snapshots snapshotItems = Some (grouped, groupedItems)"
    and "0 \<le> sint topN"
  shows "\<exists>topApps. computeTimeSeries fs tzdb st country chart themePath cfg topN =
           Inr \<lparr>tp_Meta = \<lparr>tm_Country = country, tm_Chart = chart,
                             tm_Limit = snap_Limit (last grouped)\<rparr>,
                tp_Dates = map (\<lambda>idx. snap_CollectedAt (grouped ! idx)) [0 ..< length grouped],
                tp_RotationIndex =
                  map (\<lambda>idx. res_RotationIndex (transition grouped groupedItems cfg themeConfig idx))
                    [0 ..< length grouped],
                tp_RiskOnScore =
                  map (\<lambda>idx. res_RiskOnScore (transition grouped groupedItems cfg themeConfig idx))
                    [0 ..< length grouped],
                tp_RiskOffScore =
                  map (\<lambda>idx. res_RiskOffScore (transition grouped groupedItems cfg themeConfig idx))
                    [0 ..< length grouped],
                tp_ThemeScores =
                  (\<lambda>theme. if theme \<in> set (uniqueThemes themeConfig)
                     then Some (map (\<lambda>idx. case res_ThemeScores
                                         (transition grouped groupedItems cfg themeConfig idx) theme of
                                       None \<Rightarrow> 0 | Some v \<Rightarrow> v) [0 ..< length grouped])
                     else None),
                tp_TopApps = topApps\<rparr>"
proof -
  have len: "length snapshotItems = length snapshots"
    using assms(4) by (rule loadItems_length)
  from groupSnapshotsByDate_total[OF len assms(2), of tzdb] assms(5)
  have g: "grouped \<noteq> []" "length groupedItems = length grouped" by auto
  from buildTopApps_total[OF g(2) assms(6)]
  obtain apps where apps: "buildTopApps groupedItems grouped topN = Inr apps" by blast
  show ?thesis
    by (rule exI[of _ apps])
       (simp add: computeTimeSeries_def assms(1) assms(2) assms(3) assms(4) assms(5)
          buildSeries_closed apps g(1))
qed

text \<open>
  With a snapshot, no failure of the queries, a theme configuration that loads and a
  number of top apps that is not negative, a payload is returned, with one date per
  retained day.
\<close>

lemma computeTimeSeries_succeeds:
  assumes "selectSnapshots st country chart \<noteq> []"
    and "LoadThemeConfig fs themePath = Inr themeConfig"
    and "0 \<le> sint topN"
    and "st_fault st QueryList = None"
    and "\<forall>s \<in> set (selectSnapshots st country chart). st_fault st (QueryItems (snap_ID s)) = None"
  shows "\<exists>payload. computeTimeSeries fs tzdb st country chart themePath cfg topN = Inr payload \<and>
           length (tp_Dates payload) =
             length (retained (dateKey (seoulOrUTC tzdb))
                       (sort_key snap_CollectedAt (selectSnapshots st country chart)))"
proof -
  let ?snapshots = "sort_key snap_CollectedAt (selectSnapshots st country chart)"
  let ?items = "map (\<lambda>s. itemsOf st (snap_ID s)) ?snapshots"
  have ne: "?snapshots \<noteq> []"
    using assms(1) by (metis length_sort list.size(3) length_0_conv)
  have "\<forall>s \<in> set ?snapshots. st_fault st (QueryItems (snap_ID s)) = None"
    using assms(5) by simp
  then have items: "loadItems st ?snapshots = Inr ?items"
    by (rule loadItems_total)
  have len: "length ?items = length ?snapshots" by simp
  let ?R = "retained (dateKey (seoulOrUTC tzdb)) ?snapshots"
  have grp: "groupSnapshotsByDate tzdb ?snapshots ?items =
      Some (map (\<lambda>i. ?snapshots ! i) ?R, map (\<lambda>i. ?items ! i) ?R)"
    unfolding groupSnapshotsByDate_groupBy by (rule groupBy_closed[OF len])
  from computeTimeSeries_payload[OF ListSnapshots_select[OF assms(4)] ne assms(2) items grp assms(3),
      where cfg = cfg]
  obtain payload where
    p: "computeTimeSeries fs tzdb st country chart themePath cfg topN = Inr payload"
    and d: "tp_Dates payload =
      map (\<lambda>idx. snap_CollectedAt (map (\<lambda>i. ?snapshots ! i) ?R ! idx))
        [0 ..< length (map (\<lambda>i. ?snapshots ! i) ?R)]"
    by force
  have "length (tp_Dates payload) = length ?R" unfolding d by simp
  with p show ?thesis by blast
qed

text \<open>
  With exactly one snapshot and no failure of its two queries the payload has one day,
  whose values are those of the snapshot analysed against itself.
\<close>

lemma computeTimeSeries_one:
  assumes "selectSnapshots st country chart = [s]"
    and "LoadThemeConfig fs themePath = Inr themeConfig"
    and "0 \<le> sint topN"
    and "st_fault st QueryList = None"
    and "st_fault st (QueryItems (snap_ID s)) = None"
  shows "\<exists>topApps. computeTimeSeries fs tzdb st country chart themePath cfg topN =
           Inr \<lparr>tp_Meta = \<lparr>tm_Country = country, tm_Chart = chart, tm_Limit = snap_Limit s\<rparr>,
                tp_Dates = [snap_CollectedAt s],
                tp_RotationIndex =
                  [res_RotationIndex (AnalyzeTrends s s (itemsOf st (snap_ID s))
                     (itemsOf st (snap_ID s)) cfg themeConfig)],
                tp_RiskOnScore =
                  [res_RiskOnScore (AnalyzeTrends s s (itemsOf st (snap_ID s))
                     (itemsOf st (snap_ID s)) cfg themeConfig)],
                tp_RiskOffScore =
                  [res_RiskOffScore (AnalyzeTrends s s (itemsOf st (snap_ID s))
                     (itemsOf st (snap_ID s)) cfg themeConfig)],
                tp_ThemeScores =
                  (\<lambda>theme. if theme \<in> set (uniqueThemes themeConfig)
                     then Some [case res_ThemeScores (AnalyzeTrends s s (itemsOf st (snap_ID s))
                                       (itemsOf st (snap_ID s)) cfg themeConfig) theme of
                                  None \<Rightarrow> 0 | Some v \<Rightarrow> v]
                     else None),
                tp_TopApps = topApps\<rparr>"
proof -
  let ?items = "itemsOf st (snap_ID s)"
  have l: "ListSnapshots st country chart = Inr [s]"
    using ListSnapshots_select[OF assms(4), of country chart] by (simp add: assms(1))
  have ne: "[s] \<noteq> []" by simp
  have items: "loadItems st [s] = Inr [?items]"
    using loadItems_total[of "[s]" st] assms(5) by simp
  have grp: "groupSnapshotsByDate tzdb [s] [?items] = Some ([s], [?items])"
    unfolding groupSnapshotsByDate_groupBy by (rule groupBy_one_per_day) simp_all
  have tr: "transition [s] [?items] cfg themeConfig 0 = AnalyzeTrends s s ?items ?items cfg themeConfig"
    by (simp add: transition_def Let_def)
  from computeTimeSeries_payload[OF l ne assms(2) items grp assms(3), where cfg = cfg]
  show ?thesis by (simp add: tr cong: if_cong)
qed

lemma computeTimeSeries_none:
  assumes "selectSnapshots st country chart = []"
  shows "isl (computeTimeSeries fs tzdb st country chart themePath cfg topN)"
    and "st_fault st QueryList = None \<Longrightarrow>
         computeTimeSeries fs tzdb st country chart themePath cfg topN =
           Inl (ErrMessage ''no snapshots found'')"
  using assms by (simp_all add: computeTimeSeries_def ListSnapshots_def split: option.splits)

lemma computeTimeSeries_fault:
  "st_fault st QueryList = Some err \<Longrightarrow>
   computeTimeSeries fs tzdb st country chart themePath cfg topN = Inl err"
  by (simp add: computeTimeSeries_def ListSnapshots_def)

lemma computeTimeSeries_items_fault:
  assumes "s \<in> set (selectSnapshots st country chart)"
    and "st_fault st (QueryItems (snap_ID s)) \<noteq> None"
  shows "isl (computeTimeSeries fs tzdb st country chart themePath cfg topN)"
proof (cases "st_fault st QueryList")
  case (Some err)
  then show ?thesis by (simp add: computeTimeSeries_fault)
next
  case None
  let ?snapshots = "sort_key snap_CollectedAt (selectSnapshots st country chart)"
  have "s \<in> set ?snapshots" using assms(1) by simp
  then have "isl (loadItems st ?snapshots)"
    using assms(2) by (rule loadItems_fault)
  then obtain e where e: "loadItems st ?snapshots = Inl e"
    by (cases "loadItems st ?snapshots") auto
  show ?thesis
    by (simp add: computeTimeSeries_def ListSnapshots_def None e split: sum.splits)
qed

text \<open>The report fails whenever fewer than two snapshots are selected, whatever else fails.\<close>

lemma computeReport_none:
  assumes "selectSnapshots st country chart = []"
  shows "isl (computeReport fs now st country chart themePath cfg)"
    and "st_fault st QueryLatest = None \<Longrightarrow>
         computeReport fs now st country chart themePath cfg = Inl ErrNoRows"
  using assms
  by (simp_all add: computeReport_def GetLatestSnapshot_def scanFirst_def split: option.splits)

lemma computeReport_one:
  assumes "selectSnapshots st country chart = [s]"
  shows "isl (computeReport fs now st country chart themePath cfg)"
    and "st_fault st QueryLatest = None \<Longrightarrow> st_fault st QueryPrevious = None \<Longrightarrow>
         computeReport fs now st country chart themePath cfg =
           Inl (ErrMessage ''need at least two snapshots for report'')"
  using assms
  by (simp_all add: computeReport_def GetLatestSnapshot_def GetPreviousSnapshot_def scanFirst_def
      split: option.splits)

lemma exStoreOne_faults: "st_fault exStoreOne q = None"
  by (simp add: exStoreOne_def)

lemma exStoreNone_faults: "st_fault exStoreNone q = None"
  by (simp add: exStoreNone_def)

lemma exStoreThree_faults: "st_fault exStoreThree q = None"
  by (simp add: exStoreThree_def)

lemma exStoreOne_select: "selectSnapshots exStoreOne ''kr'' ''top-free'' = [exDay1]"
  by (simp add: selectSnapshots_def exStoreOne_def exDay1_def exSnapshot_def)

lemma exFs_themes: "LoadThemeConfig exFs ''config/themes.json'' = Inr exThemes"
  by (simp add: LoadThemeConfig_def exFs_def exThemes_def)

lemma exThemes_names: "uniqueThemes exThemes = [''Games'', ''other'']"
  by code_simp

lemma transition_themeScores:
  "res_ThemeScores (transition snapshots snapshotItems cfg themeConfig idx) =
   themeMean (res_Trends (transition snapshots snapshotItems cfg themeConfig idx))"
  by (simp add: transition_def Let_def AnalyzeTrends_themeScores split: prod.splits)

lemma AnalyzeTrends_theme_key:
  assumes "item \<in> set latestItems"
  shows "Classify (NewThemeClassifier themes)
           \<lparr>ti_Name = ci_AppName item, ti_Genres = ci_Genres item,
            ti_GenreIDs = ci_GenreIDs item, ti_PrimaryGenre = ci_PrimaryGenre item,
            ti_ItunesGenres = ci_ItunesGenres item\<rparr>
         \<in> dom (res_ThemeScores (AnalyzeTrends latest previous latestItems previousItems cfg themes))"
proof -
  let ?b = "buildTrend latest (itemMap previousItems) (NewThemeClassifier themes) item"
  let ?built = "builtTrends latest latestItems previousItems themes"
  have "?b \<in> set ?built" using assms by (simp add: builtTrends_def)
  then have "scoreTrend cfg (meanStd (rankDeltas ?built)) (meanStd (reviewDeltas ?built)) ?b
      \<in> set (scoredTrends latest latestItems previousItems cfg themes)"
    by (simp add: scoredTrends_def Let_def)
  then have "at_Theme ?b \<in> at_Theme ` set (scoredTrends latest latestItems previousItems cfg themes)"
    by (metis imageI scoreTrend_fields(6))
  then show ?thesis
    unfolding AnalyzeTrends_themeScores themeMean_dom AnalyzeTrends_trends sortTrends_set
    by (simp only: buildTrend_theme)
qed

lemma exStoreOne_list: "ListSnapshots exStoreOne ''kr'' ''top-free'' = Inr [exDay1]"
  by (simp add: ListSnapshots_select[OF exStoreOne_faults] exStoreOne_select)

lemma exStoreOne_itemsOf: "itemsOf exStoreOne (snap_ID exDay1) = exItems1"
  by (simp add: itemsOf_def exStoreOne_def exDay1_def exSnapshot_def exItems1_def exItem_def)

lemma exStoreOne_items: "loadItems exStoreOne [exDay1] = Inr [exItems1]"
  by (simp add: GetSnapshotItems_def exStoreOne_faults exStoreOne_itemsOf)

lemma exStoreOne_grouped:
  "groupSnapshotsByDate exTzdb [exDay1] [exItems1] = Some ([exDay1], [exItems1])"
  unfolding groupSnapshotsByDate_groupBy by (rule groupBy_one_per_day) simp_all

lemma exStoreThree_list:
  "ListSnapshots exStoreThree ''kr'' ''top-free'' = Inr [exDay1, exDay2, exDay2b]"
  by (simp add: ListSnapshots_def selectSnapshots_def exStoreThree_def exDay1_def exDay2_def
      exDay2b_def exSnapshot_def)

lemma exStoreThree_items:
  "loadItems exStoreThree [exDay1, exDay2, exDay2b] = Inr [exItems1, exItems2, exItems2b]"
  by (simp add: GetSnapshotItems_def itemsOf_def exStoreThree_def exDay1_def exDay2_def exDay2b_def
      exSnapshot_def exItems1_def exItems2_def exItems2b_def exItem_def)

lemma exStoreThree_grouped:
  "groupSnapshotsByDate exTzdb [exDay1, exDay2, exDay2b] [exItems1, exItems2, exItems2b]
     = Some ([exDay1, exDay2b], [exItems1, exItems2b])"
proof -
  have r: "retained (dateKey (seoulOrUTC exTzdb)) [exDay1, exDay2, exDay2b] = [0, 2]"
    by code_simp
  show ?thesis
    unfolding groupSnapshotsByDate_groupBy
    by (subst groupBy_closed) (simp_all add: r)
qed

text \<open>
  Claim C3, as the code has it. When the time series is computed (there is a snapshot,
  the theme configuration loads, the number of top apps is not negative), the keys of its
  theme scores are \<open>''other''\<close> and the non-empty theme names of the configured rules, as
  they are written in the configuration; the list of these names is sorted and without
  duplicates. The series of a key has one value per retained day: the mean trend score of
  the records that day's result labels with exactly that name, and 0 where there is none.
\<close>

theorem timeseries_theme_scores:
  assumes "ListSnapshots st country chart = Inr snapshots" and "snapshots \<noteq> []"
    and "LoadThemeConfig fs themePath = Inr themeConfig"
    and "loadItems st snapshots = Inr snapshotItems"
    and "groupSnapshotsByDate tzdb snapshots snapshotItems = Some (grouped, groupedItems)"
    and "0 \<le> sint topN"
  shows "\<exists>payload. computeTimeSeries fs tzdb st country chart themePath cfg topN = Inr payload \<and>
           dom (tp_ThemeScores payload) =
             insert ''other'' {tr_Theme rule |rule. rule \<in> set (tc_Rules themeConfig) \<and> tr_Theme rule \<noteq> []} \<and>
           dom (tp_ThemeScores payload) = set (uniqueThemes themeConfig) \<and>
           sorted (uniqueThemes themeConfig) \<and> distinct (uniqueThemes themeConfig) \<and>
           (\<forall>theme \<in> dom (tp_ThemeScores payload).
              tp_ThemeScores payload theme =
                Some (map (\<lambda>idx. case themeMean
                                      (res_Trends (transition grouped groupedItems cfg themeConfig idx))
                                      theme of
                                   None \<Rightarrow> 0 | Some v \<Rightarrow> v) [0 ..< length grouped]))"
proof -
  from computeTimeSeries_payload[OF assms, where cfg = cfg]
  obtain payload where
    p: "computeTimeSeries fs tzdb st country chart themePath cfg topN = Inr payload"
    and ts: "tp_ThemeScores payload =
      (\<lambda>theme. if theme \<in> set (uniqueThemes themeConfig)
         then Some (map (\<lambda>idx. case res_ThemeScores
                                     (transition grouped groupedItems cfg themeConfig idx) theme of
                                None \<Rightarrow> 0 | Some v \<Rightarrow> v) [0 ..< length grouped])
         else None)"
    by force
  have dom: "dom (tp_ThemeScores payload) = set (uniqueThemes themeConfig)"
    unfolding ts by (auto simp: dom_def)
  have vals: "\<forall>theme \<in> dom (tp_ThemeScores payload).
      tp_ThemeScores payload theme =
        Some (map (\<lambda>idx. case themeMean
                              (res_Trends (transition grouped groupedItems cfg themeConfig idx))
                              theme of
                           None \<Rightarrow> 0 | Some v \<Rightarrow> v) [0 ..< length grouped])"
    unfolding dom by (simp add: ts transition_themeScores)
  show ?thesis
    using p dom dom[unfolded uniqueThemes_set] uniqueThemes_sorted[of themeConfig]
      uniqueThemes_distinct[of themeConfig] vals
    by blast
qed

text \<open>
  The example configuration has a rule with the empty theme name, which labels the items
  of genre 6015: the empty name is a key of a day's theme scores and is not a key of the
  time series.
\<close>

theorem timeseries_theme_scores_counterexample:
  "\<not> isl (computeTimeSeries exFs exTzdb exStoreOne ''kr'' ''top-free'' ''config/themes.json'' exCfg 10) \<and>
   [] \<in> insert ''other'' (tr_Theme ` set (tc_Rules exThemes)) \<and>
   [] \<in> dom (res_ThemeScores (AnalyzeTrends exDay1 exDay1 exItems1 exItems1 exCfg exThemes)) \<and>
   [] \<notin> dom (tp_ThemeScores (projr
          (computeTimeSeries exFs exTzdb exStoreOne ''kr'' ''top-free'' ''config/themes.json'' exCfg 10)))"
proof -
  have n: "(0 :: int) \<le> sint (10 :: go_int)" by simp
  have ne: "[exDay1] \<noteq> []" by simp
  from computeTimeSeries_payload[OF exStoreOne_list ne exFs_themes exStoreOne_items
      exStoreOne_grouped n, where cfg = exCfg]
  obtain payload where
    p: "computeTimeSeries exFs exTzdb exStoreOne ''kr'' ''top-free'' ''config/themes.json'' exCfg 10
        = Inr payload"
    and ts: "tp_ThemeScores payload =
      (\<lambda>theme. if theme \<in> set (uniqueThemes exThemes)
         then Some (map (\<lambda>idx. case res_ThemeScores
                                     (transition [exDay1] [exItems1] exCfg exThemes idx) theme of
                                None \<Rightarrow> 0 | Some v \<Rightarrow> v) [0 ..< length [exDay1]])
         else None)"
    by force
  have a: "\<not> isl (computeTimeSeries exFs exTzdb exStoreOne ''kr'' ''top-free'' ''config/themes.json'' exCfg 10)"
    by (simp add: p)
  have b: "[] \<in> insert ''other'' (tr_Theme ` set (tc_Rules exThemes))"
    by (simp add: exThemes_def)
  have item: "exItem 1 2 ''B'' [''6015''] 50 \<in> set exItems1" by (simp add: exItems1_def)
  have cl: "Classify (NewThemeClassifier exThemes)
           \<lparr>ti_Name = ci_AppName (exItem 1 2 ''B'' [''6015''] 50),
            ti_Genres = ci_Genres (exItem 1 2 ''B'' [''6015''] 50),
            ti_GenreIDs = ci_GenreIDs (exItem 1 2 ''B'' [''6015''] 50),
            ti_PrimaryGenre = ci_PrimaryGenre (exItem 1 2 ''B'' [''6015''] 50),
            ti_ItunesGenres = ci_ItunesGenres (exItem 1 2 ''B'' [''6015''] 50)\<rparr> = []"
    by code_simp
  have c: "[] \<in> dom (res_ThemeScores (AnalyzeTrends exDay1 exDay1 exItems1 exItems1 exCfg exThemes))"
    using AnalyzeTrends_theme_key[OF item, of exThemes exDay1 exDay1 exItems1 exCfg]
    unfolding cl .
  have d: "[] \<notin> dom (tp_ThemeScores (projr
          (computeTimeSeries exFs exTzdb exStoreOne ''kr'' ''top-free'' ''config/themes.json'' exCfg 10)))"
    by (simp add: p ts exThemes_names dom_def)
  show ?thesis using a b c d by (intro conjI)
qed

text \<open>
  Three snapshots on two days under the example configuration: the keys are \<open>Games\<close> and
  \<open>other\<close>, and each series has two values.
\<close>

theorem timeseries_theme_scores_witness:
  "\<not> isl (computeTimeSeries exFs exTzdb exStoreThree ''kr'' ''top-free'' ''config/themes.json'' exCfg 10) \<and>
   dom (tp_ThemeScores (projr
     (computeTimeSeries exFs exTzdb exStoreThree ''kr'' ''top-free'' ''config/themes.json'' exCfg 10)))
     = {''Games'', ''other''} \<and>
   map_option length (tp_ThemeScores (projr
     (computeTimeSeries exFs exTzdb exStoreThree ''kr'' ''top-free'' ''config/themes.json'' exCfg 10))
     ''Games'') = Some 2"
proof -
  have n: "(0 :: int) \<le> sint (10 :: go_int)" by simp
  have ne: "[exDay1, exDay2, exDay2b] \<noteq> []" by simp
  from timeseries_theme_scores[OF exStoreThree_list ne exFs_themes exStoreThree_items
      exStoreThree_grouped n, where cfg = exCfg]
  obtain payload where
    p: "computeTimeSeries exFs exTzdb exStoreThree ''kr'' ''top-free'' ''config/themes.json'' exCfg 10
        = Inr payload"
    and dom: "dom (tp_ThemeScores payload) = set (uniqueThemes exThemes)"
    and vals: "\<forall>theme \<in> dom (tp_ThemeScores payload).
      tp_ThemeScores payload theme =
        Some (map (\<lambda>idx. case themeMean
                              (res_Trends (transition [exDay1, exDay2b] [exItems1, exItems2b] exCfg exThemes idx))
                              theme of
                           None \<Rightarrow> 0 | Some v \<Rightarrow> v) [0 ..< length [exDay1, exDay2b]])"
    by blast
  have keys: "dom (tp_ThemeScores payload) = {''Games'', ''other''}"
    unfolding dom exThemes_names by simp
  then have "''Games'' \<in> dom (tp_ThemeScores payload)" by simp
  with vals have "map_option length (tp_ThemeScores payload ''Games'') = Some 2"
    by simp
  with keys show ?thesis by (simp add: p)
qed

lemma computeTimeSeries_config_fault:
  assumes "isl (LoadThemeConfig fs themePath)"
  shows "isl (computeTimeSeries fs tzdb st country chart themePath cfg topN)"
proof -
  from assms obtain e where e: "LoadThemeConfig fs themePath = Inl e"
    by (cases "LoadThemeConfig fs themePath") auto
  show ?thesis
    by (simp add: computeTimeSeries_def e split: sum.splits)
qed

lemma fewer_than_two:
  "length xs < 2 \<Longrightarrow> xs = [] \<or> (\<exists>x. xs = [x])"
  by (cases xs; cases "tl xs") auto

text \<open>
  Claim C1, as the code has it. The report fails whenever fewer than two snapshots exist
  for the market and chart, whatever the database does: when its queries do not fail, with
  the store's no-rows error for no snapshot and with the error that two snapshots are
  needed for one. The time series fails whenever there is no snapshot, with the error that
  none was found when the query does not fail. With exactly one snapshot \<open>s\<close> it fails
  when the listing of the snapshots or the query for the items of \<open>s\<close> fails or the theme
  configuration does not load. Otherwise, for a number of top apps that is not negative,
  it returns a payload of one day: the date is that of \<open>s\<close>, and the rotation index, the
  two risk scores and the value of every theme are those of \<open>s\<close> analysed against itself,
  with the items of \<open>s\<close> as both the current and the previous list.
\<close>

theorem insufficient_data:
  "(length (selectSnapshots st country chart) < 2 \<longrightarrow>
      isl (computeReport fs now st country chart themePath cfg)) \<and>
   (selectSnapshots st country chart = [] \<and> st_fault st QueryLatest = None \<longrightarrow>
      computeReport fs now st country chart themePath cfg = Inl ErrNoRows) \<and>
   (selectSnapshots st country chart = [s] \<and> st_fault st QueryLatest = None \<and>
    st_fault st QueryPrevious = None \<longrightarrow>
      computeReport fs now st country chart themePath cfg =
        Inl (ErrMessage ''need at least two snapshots for report'')) \<and>
   (selectSnapshots st country chart = [] \<longrightarrow>
      isl (computeTimeSeries fs tzdb st country chart themePath cfg topN)) \<and>
   (selectSnapshots st country chart = [] \<and> st_fault st QueryList = None \<longrightarrow>
      computeTimeSeries fs tzdb st country chart themePath cfg topN =
        Inl (ErrMessage ''no snapshots found'')) \<and>
   (selectSnapshots st country chart = [s] \<and>
    (st_fault st QueryList \<noteq> None \<or> st_fault st (QueryItems (snap_ID s)) \<noteq> None \<or>
     isl (LoadThemeConfig fs themePath)) \<longrightarrow>
      isl (computeTimeSeries fs tzdb st country chart themePath cfg topN)) \<and>
   (selectSnapshots st country chart = [s] \<and> st_fault st QueryList = None \<and>
    st_fault st (QueryItems (snap_ID s)) = None \<and>
    LoadThemeConfig fs themePath = Inr themeConfig \<and> 0 \<le> sint topN \<longrightarrow>
      (\<exists>payload. computeTimeSeries fs tzdb st country chart themePath cfg topN = Inr payload \<and>
         tp_Dates payload = [snap_CollectedAt s] \<and>
         tp_RotationIndex payload =
           [res_RotationIndex (AnalyzeTrends s s (itemsOf st (snap_ID s)) (itemsOf st (snap_ID s))
              cfg themeConfig)] \<and>
         tp_RiskOnScore payload =
           [res_RiskOnScore (AnalyzeTrends s s (itemsOf st (snap_ID s)) (itemsOf st (snap_ID s))
              cfg themeConfig)] \<and>
         tp_RiskOffScore payload =
           [res_RiskOffScore (AnalyzeTrends s s (itemsOf st (snap_ID s)) (itemsOf st (snap_ID s))
              cfg themeConfig)] \<and>
         tp_ThemeScores payload =
           (\<lambda>theme. if theme \<in> set (uniqueThemes themeConfig)
              then Some [case res_ThemeScores (AnalyzeTrends s s (itemsOf st (snap_ID s))
                                (itemsOf st (snap_ID s)) cfg themeConfig) theme of
                           None \<Rightarrow> 0 | Some v \<Rightarrow> v]
              else None)))"
proof -
  have a: "length (selectSnapshots st country chart) < 2 \<longrightarrow>
      isl (computeReport fs now st country chart themePath cfg)"
  proof
    assume "length (selectSnapshots st country chart) < 2"
    then have "selectSnapshots st country chart = [] \<or>
        (\<exists>x. selectSnapshots st country chart = [x])"
      by (rule fewer_than_two)
    then show "isl (computeReport fs now st country chart themePath cfg)"
      using computeReport_none(1) computeReport_one(1) by blast
  qed
  have b: "selectSnapshots st country chart = [] \<and> st_fault st QueryLatest = None \<longrightarrow>
      computeReport fs now st country chart themePath cfg = Inl ErrNoRows"
    using computeReport_none(2) by blast
  have c: "selectSnapshots st country chart = [s] \<and> st_fault st QueryLatest = None \<and>
      st_fault st QueryPrevious = None \<longrightarrow>
      computeReport fs now st country chart themePath cfg =
        Inl (ErrMessage ''need at least two snapshots for report'')"
    using computeReport_one(2) by blast
  have d: "selectSnapshots st country chart = [] \<longrightarrow>
      isl (computeTimeSeries fs tzdb st country chart themePath cfg topN)"
    using computeTimeSeries_none(1) by blast
  have e: "selectSnapshots st country chart = [] \<and> st_fault st QueryList = None \<longrightarrow>
      computeTimeSeries fs tzdb st country chart themePath cfg topN =
        Inl (ErrMessage ''no snapshots found'')"
    using computeTimeSeries_none(2) by blast
  have f: "selectSnapshots st country chart = [s] \<and>
      (st_fault st QueryList \<noteq> None \<or> st_fault st (QueryItems (snap_ID s)) \<noteq> None \<or>
       isl (LoadThemeConfig fs themePath)) \<longrightarrow>
      isl (computeTimeSeries fs tzdb st country chart themePath cfg topN)"
  proof (intro impI, elim conjE)
    assume sel: "selectSnapshots st country chart = [s]"
      and fault: "st_fault st QueryList \<noteq> None \<or> st_fault st (QueryItems (snap_ID s)) \<noteq> None \<or>
        isl (LoadThemeConfig fs themePath)"
    have mem: "s \<in> set (selectSnapshots st country chart)" by (simp add: sel)
    from fault show "isl (computeTimeSeries fs tzdb st country chart themePath cfg topN)"
    proof (elim disjE)
      assume "st_fault st QueryList \<noteq> None"
      then obtain err where "st_fault st QueryList = Some err" by auto
      then show ?thesis by (simp add: computeTimeSeries_fault)
    next
      assume "st_fault st (QueryItems (snap_ID s)) \<noteq> None"
      with mem show ?thesis by (rule computeTimeSeries_items_fault)
    next
      assume "isl (LoadThemeConfig fs themePath)"
      then show ?thesis by (rule computeTimeSeries_config_fault)
    qed
  qed
  have g: "selectSnapshots st country chart = [s] \<and> st_fault st QueryList = None \<and>
      st_fault st (QueryItems (snap_ID s)) = None \<and>
      LoadThemeConfig fs themePath = Inr themeConfig \<and> 0 \<le> sint topN \<longrightarrow>
      (\<exists>payload. computeTimeSeries fs tzdb st country chart themePath cfg topN = Inr payload \<and>
         tp_Dates payload = [snap_CollectedAt s] \<and>
         tp_RotationIndex payload =
           [res_RotationIndex (AnalyzeTrends s s (itemsOf st (snap_ID s)) (itemsOf st (snap_ID s))
              cfg themeConfig)] \<and>
         tp_RiskOnScore payload =
           [res_RiskOnScore (AnalyzeTrends s s (itemsOf st (snap_ID s)) (itemsOf st (snap_ID s))
              cfg themeConfig)] \<and>
         tp_RiskOffScore payload =
           [res_RiskOffScore (AnalyzeTrends s s (itemsOf st (snap_ID s)) (itemsOf st (snap_ID s))
              cfg themeConfig)] \<and>
         tp_ThemeScores payload =
           (\<lambda>theme. if theme \<in> set (uniqueThemes themeConfig)
              then Some [case res_ThemeScores (AnalyzeTrends s s (itemsOf st (snap_ID s))
                                (itemsOf st (snap_ID s)) cfg themeConfig) theme of
                           None \<Rightarrow> 0 | Some v \<Rightarrow> v]
              else None))"
  proof (intro impI, elim conjE)
    assume h: "selectSnapshots st country chart = [s]" "st_fault st QueryList = None"
      "st_fault st (QueryItems (snap_ID s)) = None"
      "LoadThemeConfig fs themePath = Inr themeConfig" "0 \<le> sint topN"
    from computeTimeSeries_one[OF h(1) h(4) h(5) h(2) h(3), of tzdb cfg]
    obtain topApps where
      p: "computeTimeSeries fs tzdb st country chart themePath cfg topN =
           Inr \<lparr>tp_Meta = \<lparr>tm_Country = country, tm_Chart = chart, tm_Limit = snap_Limit s\<rparr>,
                tp_Dates = [snap_CollectedAt s],
                tp_RotationIndex =
                  [res_RotationIndex (AnalyzeTrends s s (itemsOf st (snap_ID s))
                     (itemsOf st (snap_ID s)) cfg themeConfig)],
                tp_RiskOnScore =
                  [res_RiskOnScore (AnalyzeTrends s s (itemsOf st (snap_ID s))
                     (itemsOf st (snap_ID s)) cfg themeConfig)],
                tp_RiskOffScore =
                  [res_RiskOffScore (AnalyzeTrends s s (itemsOf st (snap_ID s))
                     (itemsOf st (snap_ID s)) cfg themeConfig)],
                tp_ThemeScores =
                  (\<lambda>theme. if theme \<in> set (uniqueThemes themeConfig)
                     then Some [case res_ThemeScores (AnalyzeTrends s s (itemsOf st (snap_ID s))
                                       (itemsOf st (snap_ID s)) cfg themeConfig) theme of
                                  None \<Rightarrow> 0 | Some v \<Rightarrow> v]
                     else None),
                tp_TopApps = topApps\<rparr>"
      by blast
    show "\<exists>payload. computeTimeSeries fs tzdb st country chart themePath cfg topN = Inr payload \<and>
         tp_Dates payload = [snap_CollectedAt s] \<and>
         tp_RotationIndex payload =
           [res_RotationIndex (AnalyzeTrends s s (itemsOf st (snap_ID s)) (itemsOf st (snap_ID s))
              cfg themeConfig)] \<and>
         tp_RiskOnScore payload =
           [res_RiskOnScore (AnalyzeTrends s s (itemsOf st (snap_ID s)) (itemsOf st (snap_ID s))
              cfg themeConfig)] \<and>
         tp_RiskOffScore payload =
           [res_RiskOffScore (AnalyzeTrends s s (itemsOf st (snap_ID s)) (itemsOf st (snap_ID s))
              cfg themeConfig)] \<and>
         tp_ThemeScores payload =
           (\<lambda>theme. if theme \<in> set (uniqueThemes themeConfig)
              then Some [case res_ThemeScores (AnalyzeTrends s s (itemsOf st (snap_ID s))
                                (itemsOf st (snap_ID s)) cfg themeConfig) theme of
                           None \<Rightarrow> 0 | Some v \<Rightarrow> v]
              else None)"
      unfolding p by simp
  qed
  show ?thesis by (intro conjI) (rule a b c d e f g)+
qed

text \<open>
  With exactly one stored snapshot and a database that does not fail the time series is
  computed, for the one day of that snapshot: the request is fulfilled, where the claim has
  it fail.
\<close>

theorem insufficient_data_counterexample:
  "length (selectSnapshots exStoreOne ''kr'' ''top-free'') = 1 \<and>
   \<not> isl (computeTimeSeries exFs exTzdb exStoreOne ''kr'' ''top-free'' ''config/themes.json'' exCfg 10) \<and>
   tp_Dates (projr
     (computeTimeSeries exFs exTzdb exStoreOne ''kr'' ''top-free'' ''config/themes.json'' exCfg 10)) =
     [1700000000]"
proof -
  have n: "(0 :: int) \<le> sint (10 :: go_int)" by simp
  from computeTimeSeries_one[OF exStoreOne_select exFs_themes n exStoreOne_faults exStoreOne_faults,
      of exTzdb exCfg]
  obtain payload where
    p: "computeTimeSeries exFs exTzdb exStoreOne ''kr'' ''top-free'' ''config/themes.json'' exCfg 10
       = Inr payload"
    and d: "tp_Dates payload = [snap_CollectedAt exDay1]"
    by force
  have "snap_CollectedAt exDay1 = 1700000000"
    by (simp add: exDay1_def exSnapshot_def)
  with p d show ?thesis by (simp add: exStoreOne_select)
qed

text \<open>
  The store with one snapshot and the empty store: the report fails on both, the time
  series on the empty one only; on the other it has the day of the one snapshot, with the
  rotation index of that snapshot analysed against itself.
\<close>

theorem insufficient_data_witness:
  "computeReport exFs 1700200000 exStoreOne ''kr'' ''top-free'' ''config/themes.json'' exCfg =
     Inl (ErrMessage ''need at least two snapshots for report'') \<and>
   computeReport exFs 1700200000 exStoreNone ''kr'' ''top-free'' ''config/themes.json'' exCfg =
     Inl ErrNoRows \<and>
   computeTimeSeries exFs exTzdb exStoreNone ''kr'' ''top-free'' ''config/themes.json'' exCfg 10 =
     Inl (ErrMessage ''no snapshots found'') \<and>
   (\<exists>payload. computeTimeSeries exFs exTzdb exStoreOne ''kr'' ''top-free'' ''config/themes.json'' exCfg 10
       = Inr payload \<and>
       tp_Dates payload = [1700000000] \<and>
       tp_RotationIndex payload =
         [res_RotationIndex (AnalyzeTrends exDay1 exDay1 exItems1 exItems1 exCfg exThemes)])"
proof -
  have n: "(0 :: int) \<le> sint (10 :: go_int)" by simp
  have none: "selectSnapshots exStoreNone ''kr'' ''top-free'' = []"
    by (simp add: selectSnapshots_def exStoreNone_def)
  have day: "snap_CollectedAt exDay1 = 1700000000"
    by (simp add: exDay1_def exSnapshot_def)
  note t1 = insufficient_data[of exStoreOne "''kr''" "''top-free''" exFs 1700200000
      "''config/themes.json''" exCfg exDay1 exTzdb 10 exThemes]
  note t0 = insufficient_data[of exStoreNone "''kr''" "''top-free''" exFs 1700200000
      "''config/themes.json''" exCfg exDay1 exTzdb 10 exThemes]
  have a: "computeReport exFs 1700200000 exStoreOne ''kr'' ''top-free'' ''config/themes.json'' exCfg =
     Inl (ErrMessage ''need at least two snapshots for report'')"
    using t1 exStoreOne_select exStoreOne_faults by blast
  have b: "computeReport exFs 1700200000 exStoreNone ''kr'' ''top-free'' ''config/themes.json'' exCfg =
     Inl ErrNoRows"
    using t0 none exStoreNone_faults by blast
  have c: "computeTimeSeries exFs exTzdb exStoreNone ''kr'' ''top-free'' ''config/themes.json'' exCfg 10 =
     Inl (ErrMessage ''no snapshots found'')"
    using t0 none exStoreNone_faults by blast
  have "\<exists>payload. computeTimeSeries exFs exTzdb exStoreOne ''kr'' ''top-free'' ''config/themes.json'' exCfg 10
       = Inr payload \<and>
       tp_Dates payload = [snap_CollectedAt exDay1] \<and>
       tp_RotationIndex payload =
         [res_RotationIndex (AnalyzeTrends exDay1 exDay1 (itemsOf exStoreOne (snap_ID exDay1))
            (itemsOf exStoreOne (snap_ID exDay1)) exCfg exThemes)]"
    using t1 exStoreOne_select exStoreOne_faults exFs_themes n by blast
  then have d: "\<exists>payload. computeTimeSeries exFs exTzdb exStoreOne ''kr'' ''top-free'' ''config/themes.json'' exCfg 10
       = Inr payload \<and>
       tp_Dates payload = [1700000000] \<and>
       tp_RotationIndex payload =
         [res_RotationIndex (AnalyzeTrends exDay1 exDay1 exItems1 exItems1 exCfg exThemes)]"
    by (simp only: exStoreOne_itemsOf day)
  show ?thesis using a b c d by (intro conjI)
qed

end
